theory Spec2Isabelle
  imports Complex_Main "HOL-Library.Multiset"
begin

section \<open>Python values and string built-ins used by the converters\<close>

text \<open>
  The converters read JSON records. A field value is modelled as \<open>null\<close>, a string or an
  integer; JSON floats, booleans and nested containers are outside the model. Strings are
  ASCII character lists.
\<close>

datatype pyval = PNone | PStr string | PInt int

text \<open>\<open>str.strip()\<close>: removes the white space of the ASCII range on both sides.\<close>

definition is_space :: "char \<Rightarrow> bool" where
  "is_space c \<longleftrightarrow> c \<in> set [CHR 0x09, CHR 0x0A, CHR 0x0B, CHR 0x0C, CHR 0x0D,
                           CHR 0x1C, CHR 0x1D, CHR 0x1E, CHR 0x1F, CHR 0x20]"

definition strip :: "string \<Rightarrow> string" where
  "strip s = rev (dropWhile is_space (rev (dropWhile is_space s)))"

text \<open>
  \<open>str.zfill(width)\<close>: a string at least \<open>width\<close> long is returned as it is; a shorter
  one is padded with \<open>0\<close> on the left, after a leading sign if there is one.
\<close>

definition zfill :: "nat \<Rightarrow> string \<Rightarrow> string" where
  "zfill w s =
     (if w \<le> length s then s
      else (case s of
              [] \<Rightarrow> replicate w CHR ''0''
            | c # r \<Rightarrow>
                if c = CHR ''+'' \<or> c = CHR ''-''
                then c # replicate (w - length s) CHR ''0'' @ r
                else replicate (w - length s) CHR ''0'' @ s))"

text \<open>Python slicing \<open>s[a:b]\<close> for constant \<open>0 \<le> a \<le> b\<close>: never raises, clips at the end.\<close>

definition slice :: "nat \<Rightarrow> nat \<Rightarrow> 'a list \<Rightarrow> 'a list" where
  "slice a b s = take (b - a) (drop a s)"

text \<open>\<open>str(n)\<close> for an integer: decimal digits, with \<open>-\<close> in front of a negative one.\<close>

definition digit_char :: "nat \<Rightarrow> char" where
  "digit_char d = ''0123456789'' ! (d mod 10)"

fun str_nat :: "nat \<Rightarrow> string" where
  "str_nat n = (if n < 10 then [digit_char n] else str_nat (n div 10) @ [digit_char (n mod 10)])"

declare str_nat.simps [simp del]

definition str_int :: "int \<Rightarrow> string" where
  "str_int i = (if i < 0 then CHR ''-'' # str_nat (nat (- i)) else str_nat (nat i))"

fun py_str :: "pyval \<Rightarrow> string" where
  "py_str PNone = ''None''"
| "py_str (PStr s) = s"
| "py_str (PInt i) = str_int i"

text \<open>Truth value of an object, as \<open>if x:\<close> and \<open>x or y\<close> test it.\<close>

fun truthy :: "pyval \<Rightarrow> bool" where
  "truthy PNone = False"
| "truthy (PStr s) = (s \<noteq> [])"
| "truthy (PInt i) = (i \<noteq> 0)"

definition py_or :: "pyval \<Rightarrow> pyval \<Rightarrow> pyval" where
  "py_or a b = (if truthy a then a else b)"

text \<open>A record is a dictionary; \<open>record.get(key)\<close> gives \<open>None\<close> for a missing key.\<close>

type_synonym pyrecord = "string \<rightharpoonup> pyval"

definition get :: "pyrecord \<Rightarrow> string \<Rightarrow> pyval" where
  "get r k = (case r k of None \<Rightarrow> PNone | Some v \<Rightarrow> v)"

definition get_default :: "pyrecord \<Rightarrow> string \<Rightarrow> pyval \<Rightarrow> pyval" where
  "get_default r k d = (case r k of None \<Rightarrow> d | Some v \<Rightarrow> v)"

definition zeros :: "nat \<Rightarrow> string" where
  "zeros w = replicate w CHR ''0''"

section \<open>Budget record converter (scripts/nep-gaa/converter.py)\<close>

datatype py_error = TypeError | KeyError | ZeroDivisionError

text \<open>
  \<open>load_fund_categories\<close>: \<open>None\<close> stands for a missing fund-category file (the lookup is
  then empty). \<open>len(uacs)\<close> raises \<open>TypeError\<close> when \<open>uacs_code\<close> is \<open>null\<close> or a number.
  Later categories overwrite earlier ones with the same key.
\<close>

fun load_loop :: "(string \<rightharpoonup> string) \<Rightarrow> pyrecord list \<Rightarrow> py_error + (string \<rightharpoonup> string)" where
  "load_loop lookup [] = Inr lookup"
| "load_loop lookup (cat # cats) =
     (case get_default cat ''uacs_code'' (PStr []) of
        PStr uacs \<Rightarrow>
          load_loop (if length uacs = 8 then lookup(slice 2 8 uacs \<mapsto> uacs) else lookup) cats
      | _ \<Rightarrow> Inl TypeError)"

definition load_fund_categories :: "pyrecord list option \<Rightarrow> py_error + (string \<rightharpoonup> string)" where
  "load_fund_categories cat_file =
     (case cat_file of None \<Rightarrow> Inr Map.empty | Some categories \<Rightarrow> load_loop Map.empty categories)"

fun is_valid_value :: "pyval \<Rightarrow> bool" where
  "is_valid_value PNone = False"
| "is_valid_value (PStr s) = (strip s \<noteq> [])"
| "is_valid_value (PInt i) = True"

definition parse_organization_code :: "pyval \<Rightarrow> pyval \<Rightarrow> pyval \<Rightarrow> string option" where
  "parse_organization_code dept agency operunit =
     (if \<not> is_valid_value dept \<or> \<not> is_valid_value agency \<or> \<not> is_valid_value operunit then None
      else let dept_str = zfill 2 (strip (py_str dept));
               agency_str = zfill 3 (strip (py_str agency));
               operunit_str = zfill 7 (strip (py_str operunit));
               code = dept_str @ agency_str @ operunit_str
           in if code = ''000000000000'' then None else Some code)"

definition parse_region_code :: "pyval \<Rightarrow> string option" where
  "parse_region_code region =
     (if \<not> is_valid_value region then None
      else let region_str = zfill 2 (strip (py_str region))
           in if region_str = ''00'' then None else Some region_str)"

record funding_info =
  uacs_code :: string
  conversion_type :: string
  original_code :: "string option"

definition parse_funding_code :: "(string \<rightharpoonup> string) \<Rightarrow> pyval \<Rightarrow> funding_info option" where
  "parse_funding_code fund_category_lookup fundcd =
     (if \<not> is_valid_value fundcd then None
      else let fundcd_str = strip (py_str fundcd)
           in if length fundcd_str = 8 then
                (if fundcd_str = ''00000000'' then None
                 else Some \<lparr>uacs_code = fundcd_str, conversion_type = ''native'',
                            original_code = None\<rparr>)
              else if length fundcd_str = 6 \<and> fundcd_str \<in> dom fund_category_lookup then
                Some \<lparr>uacs_code = the (fund_category_lookup fundcd_str),
                      conversion_type = ''6-digit-lookup'',
                      original_code = Some fundcd_str\<rparr>
              else None)"

definition parse_object_code :: "pyrecord \<Rightarrow> string option" where
  "parse_object_code r =
     (let obj_cd = py_or (get r ''UACS_SOBJ_CD'') (get r ''UACS_OBJ_CD'')
      in if \<not> is_valid_value obj_cd then None
         else let obj_str = zfill 10 (strip (py_str obj_cd))
              in if obj_str = ''0000000000'' then None else Some obj_str)"

text \<open>
  \<open>clean_amount\<close>: Python's built-in \<open>float()\<close> is a parameter, \<open>None\<close> standing for the
  \<open>ValueError\<close> it raises on a string that is not a number; amounts are real numbers.
\<close>

definition clean_amount :: "(string \<Rightarrow> real option) \<Rightarrow> pyval \<Rightarrow> real" where
  "clean_amount to_float amount =
     (if amount = PNone \<or> amount = PStr [] then 0
      else (case to_float (filter (\<lambda>c. c \<noteq> CHR '','') (py_str amount)) of
              Some x \<Rightarrow> x
            | None \<Rightarrow> 0))"

definition safe_get :: "pyrecord \<Rightarrow> string \<Rightarrow> string \<Rightarrow> string" where
  "safe_get r k dflt =
     (case get_default r k (PStr dflt) of PNone \<Rightarrow> dflt | v \<Rightarrow> strip (py_str v))"

datatype outval = OStr string | OFloat real

definition convert_record ::
  "(string \<Rightarrow> real option) \<Rightarrow> (string \<rightharpoonup> string) \<Rightarrow> pyrecord \<Rightarrow> string \<Rightarrow> string \<Rightarrow> int
     \<Rightarrow> (string \<rightharpoonup> outval)" where
  "convert_record to_float fund_category_lookup r budget_type year record_number =
     (let org_code = parse_organization_code (get r ''DEPARTMENT'') (get r ''AGENCY'')
                       (get r ''OPERUNIT'');
          region_code = parse_region_code (get r ''UACS_REG_ID'');
          funding = parse_funding_code fund_category_lookup (get r ''FUNDCD'');
          object_info = parse_object_code r;
          prexc_id = zfill 15 (safe_get r ''PREXC_FPAP_ID'' ''000000000000000'');
          record_id = budget_type @ ''-'' @ year @ ''-'' @ zfill 10 (str_int record_number);
          result0 = [''id'' \<mapsto> OStr record_id,
                     ''budget_type'' \<mapsto> OStr budget_type,
                     ''fiscal_year'' \<mapsto> OStr year,
                     ''amount'' \<mapsto> OFloat (clean_amount to_float (get r ''AMT'')),
                     ''description'' \<mapsto> OStr (safe_get r ''DSC'' []),
                     ''prexc_fpap_id'' \<mapsto> OStr prexc_id];
          result1 = (case org_code of
                       Some c \<Rightarrow> if c \<noteq> [] then result0(''org_uacs_code'' \<mapsto> OStr c) else result0
                     | None \<Rightarrow> result0);
          result2 = (case region_code of
                       Some c \<Rightarrow> if c \<noteq> [] then result1(''region_code'' \<mapsto> OStr c) else result1
                     | None \<Rightarrow> result1);
          result3 = (case funding of
                       Some f \<Rightarrow> result2(''funding_uacs_code'' \<mapsto> OStr (uacs_code f),
                                          ''funding_conversion_type'' \<mapsto> OStr (conversion_type f))
                     | None \<Rightarrow> result2);
          result4 = (case object_info of
                       Some c \<Rightarrow> result3(''object_uacs_code'' \<mapsto> OStr c)
                     | None \<Rightarrow> result3)
      in result4)"

text \<open>
  The plain decimal literals that \<open>float()\<close> reads: an optional sign, digits and an
  optional fraction, with white space around them, valued as the number they denote. It
  stands for \<open>float()\<close> where a computation needs a concrete reader.
\<close>

definition is_digit :: "char \<Rightarrow> bool" where
  "is_digit c \<longleftrightarrow> c \<in> set ''0123456789''"

definition digit_value :: "char \<Rightarrow> nat" where
  "digit_value c = of_char c - 48"

definition digits_value :: "string \<Rightarrow> nat" where
  "digits_value ds = foldl (\<lambda>acc c. 10 * acc + digit_value c) 0 ds"

definition float_decimal :: "string \<Rightarrow> real option" where
  "float_decimal s =
     (let t = strip s;
          neg = (t \<noteq> [] \<and> hd t = CHR ''-'');
          u = (if t \<noteq> [] \<and> (hd t = CHR ''-'' \<or> hd t = CHR ''+'') then tl t else t);
          ip = takeWhile is_digit u;
          rest = dropWhile is_digit u;
          fp = (case rest of
                  [] \<Rightarrow> Some []
                | c # f \<Rightarrow> if c = CHR ''.'' \<and> list_all is_digit f then Some f else None)
      in case fp of
           None \<Rightarrow> None
         | Some f \<Rightarrow>
             if ip = [] \<and> f = [] then None
             else Some ((if neg then - 1 else 1) * real (digits_value (ip @ f)) / 10 ^ length f))"

text \<open>
  A record without \<open>UACS_REG_ID\<close> and without \<open>UACS_OBJ_CD\<close>: the region is left out, the
  other three codes are stored.
\<close>

definition code_fields_example :: pyrecord where
  "code_fields_example =
     [''DEPARTMENT'' \<mapsto> PStr ''7'', ''AGENCY'' \<mapsto> PStr ''1'', ''OPERUNIT'' \<mapsto> PStr ''1'',
      ''UACS_SOBJ_CD'' \<mapsto> PStr ''5020101000'', ''FUNDCD'' \<mapsto> PInt 101101]"

section \<open>Organization converter (scripts/uacs/organization/converter.py)\<close>

text \<open>
  One spreadsheet row of \<open>convert_agency\<close> and of \<open>convert_operating_unit\<close>. The cells are
  values of the row; the region code that \<open>convert_operating_unit\<close> extracts from the
  \<open>Region\<close> cell with a regular expression is passed in as \<open>region_code\<close>.
\<close>

definition convert_agency_row :: "pyval \<Rightarrow> pyval \<Rightarrow> pyval \<Rightarrow> pyval \<Rightarrow> (string \<rightharpoonup> string)" where
  "convert_agency_row uacs_cell name tag status =
     (let uacs = zfill 5 (strip (py_str uacs_cell));
          dept_code = slice 0 2 uacs;
          agency_code = slice 2 5 uacs
      in [''code'' \<mapsto> agency_code,
          ''description'' \<mapsto> strip (py_str name),
          ''department_code'' \<mapsto> dept_code,
          ''uacs_code'' \<mapsto> uacs,
          ''tag'' \<mapsto> strip (py_str tag),
          ''status'' \<mapsto> strip (py_str status)])"

definition convert_operating_unit_row ::
  "pyval \<Rightarrow> pyval \<Rightarrow> string \<Rightarrow> pyval \<Rightarrow> pyval \<Rightarrow> (string \<rightharpoonup> string)" where
  "convert_operating_unit_row uacs_cell name region_code tag status =
     (let uacs = zfill 12 (strip (py_str uacs_cell));
          dept_code = slice 0 2 uacs;
          agency_code = slice 2 5 uacs;
          class_code = slice 5 7 uacs;
          lower_ou_code = slice 7 12 uacs;
          ou_code = class_code @ lower_ou_code
      in [''code'' \<mapsto> ou_code,
          ''description'' \<mapsto> strip (py_str name),
          ''uacs_code'' \<mapsto> uacs,
          ''department_code'' \<mapsto> dept_code,
          ''agency_code'' \<mapsto> agency_code,
          ''class_code'' \<mapsto> class_code,
          ''lower_ou_code'' \<mapsto> lower_ou_code,
          ''region_code'' \<mapsto> region_code,
          ''tag'' \<mapsto> strip (py_str tag),
          ''status'' \<mapsto> strip (py_str status)])"

section \<open>PREXC converter (scripts/uacs/mfo-pap/converter.py)\<close>

text \<open>\<open>load_sector_outcomes\<close>: the table of sector and sub-sector outcome codes.\<close>

definition sector_outcomes :: "string \<rightharpoonup> (string \<rightharpoonup> string)" where
  "sector_outcomes = map_of
    [
     (''100'', [''type'' \<mapsto> ''Sector'', ''description'' \<mapsto> ''General public services'']),
     (''101'', [''type'' \<mapsto> ''Sub-Sector'', ''description'' \<mapsto> ''Executive and legislative organs, financial and fiscal affairs, external affairs'']),
     (''102'', [''type'' \<mapsto> ''Sub-Sector'', ''description'' \<mapsto> ''Foreign economic aid'']),
     (''103'', [''type'' \<mapsto> ''Sub-Sector'', ''description'' \<mapsto> ''General services'']),
     (''104'', [''type'' \<mapsto> ''Sub-Sector'', ''description'' \<mapsto> ''Basic research'']),
     (''105'', [''type'' \<mapsto> ''Sub-Sector'', ''description'' \<mapsto> ''R&D General public services'']),
     (''106'', [''type'' \<mapsto> ''Sub-Sector'', ''description'' \<mapsto> ''General public services n.e.c.'']),
     (''107'', [''type'' \<mapsto> ''Sub-Sector'', ''description'' \<mapsto> ''Public debt transactions'']),
     (''108'', [''type'' \<mapsto> ''Sub-Sector'', ''description'' \<mapsto> ''Transfers of a general character between different levels of government'']),
     (''109'', [''type'' \<mapsto> ''Sub-Sector'', ''description'' \<mapsto> ''Governance / Government Institutions and Regulatory Regime'']),
     (''120'', [''type'' \<mapsto> ''Sector'', ''description'' \<mapsto> ''Defense'']),
     (''121'', [''type'' \<mapsto> ''Sub-Sector'', ''description'' \<mapsto> ''Military Defense'']),
     (''122'', [''type'' \<mapsto> ''Sub-Sector'', ''description'' \<mapsto> ''Civil Defense'']),
     (''123'', [''type'' \<mapsto> ''Sub-Sector'', ''description'' \<mapsto> ''Foreign military aid'']),
     (''124'', [''type'' \<mapsto> ''Sub-Sector'', ''description'' \<mapsto> ''R&D Defense'']),
     (''125'', [''type'' \<mapsto> ''Sub-Sector'', ''description'' \<mapsto> ''Territorial integrity'']),
     (''126'', [''type'' \<mapsto> ''Sub-Sector'', ''description'' \<mapsto> ''Defense against cybercrimes'']),
     (''127'', [''type'' \<mapsto> ''Sub-Sector'', ''description'' \<mapsto> ''Defense n.e.c.'']),
     (''140'', [''type'' \<mapsto> ''Sector'', ''description'' \<mapsto> ''Public order and safety'']),
     (''141'', [''type'' \<mapsto> ''Sub-Sector'', ''description'' \<mapsto> ''Police services'']),
     (''142'', [''type'' \<mapsto> ''Sub-Sector'', ''description'' \<mapsto> ''Fire-protection services'']),
     (''143'', [''type'' \<mapsto> ''Sub-Sector'', ''description'' \<mapsto> ''Law courts'']),
     (''144'', [''type'' \<mapsto> ''Sub-Sector'', ''description'' \<mapsto> ''Prisons'']),
     (''145'', [''type'' \<mapsto> ''Sub-Sector'', ''description'' \<mapsto> ''R&D Public order and safety'']),
     (''146'', [''type'' \<mapsto> ''Sub-Sector'', ''description'' \<mapsto> ''Public order and safety n.e.c.'']),
     (''160'', [''type'' \<mapsto> ''Sector'', ''description'' \<mapsto> ''Economic affairs'']),
     (''161'', [''type'' \<mapsto> ''Sub-Sector'', ''description'' \<mapsto> ''General economic, commercial and labor affairs'']),
     (''162'', [''type'' \<mapsto> ''Sub-Sector'', ''description'' \<mapsto> ''Agriculture, forestry, fishing and hunting'']),
     (''163'', [''type'' \<mapsto> ''Sub-Sector'', ''description'' \<mapsto> ''Fuel and energy'']),
     (''164'', [''type'' \<mapsto> ''Sub-Sector'', ''description'' \<mapsto> ''Mining, manufacturing and construction'']),
     (''165'', [''type'' \<mapsto> ''Sub-Sector'', ''description'' \<mapsto> ''Transport'']),
     (''166'', [''type'' \<mapsto> ''Sub-Sector'', ''description'' \<mapsto> ''Communication'']),
     (''167'', [''type'' \<mapsto> ''Sub-Sector'', ''description'' \<mapsto> ''Other industries'']),
     (''168'', [''type'' \<mapsto> ''Sub-Sector'', ''description'' \<mapsto> ''R&D Economic affairs'']),
     (''169'', [''type'' \<mapsto> ''Sub-Sector'', ''description'' \<mapsto> ''Economic affairs n.e.c.'']),
     (''180'', [''type'' \<mapsto> ''Sector'', ''description'' \<mapsto> ''Environmental protection'']),
     (''181'', [''type'' \<mapsto> ''Sub-Sector'', ''description'' \<mapsto> ''Waste management'']),
     (''182'', [''type'' \<mapsto> ''Sub-Sector'', ''description'' \<mapsto> ''Waste water management'']),
     (''183'', [''type'' \<mapsto> ''Sub-Sector'', ''description'' \<mapsto> ''Pollution abatement'']),
     (''184'', [''type'' \<mapsto> ''Sub-Sector'', ''description'' \<mapsto> ''Protection of biodiversity and landscape'']),
     (''185'', [''type'' \<mapsto> ''Sub-Sector'', ''description'' \<mapsto> ''R&D Environmental protection'']),
     (''186'', [''type'' \<mapsto> ''Sub-Sector'', ''description'' \<mapsto> ''Environmental protection n.e.c.'']),
     (''200'', [''type'' \<mapsto> ''Sector'', ''description'' \<mapsto> ''Housing and community amenities'']),
     (''201'', [''type'' \<mapsto> ''Sub-Sector'', ''description'' \<mapsto> ''Housing development'']),
     (''202'', [''type'' \<mapsto> ''Sub-Sector'', ''description'' \<mapsto> ''Community development'']),
     (''203'', [''type'' \<mapsto> ''Sub-Sector'', ''description'' \<mapsto> ''Water supply'']),
     (''204'', [''type'' \<mapsto> ''Sub-Sector'', ''description'' \<mapsto> ''Street lighting'']),
     (''205'', [''type'' \<mapsto> ''Sub-Sector'', ''description'' \<mapsto> ''R&D Housing and community amenities'']),
     (''206'', [''type'' \<mapsto> ''Sub-Sector'', ''description'' \<mapsto> ''Housing and community amenities n.e.c.'']),
     (''220'', [''type'' \<mapsto> ''Sector'', ''description'' \<mapsto> ''Health'']),
     (''221'', [''type'' \<mapsto> ''Sub-Sector'', ''description'' \<mapsto> ''Medical products, appliances and equipment'']),
     (''222'', [''type'' \<mapsto> ''Sub-Sector'', ''description'' \<mapsto> ''Outpatient services'']),
     (''223'', [''type'' \<mapsto> ''Sub-Sector'', ''description'' \<mapsto> ''Hospital services'']),
     (''224'', [''type'' \<mapsto> ''Sub-Sector'', ''description'' \<mapsto> ''Public health services'']),
     (''225'', [''type'' \<mapsto> ''Sub-Sector'', ''description'' \<mapsto> ''R&D Health'']),
     (''226'', [''type'' \<mapsto> ''Sub-Sector'', ''description'' \<mapsto> ''Health insurance'']),
     (''227'', [''type'' \<mapsto> ''Sub-Sector'', ''description'' \<mapsto> ''Health n.e.c.'']),
     (''240'', [''type'' \<mapsto> ''Sector'', ''description'' \<mapsto> ''Recreation and culture'']),
     (''241'', [''type'' \<mapsto> ''Sub-Sector'', ''description'' \<mapsto> ''Recreational and sporting services'']),
     (''242'', [''type'' \<mapsto> ''Sub-Sector'', ''description'' \<mapsto> ''Cultural services'']),
     (''243'', [''type'' \<mapsto> ''Sub-Sector'', ''description'' \<mapsto> ''Broadcasting and publishing services'']),
     (''244'', [''type'' \<mapsto> ''Sub-Sector'', ''description'' \<mapsto> ''Other community services'']),
     (''245'', [''type'' \<mapsto> ''Sub-Sector'', ''description'' \<mapsto> ''R&D Recreation and, culture'']),
     (''246'', [''type'' \<mapsto> ''Sub-Sector'', ''description'' \<mapsto> ''Recreation and, culture n.e.c.'']),
     (''260'', [''type'' \<mapsto> ''Sector'', ''description'' \<mapsto> ''Education'']),
     (''261'', [''type'' \<mapsto> ''Sub-Sector'', ''description'' \<mapsto> ''Pre-primary and primary education'']),
     (''262'', [''type'' \<mapsto> ''Sub-Sector'', ''description'' \<mapsto> ''Secondary education'']),
     (''263'', [''type'' \<mapsto> ''Sub-Sector'', ''description'' \<mapsto> ''Post-secondary non-tertiary education'']),
     (''264'', [''type'' \<mapsto> ''Sub-Sector'', ''description'' \<mapsto> ''Tertiary education'']),
     (''265'', [''type'' \<mapsto> ''Sub-Sector'', ''description'' \<mapsto> ''Education not definable by level'']),
     (''266'', [''type'' \<mapsto> ''Sub-Sector'', ''description'' \<mapsto> ''Subsidiary services to education'']),
     (''267'', [''type'' \<mapsto> ''Sub-Sector'', ''description'' \<mapsto> ''R&D Education'']),
     (''268'', [''type'' \<mapsto> ''Sub-Sector'', ''description'' \<mapsto> ''School Buildings'']),
     (''269'', [''type'' \<mapsto> ''Sub-Sector'', ''description'' \<mapsto> ''Education n.e.c.'']),
     (''270'', [''type'' \<mapsto> ''Sub-Sector'', ''description'' \<mapsto> ''Pre-Primary, Primary, and Secondary Education'']),
     (''280'', [''type'' \<mapsto> ''Sector'', ''description'' \<mapsto> ''Social protection'']),
     (''281'', [''type'' \<mapsto> ''Sub-Sector'', ''description'' \<mapsto> ''Sickness and disability'']),
     (''282'', [''type'' \<mapsto> ''Sub-Sector'', ''description'' \<mapsto> ''Old age'']),
     (''283'', [''type'' \<mapsto> ''Sub-Sector'', ''description'' \<mapsto> ''Survivors'']),
     (''284'', [''type'' \<mapsto> ''Sub-Sector'', ''description'' \<mapsto> ''Family and children'']),
     (''285'', [''type'' \<mapsto> ''Sub-Sector'', ''description'' \<mapsto> ''Unemployment'']),
     (''286'', [''type'' \<mapsto> ''Sub-Sector'', ''description'' \<mapsto> ''Housing'']),
     (''287'', [''type'' \<mapsto> ''Sub-Sector'', ''description'' \<mapsto> ''Pantawid Pamilya Program or the Conditional Cash Transfer (CCT)'']),
     (''288'', [''type'' \<mapsto> ''Sub-Sector'', ''description'' \<mapsto> ''Social exclusion n.e.c'']),
     (''289'', [''type'' \<mapsto> ''Sub-Sector'', ''description'' \<mapsto> ''R&D Social protection'']),
     (''290'', [''type'' \<mapsto> ''Sub-Sector'', ''description'' \<mapsto> ''Local membership to insurance'']),
     (''291'', [''type'' \<mapsto> ''Sub-Sector'', ''description'' \<mapsto> ''Conflict-affected areas'']),
     (''292'', [''type'' \<mapsto> ''Sub-Sector'', ''description'' \<mapsto> ''Social protection n.e.c.''])
    ]"

text \<open>
  \<open>parse_prexc_code\<close>: the dictionary it returns has the nine keys below in every case,
  so it is a record here (\<open>identifier_digit\<close> is its key \<open>identifier\<close>).
\<close>

record prexc_parts =
  full_code :: string
  sector_horizontal :: string
  cost_structure :: string
  org_outcome :: string
  program :: string
  sub_program :: string
  identifier_digit :: string
  activity_project :: string
  reserved :: string

definition parse_prexc_code :: "pyval \<Rightarrow> prexc_parts" where
  "parse_prexc_code prexc_code =
     (let code = zfill 15 (py_str prexc_code)
      in \<lparr>full_code = code,
          sector_horizontal = slice 0 1 code,
          cost_structure = slice 1 2 code,
          org_outcome = slice 2 4 code,
          program = slice 4 6 code,
          sub_program = slice 6 8 code,
          identifier_digit = slice 8 9 code,
          activity_project = slice 9 14 code,
          reserved = slice 14 15 code\<rparr>)"

definition get_cost_structure_name :: "string \<Rightarrow> string" where
  "get_cost_structure_name code =
     (case map_of [(''1'', ''General Administration and Support (GAS)''),
                   (''2'', ''Support to Operations (STO)''),
                   (''3'', ''Operations''),
                   (''4'', ''Special Purpose Funds (SPF)'')] code of
        Some name \<Rightarrow> name
      | None \<Rightarrow> ''Unknown ('' @ code @ '')'')"

definition get_identifier_type :: "string \<Rightarrow> string" where
  "get_identifier_type code =
     (case map_of [(''1'', ''Activity''),
                   (''2'', ''Locally-Funded Project (LFP)''),
                   (''3'', ''Foreign-Assisted Project (FAP)'')] code of
        Some name \<Rightarrow> name
      | None \<Rightarrow> ''Unknown ('' @ code @ '')'')"

text \<open>
  A Python dictionary whose order matters is a list of key-value pairs in insertion
  order: \<open>d[k] = v\<close> replaces the value of a key in place and puts a new key last;
  \<open>list(d.values())\<close> reads the values in that order.
\<close>

definition has_key :: "('k \<times> 'v) list \<Rightarrow> 'k \<Rightarrow> bool" where
  "has_key d k \<longleftrightarrow> k \<in> set (map fst d)"

fun dict_set :: "'k \<Rightarrow> 'v \<Rightarrow> ('k \<times> 'v) list \<Rightarrow> ('k \<times> 'v) list" where
  "dict_set k v [] = [(k, v)]"
| "dict_set k v ((k', v') # d) = (if k = k' then (k, v) # d else (k', v') # dict_set k v d)"

definition dict_values :: "('k \<times> 'v) list \<Rightarrow> 'v list" where
  "dict_values d = map snd d"

type_synonym entity = "string \<rightharpoonup> pyval"

text \<open>The five dictionaries of \<open>convert_prexc_records\<close>, and one turn of its loop.\<close>

record prexc_state =
  sectors :: "(string \<times> entity) list"
  org_outcomes :: "(string \<times> entity) list"
  programs :: "(string \<times> entity) list"
  sub_programs :: "(string \<times> entity) list"
  activities :: "(string \<times> entity) list"

definition prexc_init :: prexc_state where
  "prexc_init = \<lparr>sectors = [], org_outcomes = [], programs = [], sub_programs = [],
                  activities = []\<rparr>"

definition prexc_step :: "prexc_state \<Rightarrow> pyrecord \<Rightarrow> prexc_state" where
  "prexc_step st r =
     (let prexc_id = zfill 15 (py_str (get_default r ''PREXC_FPAP_ID'' (PStr [])))
      in if prexc_id = [] \<or> prexc_id = ''000000000000000'' then st
         else
           let parsed = parse_prexc_code (PStr prexc_id);
               level = get_default r ''PREXC_LEVEL'' (PInt 0);
               description = get_default r ''DSC'' (PStr []);
               sector_code = sector_horizontal parsed;
               sectors1 =
                 (if \<not> has_key (sectors st) sector_code then
                    dict_set sector_code
                      [''code'' \<mapsto> PStr sector_code,
                       ''description'' \<mapsto> PStr
                          (case sector_outcomes (sector_code @ ''00'') of
                             None \<Rightarrow> ''Sector '' @ sector_code
                           | Some so \<Rightarrow>
                               (case so ''description'' of
                                  None \<Rightarrow> ''Sector '' @ sector_code
                                | Some d \<Rightarrow> d)),
                       ''type'' \<mapsto> PStr ''sector'']
                      (sectors st)
                  else sectors st);
               oo_code = org_outcome parsed;
               org_outcomes1 =
                 (if oo_code \<noteq> ''00'' \<and> \<not> has_key (org_outcomes st) oo_code then
                    dict_set oo_code
                      [''code'' \<mapsto> PStr oo_code,
                       ''description'' \<mapsto> PStr (''Organizational Outcome '' @ oo_code),
                       ''sector_code'' \<mapsto> PStr sector_code,
                       ''cost_structure'' \<mapsto>
                          PStr (get_cost_structure_name (cost_structure parsed))]
                      (org_outcomes st)
                  else org_outcomes st);
               prog_code = program parsed;
               prog_key = oo_code @ ''-'' @ prog_code;
               programs1 =
                 (if prog_code \<noteq> ''00'' \<and> \<not> has_key (programs st) prog_key then
                    dict_set prog_key
                      [''code'' \<mapsto> PStr prog_code,
                       ''full_code'' \<mapsto> PStr (slice 0 6 prexc_id),
                       ''description'' \<mapsto>
                          (if level = PInt 3 then description
                           else PStr (''Program '' @ prog_code)),
                       ''org_outcome_code'' \<mapsto> PStr oo_code,
                       ''sector_code'' \<mapsto> PStr sector_code]
                      (programs st)
                  else programs st);
               subprog_code = sub_program parsed;
               subprog_key = prog_key @ ''-'' @ subprog_code;
               sub_programs1 =
                 (if subprog_code \<noteq> ''00'' \<and> \<not> has_key (sub_programs st) subprog_key then
                    dict_set subprog_key
                      [''code'' \<mapsto> PStr subprog_code,
                       ''full_code'' \<mapsto> PStr (slice 0 8 prexc_id),
                       ''description'' \<mapsto>
                          (if level = PInt 4 then description
                           else PStr (''Sub-program '' @ subprog_code)),
                       ''program_code'' \<mapsto> PStr prog_code,
                       ''org_outcome_code'' \<mapsto> PStr oo_code]
                      (sub_programs st)
                  else sub_programs st);
               act_code = activity_project parsed;
               act_key = subprog_key @ ''-'' @ act_code;
               activities1 =
                 (if act_code \<noteq> ''00000'' \<and> \<not> has_key (activities st) act_key then
                    dict_set act_key
                      [''code'' \<mapsto> PStr act_code,
                       ''full_code'' \<mapsto> PStr (slice 0 14 prexc_id),
                       ''description'' \<mapsto> description,
                       ''prexc_id'' \<mapsto> PStr prexc_id,
                       ''level'' \<mapsto> level,
                       ''identifier_type'' \<mapsto> PStr (get_identifier_type (identifier_digit parsed)),
                       ''sub_program_code'' \<mapsto> PStr subprog_code,
                       ''program_code'' \<mapsto> PStr prog_code,
                       ''org_outcome_code'' \<mapsto> PStr oo_code,
                       ''sector_code'' \<mapsto> PStr sector_code]
                      (activities st)
                  else activities st)
           in \<lparr>sectors = sectors1, org_outcomes = org_outcomes1, programs = programs1,
               sub_programs = sub_programs1, activities = activities1\<rparr>)"

fun prexc_loop :: "prexc_state \<Rightarrow> pyrecord list \<Rightarrow> prexc_state" where
  "prexc_loop st [] = st"
| "prexc_loop st (r # nep_records) = prexc_loop (prexc_step st r) nep_records"

definition convert_prexc_records :: "pyrecord list \<Rightarrow> (string \<rightharpoonup> entity list)" where
  "convert_prexc_records nep_records =
     (let st = prexc_loop prexc_init nep_records
      in [''sectors'' \<mapsto> dict_values (sectors st),
          ''organizational_outcomes'' \<mapsto> dict_values (org_outcomes st),
          ''programs'' \<mapsto> dict_values (programs st),
          ''sub_programs'' \<mapsto> dict_values (sub_programs st),
          ''activities'' \<mapsto> dict_values (activities st)])"

text \<open>
  Two input records with the same PREXC code and different descriptions and levels, and
  the activity built from the first of them.
\<close>

definition prexc_first :: pyrecord where
  "prexc_first = [''PREXC_FPAP_ID'' \<mapsto> PStr ''310102031000040'', ''DSC'' \<mapsto> PStr ''First'',
                  ''PREXC_LEVEL'' \<mapsto> PInt 6]"

definition prexc_second :: pyrecord where
  "prexc_second = [''PREXC_FPAP_ID'' \<mapsto> PStr ''310102031000040'', ''DSC'' \<mapsto> PStr ''Second'',
                   ''PREXC_LEVEL'' \<mapsto> PInt 7]"

definition first_activity :: entity where
  "first_activity =
     [''code'' \<mapsto> PStr ''00004'', ''full_code'' \<mapsto> PStr ''31010203100004'',
      ''description'' \<mapsto> PStr ''First'', ''prexc_id'' \<mapsto> PStr ''310102031000040'',
      ''level'' \<mapsto> PInt 6, ''identifier_type'' \<mapsto> PStr ''Activity'',
      ''sub_program_code'' \<mapsto> PStr ''03'', ''program_code'' \<mapsto> PStr ''02'',
      ''org_outcome_code'' \<mapsto> PStr ''01'', ''sector_code'' \<mapsto> PStr ''3'']"

section \<open>Paginated fetcher (scripts/uacs/location/converter.py)\<close>

text \<open>
  The remote API is a function from a page number to the outcome of the request:
  an exception with its message, or the list under \<open>data\<close> of the decoded answer.
\<close>

datatype 'r page_result = PageError string | PageData "'r list"

text \<open>
  The files of the output directory, by name. A batch checkpoint holds
  \<open>batch_range\<close>, \<open>records_count\<close>, \<open>failed_pages\<close>, \<open>timestamp\<close> and \<open>data\<close>; the retry
  manifest holds \<open>failed_pages\<close>, \<open>total_failed\<close>, \<open>timestamp\<close> and \<open>retry_attempt\<close>, where
  \<open>None\<close> stands for a key the file does not have.
\<close>

datatype 'r file_content =
    Checkpoint string nat "int list" string "'r list"
  | Manifest "int list option" nat string "int option"

text \<open>
  The world of the fetcher: the files, the number of clock readings so far (the
  \<open>n\<close>-th reading of \<open>datetime.now().isoformat()\<close> is \<open>now n\<close>, for a parameter \<open>now\<close>), and
  the pages requested from the API so far, in the order of submission.
\<close>

record 'r world =
  files :: "string \<rightharpoonup> 'r file_content"
  ticks :: nat
  requested :: "int list"

text \<open>
  \<open>fetch_batch\<close>: the pages are submitted in order to the thread pool and their results
  are handled in the order of completion, \<open>as_completed pages\<close>, a parameter. A page with
  an error, or with no data, is a failed page.
\<close>

definition handle_result ::
  "(int \<Rightarrow> 'r page_result) \<Rightarrow> int \<Rightarrow> 'r list \<times> int list \<Rightarrow> 'r list \<times> int list" where
  "handle_result api page acc =
     (case acc of (records, failed) \<Rightarrow>
        (case api page of
           PageError e \<Rightarrow> (records, failed @ [page])
         | PageData d \<Rightarrow> if d \<noteq> [] then (records @ d, failed) else (records, failed @ [page])))"

text \<open>What \<open>handle_result\<close> makes of a page: failed or not, and the records it adds.\<close>

definition page_failed :: "(int \<Rightarrow> 'r page_result) \<Rightarrow> int \<Rightarrow> bool" where
  "page_failed api page = (case api page of PageError e \<Rightarrow> True | PageData d \<Rightarrow> d = [])"

definition page_records :: "(int \<Rightarrow> 'r page_result) \<Rightarrow> int \<Rightarrow> 'r list" where
  "page_records api page = (case api page of PageError e \<Rightarrow> [] | PageData d \<Rightarrow> d)"

definition fetch_batch ::
  "(int \<Rightarrow> 'r page_result) \<Rightarrow> (int list \<Rightarrow> int list) \<Rightarrow> int list \<Rightarrow> 'r world
     \<Rightarrow> ('r list \<times> int list) \<times> 'r world" where
  "fetch_batch api as_completed pages w =
     (fold (handle_result api) (as_completed pages) ([], []),
      w\<lparr>requested := requested w @ pages\<rparr>)"

text \<open>
  The loop of \<open>fetch_barangays_from_api\<close> over \<open>range(start_page, end_page + 1, batch_size)\<close>,
  from \<open>batch_start\<close> on. The pause between two batches changes nothing in the world.
\<close>

function fetch_batches ::
  "(int \<Rightarrow> 'r page_result) \<Rightarrow> (int list \<Rightarrow> int list) \<Rightarrow> (nat \<Rightarrow> string) \<Rightarrow> int \<Rightarrow> int \<Rightarrow> nat
     \<Rightarrow> 'r list \<times> int list \<times> 'r world \<Rightarrow> 'r list \<times> int list \<times> 'r world" where
  "fetch_batches api as_completed now batch_start end_page batch_size acc =
     (if batch_size = 0 \<or> end_page < batch_start then acc
      else
        (case acc of (all_barangays, all_failed_pages, w) \<Rightarrow>
           let batch_end = min (batch_start + int batch_size - 1) end_page;
               pages = [batch_start..batch_end];
               ((records, failed), w1) = fetch_batch api as_completed pages w;
               checkpoint_file = ''barangays_batch_'' @ str_int batch_start @ ''_''
                                   @ str_int batch_end @ ''.json'';
               batch_data = Checkpoint (str_int batch_start @ ''-'' @ str_int batch_end)
                              (length records) failed (now (ticks w1)) records;
               w2 = w1\<lparr>files := (files w1)(checkpoint_file \<mapsto> batch_data),
                       ticks := ticks w1 + 1\<rparr>
           in fetch_batches api as_completed now (batch_start + int batch_size) end_page batch_size
                (all_barangays @ records, all_failed_pages @ failed, w2)))"
  by pat_completeness auto
termination
  by (relation "measure (\<lambda>(api, as_completed, now, batch_start, end_page, batch_size, acc).
        nat (end_page + 1 - batch_start))") auto

declare fetch_batches.simps [simp del]

text \<open>
  \<open>fetch_barangays_from_api\<close>: the report printed before the loop divides by \<open>batch_size\<close>.
  The retry manifest is written only when a page has failed.
\<close>

definition fetch_barangays_from_api ::
  "(int \<Rightarrow> 'r page_result) \<Rightarrow> (int list \<Rightarrow> int list) \<Rightarrow> (nat \<Rightarrow> string) \<Rightarrow> int \<Rightarrow> int \<Rightarrow> nat
     \<Rightarrow> 'r world \<Rightarrow> py_error + 'r list \<times> 'r world" where
  "fetch_barangays_from_api api as_completed now start_page end_page batch_size w =
     (if batch_size = 0 then Inl ZeroDivisionError
      else
        (case fetch_batches api as_completed now start_page end_page batch_size ([], [], w) of
           (all_barangays, all_failed_pages, w1) \<Rightarrow>
             if all_failed_pages \<noteq> [] then
               Inr (all_barangays,
                    w1\<lparr>files := (files w1)(''failed_pages.json'' \<mapsto>
                          Manifest (Some (sort all_failed_pages)) (length all_failed_pages)
                            (now (ticks w1)) None),
                        ticks := ticks w1 + 1\<rparr>)
             else Inr (all_barangays, w1)))"

text \<open>
  \<open>retry_failed_pages\<close>. \<open>failed_data.get('failed_pages', [])\<close> and
  \<open>failed_data.get('retry_attempt', 0)\<close> read the file at the given path, whatever wrote it;
  without a path the manifest \<open>failed_pages.json\<close> of the output directory is taken.
\<close>

fun get_failed_pages :: "'r file_content \<Rightarrow> int list" where
  "get_failed_pages (Checkpoint batch_range records_count failed_pages stamp d) = failed_pages"
| "get_failed_pages (Manifest failed_pages total_failed stamp retry_attempt) =
     (case failed_pages of None \<Rightarrow> [] | Some ps \<Rightarrow> ps)"

fun get_retry_attempt :: "'r file_content \<Rightarrow> int" where
  "get_retry_attempt (Checkpoint batch_range records_count failed_pages stamp d) = 0"
| "get_retry_attempt (Manifest failed_pages total_failed stamp retry_attempt) =
     (case retry_attempt of None \<Rightarrow> 0 | Some n \<Rightarrow> n)"

definition retry_failed_pages ::
  "(int \<Rightarrow> 'r page_result) \<Rightarrow> (int list \<Rightarrow> int list) \<Rightarrow> (nat \<Rightarrow> string) \<Rightarrow> string option
     \<Rightarrow> 'r world \<Rightarrow> 'r list \<times> 'r world" where
  "retry_failed_pages api as_completed now failed_pages_file w =
     (let path = (case failed_pages_file of None \<Rightarrow> ''failed_pages.json'' | Some p \<Rightarrow> p)
      in case files w path of
           None \<Rightarrow> ([], w)
         | Some failed_data \<Rightarrow>
             let failed_pages = get_failed_pages failed_data
             in if failed_pages = [] then ([], w)
                else
                  let ((records, still_failed), w1) = fetch_batch api as_completed failed_pages w
                  in if still_failed \<noteq> [] then
                       (records,
                        w1\<lparr>files := (files w1)(path \<mapsto>
                              Manifest (Some (sort still_failed)) (length still_failed)
                                (now (ticks w1)) (Some (get_retry_attempt failed_data + 1))),
                            ticks := ticks w1 + 1\<rparr>)
                     else (records, w1\<lparr>files := (files w1)(path := None)\<rparr>))"

text \<open>
  An API on which page 7 fails and every other page \<open>p\<close> has the one record \<open>p\<close>, a clock,
  and a world with no file.
\<close>

definition example_api :: "int \<Rightarrow> int page_result" where
  "example_api p = (if p = 7 then PageError ''timeout'' else PageData [p])"

definition example_clock :: "nat \<Rightarrow> string" where
  "example_clock n = ''T'' @ str_nat n"

definition empty_world :: "int world" where
  "empty_world = \<lparr>files = Map.empty, ticks = 0, requested = []\<rparr>"

text \<open>A world whose only file is a retry manifest that lists the given pages.\<close>

definition manifest_world :: "int list \<Rightarrow> int option \<Rightarrow> int world" where
  "manifest_world pages attempt =
     \<lparr>files = [''failed_pages.json'' \<mapsto> Manifest (Some pages) (length pages) ''T0'' attempt],
      ticks = 1, requested = []\<rparr>"

section \<open>The graph store, as the queries of sync.py use it\<close>

text \<open>
  A node has a label and properties; an edge has a source, a type and a target, nodes being
  named by their position in the list of nodes. Property values are the JSON values of the
  entity files; a property is never stored with the value \<open>null\<close>.
\<close>

record node =
  label :: string
  props :: "string \<rightharpoonup> pyval"

record graph =
  nodes :: "node list"
  edges :: "(nat \<times> string \<times> nat) list"

datatype backend_error = NullMergeKey string

text \<open>
  \<open>SET n += node\<close>: every key of the map is written to the node; a \<open>null\<close> value removes
  the property.
\<close>

definition set_props :: "(string \<rightharpoonup> pyval) \<Rightarrow> entity \<Rightarrow> (string \<rightharpoonup> pyval)" where
  "set_props p m = (\<lambda>k. case m k of None \<Rightarrow> p k | Some PNone \<Rightarrow> None | Some v \<Rightarrow> Some v)"

text \<open>
  One row of \<open>UNWIND $nodes AS node MERGE (n:label {key: node.key}) SET n += node\<close>:
  the nodes with this label and this value of the key are matched, and one is created when
  there is none; then the row is written to every matched node. \<open>MERGE\<close> refuses a \<open>null\<close>
  key. The number returned is the number of matched nodes, which \<open>count(n)\<close> adds up.
\<close>

definition matches :: "string \<Rightarrow> string \<Rightarrow> pyval \<Rightarrow> node \<Rightarrow> bool" where
  "matches lbl unique_key v n \<longleftrightarrow> label n = lbl \<and> props n unique_key = Some v"

definition merge_row ::
  "string \<Rightarrow> string \<Rightarrow> entity \<Rightarrow> graph \<times> nat \<Rightarrow> backend_error + graph \<times> nat" where
  "merge_row lbl unique_key row acc =
     (case acc of (g, created) \<Rightarrow>
        (case row unique_key of
           None \<Rightarrow> Inl (NullMergeKey unique_key)
         | Some PNone \<Rightarrow> Inl (NullMergeKey unique_key)
         | Some v \<Rightarrow>
             if \<exists>n \<in> set (nodes g). matches lbl unique_key v n then
               Inr (g\<lparr>nodes := map (\<lambda>n. if matches lbl unique_key v n
                                         then n\<lparr>props := set_props (props n) row\<rparr> else n)
                                  (nodes g)\<rparr>,
                    created + length (filter (matches lbl unique_key v) (nodes g)))
             else
               Inr (g\<lparr>nodes := nodes g
                       @ [\<lparr>label = lbl, props = set_props [unique_key \<mapsto> v] row\<rparr>]\<rparr>,
                    created + 1)))"

fun merge_rows ::
  "string \<Rightarrow> string \<Rightarrow> entity list \<Rightarrow> graph \<times> nat \<Rightarrow> backend_error + graph \<times> nat" where
  "merge_rows lbl unique_key [] acc = Inr acc"
| "merge_rows lbl unique_key (row # rows) acc =
     (case merge_row lbl unique_key row acc of
        Inl e \<Rightarrow> Inl e
      | Inr acc' \<Rightarrow> merge_rows lbl unique_key rows acc')"

text \<open>
  \<open>batch_create_nodes\<close>, run in a write transaction: an error leaves the graph as it was.
\<close>

definition batch_create_nodes ::
  "graph \<Rightarrow> string \<Rightarrow> entity list \<Rightarrow> string \<Rightarrow> backend_error + graph \<times> nat" where
  "batch_create_nodes g lbl rows unique_key = merge_rows lbl unique_key rows (g, 0)"

text \<open>
  \<open>MERGE (a)-[:TYPE]->(b)\<close> for the pairs \<open>(a, b)\<close> that the \<open>MATCH\<close> clauses of a query
  deliver: an edge is created only where there is none of this type between the two nodes.
  The number is \<open>relationships_created\<close>.
\<close>

definition merge_edge :: "string \<Rightarrow> nat \<times> nat \<Rightarrow> graph \<times> nat \<Rightarrow> graph \<times> nat" where
  "merge_edge rel_type pair acc =
     (case acc of (g, created) \<Rightarrow>
        (case pair of (a, b) \<Rightarrow>
           if (a, rel_type, b) \<in> set (edges g) then (g, created)
           else (g\<lparr>edges := edges g @ [(a, rel_type, b)]\<rparr>, created + 1)))"

definition merge_edges :: "string \<Rightarrow> (nat \<times> nat) list \<Rightarrow> graph \<Rightarrow> graph \<times> nat" where
  "merge_edges rel_type pairs g = fold (merge_edge rel_type) pairs (g, 0)"

text \<open>
  The rows of \<open>MATCH (x:Label)\<close>: the positions of the nodes with the label. A property
  map \<open>{k: value}\<close> and a \<open>WHERE\<close> equation hold when both sides are not \<open>null\<close> and equal;
  \<open>+\<close> joins strings, also a string and a number, and adds numbers.
\<close>

definition labelled :: "node list \<Rightarrow> string \<Rightarrow> nat list" where
  "labelled ns lbl = filter (\<lambda>i. label (ns ! i) = lbl) [0..<length ns]"

definition node_prop :: "node list \<Rightarrow> nat \<Rightarrow> string \<Rightarrow> pyval option" where
  "node_prop ns i k = (case props (ns ! i) k of Some PNone \<Rightarrow> None | v \<Rightarrow> v)"

definition cy_eq :: "pyval option \<Rightarrow> pyval option \<Rightarrow> bool" where
  "cy_eq a b \<longleftrightarrow> a \<noteq> None \<and> a = b"

fun cy_add :: "pyval option \<Rightarrow> pyval option \<Rightarrow> pyval option" where
  "cy_add (Some (PStr a)) (Some (PStr b)) = Some (PStr (a @ b))"
| "cy_add (Some (PStr a)) (Some (PInt b)) = Some (PStr (a @ str_int b))"
| "cy_add (Some (PInt a)) (Some (PStr b)) = Some (PStr (str_int a @ b))"
| "cy_add (Some (PInt a)) (Some (PInt b)) = Some (PInt (a + b))"
| "cy_add a b = None"

text \<open>
  A relationship query: its \<open>MATCH\<close> part, from the nodes to the pairs to merge (a pair for
  every row), and the type of its edges. The four queries of \<open>sync_funding_source\<close>.
\<close>

record rel_query =
  rel_type :: string
  rel_match :: "node list \<Rightarrow> (nat \<times> nat) list"

definition run_rel_query :: "rel_query \<Rightarrow> graph \<Rightarrow> graph \<times> nat" where
  "run_rel_query q g = merge_edges (rel_type q) (rel_match q (nodes g)) g"

definition fund_cluster_financing_source :: rel_query where
  "fund_cluster_financing_source =
     \<lparr>rel_type = ''HAS_FINANCING_SOURCE'',
      rel_match = (\<lambda>ns.
        concat (map (\<lambda>fc.
          concat (map (\<lambda>fcat.
            map (\<lambda>fin. (fc, fin))
              (filter (\<lambda>fin. cy_eq (node_prop ns fin ''description'') (node_prop ns fcat ''financing_source''))
                 (labelled ns ''FinancingSource'')))
            (filter (\<lambda>fcat. cy_eq (node_prop ns fcat ''fund_cluster'') (node_prop ns fc ''description''))
               (labelled ns ''FundCategory''))))
          (labelled ns ''FundCluster'')))\<rparr>"

definition financing_source_authorization :: rel_query where
  "financing_source_authorization =
     \<lparr>rel_type = ''HAS_AUTHORIZATION'',
      rel_match = (\<lambda>ns.
        concat (map (\<lambda>fin.
          concat (map (\<lambda>fcat.
            map (\<lambda>auth. (fin, auth))
              (filter (\<lambda>auth. cy_eq (node_prop ns auth ''description'') (node_prop ns fcat ''authorization''))
                 (labelled ns ''Authorization'')))
            (filter (\<lambda>fcat. cy_eq (node_prop ns fcat ''financing_source'') (node_prop ns fin ''description''))
               (labelled ns ''FundCategory''))))
          (labelled ns ''FinancingSource'')))\<rparr>"

definition authorization_fund_category :: rel_query where
  "authorization_fund_category =
     \<lparr>rel_type = ''HAS_FUND_CATEGORY'',
      rel_match = (\<lambda>ns.
        concat (map (\<lambda>auth.
          map (\<lambda>fcat. (auth, fcat))
            (filter (\<lambda>fcat. cy_eq (node_prop ns fcat ''authorization'') (node_prop ns auth ''description''))
               (labelled ns ''FundCategory'')))
          (labelled ns ''Authorization'')))\<rparr>"

definition fund_category_funding_source :: rel_query where
  "fund_category_funding_source =
     \<lparr>rel_type = ''HAS_FUNDING_SOURCE'',
      rel_match = (\<lambda>ns.
        concat (map (\<lambda>fcat.
          map (\<lambda>fs. (fcat, fs))
            (filter (\<lambda>fs. cy_eq (node_prop ns fs ''uacs_code'') (node_prop ns fcat ''uacs_code''))
               (labelled ns ''FundingSource'')))
          (labelled ns ''FundCategory'')))\<rparr>"

text \<open>
  What an upsert makes of one node: \<open>upd_node\<close> writes a row to a node that it matches,
  \<open>fresh_node\<close> is the node that \<open>MERGE\<close> creates for a key value, and \<open>rows_map\<close> is the one
  map that a sequence of rows amounts to, later rows overwriting earlier ones.
\<close>

definition upd_node :: "string \<Rightarrow> string \<Rightarrow> entity \<Rightarrow> node \<Rightarrow> node" where
  "upd_node lbl unique_key row n =
     (case row unique_key of
        None \<Rightarrow> n
      | Some v \<Rightarrow> if matches lbl unique_key v n then n\<lparr>props := set_props (props n) row\<rparr> else n)"

definition fresh_node :: "string \<Rightarrow> string \<Rightarrow> pyval \<Rightarrow> node" where
  "fresh_node lbl unique_key v = \<lparr>label = lbl, props = [unique_key \<mapsto> v]\<rparr>"

fun rows_map :: "entity list \<Rightarrow> entity" where
  "rows_map [] = Map.empty"
| "rows_map (row # rows) = row ++ rows_map rows"

definition valid_row :: "string \<Rightarrow> entity \<Rightarrow> bool" where
  "valid_row unique_key row \<longleftrightarrow> row unique_key \<noteq> None \<and> row unique_key \<noteq> Some PNone"

text \<open>
  Example inputs: two rows for the same fund cluster, and a graph with a fund category
  and its funding source.
\<close>

definition example_rows :: "entity list" where
  "example_rows =
     [[''code'' \<mapsto> PStr ''01'', ''description'' \<mapsto> PStr ''Regular''],
      [''code'' \<mapsto> PStr ''01'', ''description'' \<mapsto> PStr ''Regular Agency Fund'']]"

definition empty_graph :: graph where
  "empty_graph = \<lparr>nodes = [], edges = []\<rparr>"

definition funding_graph :: graph where
  "funding_graph =
     \<lparr>nodes = [\<lparr>label = ''FundCategory'', props = [''uacs_code'' \<mapsto> PStr ''01101101'']\<rparr>,
               \<lparr>label = ''FundingSource'', props = [''uacs_code'' \<mapsto> PStr ''01101101'']\<rparr>],
      edges = []\<rparr>"

definition fund_cluster_graph :: graph where
  "fund_cluster_graph =
     \<lparr>nodes = [\<lparr>label = ''FundCluster'',
                props = [''code'' \<mapsto> PStr ''01'',
                         ''description'' \<mapsto> PStr ''Regular Agency Fund'']\<rparr>],
      edges = []\<rparr>"

section \<open>Relationship derivation in pages\<close>

text \<open>
  A paged query \<open>MATCH \<dots> WITH \<dots> SKIP $offset LIMIT $batch [MATCH \<dots>] MERGE (a)-[:TYPE]->(b)
  RETURN count(*)\<close>: \<open>pq_rows\<close> are the rows before \<open>SKIP\<close> and \<open>LIMIT\<close>, in the order in which the
  store delivers them, and \<open>pq_pairs\<close> are the pairs that the remaining clauses make of one
  row of the window. \<open>count(*)\<close> counts the rows after \<open>MERGE\<close>: one for every pair, or as
  many as there are edges of the type between the two nodes already.
\<close>

record 'r paged_query =
  pq_type :: string
  pq_rows :: "node list \<Rightarrow> 'r list"
  pq_pairs :: "node list \<Rightarrow> 'r \<Rightarrow> (nat \<times> nat) list"

definition page_pairs :: "'r paged_query \<Rightarrow> nat \<Rightarrow> nat \<Rightarrow> graph \<Rightarrow> (nat \<times> nat) list" where
  "page_pairs q offset batch g =
     concat (map (pq_pairs q (nodes g)) (take batch (drop offset (pq_rows q (nodes g)))))"

definition count_star :: "string \<Rightarrow> (nat \<times> nat) list \<Rightarrow> graph \<Rightarrow> nat" where
  "count_star t pairs g =
     sum_list (map (\<lambda>(a, b). max 1 (count_list (edges g) (a, t, b))) pairs)"

text \<open>One page: the graph after it, the value of \<open>count(*)\<close>, and the number of new edges.\<close>

definition run_page :: "'r paged_query \<Rightarrow> nat \<Rightarrow> nat \<Rightarrow> graph \<Rightarrow> graph \<times> nat \<times> nat" where
  "run_page q offset batch g =
     (let pairs = page_pairs q offset batch g;
          (g1, new_edges) = merge_edges (pq_type q) pairs g
      in (g1, count_star (pq_type q) pairs g, new_edges))"

lemma nodes_fold_merge_edge: "nodes (fst (fold (merge_edge t) ps (g, c))) = nodes g"
proof (induction ps arbitrary: g c)
  case Nil
  show ?case by simp
next
  case (Cons p ps)
  obtain a b where p: "p = (a, b)" by (cases p)
  show ?case
  proof (cases "(a, t, b) \<in> set (edges g)")
    case True
    then have "merge_edge t p (g, c) = (g, c)" by (simp add: merge_edge_def p)
    then show ?thesis by (simp add: Cons.IH)
  next
    case False
    then have "merge_edge t p (g, c) = (g\<lparr>edges := edges g @ [(a, t, b)]\<rparr>, c + 1)"
      by (simp add: merge_edge_def p)
    then show ?thesis by (simp add: Cons.IH)
  qed
qed

lemma nodes_run_page: "nodes (fst (run_page q offset batch g)) = nodes g"
  using nodes_fold_merge_edge [of "pq_type q" "page_pairs q offset batch g" g 0]
  by (auto simp add: run_page_def merge_edges_def Let_def split: prod.splits)

lemma count_star_0: "count_star t pairs g = 0 \<longleftrightarrow> pairs = []"
proof (cases pairs)
  case Nil
  then show ?thesis by (simp add: count_star_def)
next
  case (Cons p ps)
  obtain a b where "p = (a, b)" by (cases p)
  with Cons show ?thesis by (simp add: count_star_def)
qed

lemma run_page_rows:
  assumes "fst (snd (run_page q offset batch g)) \<noteq> 0"
  shows "offset < length (pq_rows q (nodes g)) \<and> batch \<noteq> 0"
proof (rule ccontr)
  assume "\<not> (offset < length (pq_rows q (nodes g)) \<and> batch \<noteq> 0)"
  then have "page_pairs q offset batch g = []" by (auto simp add: page_pairs_def)
  with assms show False
    by (simp add: run_page_def Let_def count_star_def split: prod.splits)
qed

text \<open>
  The loop \<open>while True: \<dots> total_count += count; if count == 0: break; offset += batch\<close>.
  It keeps a record of its pages: the offset, the value of \<open>count(*)\<close> and the number of new
  edges of each. The store is taken to deliver the rows of a query in the same order on
  every page, which the queries, having no \<open>ORDER BY\<close>, rely on as well.
\<close>

function paged_loop ::
  "'r paged_query \<Rightarrow> nat \<Rightarrow> nat \<Rightarrow> nat \<Rightarrow> (nat \<times> nat \<times> nat) list \<Rightarrow> graph
     \<Rightarrow> nat \<times> (nat \<times> nat \<times> nat) list \<times> graph" where
  "paged_loop q batch offset total_count pages g =
     (case run_page q offset batch g of
        (g1, created, new_edges) \<Rightarrow>
          if created = 0
          then (total_count + created, pages @ [(offset, created, new_edges)], g1)
          else paged_loop q batch (offset + batch) (total_count + created)
                 (pages @ [(offset, created, new_edges)]) g1)"
  by pat_completeness auto
termination
proof (relation "measure (\<lambda>(q, batch, offset, total_count, pages, g).
         length (pq_rows q (nodes g)) - offset)")
  show "wf (measure (\<lambda>(q, batch, offset, total_count, pages, g).
         length (pq_rows q (nodes g)) - offset))"
    by simp
next
  fix q :: "'r paged_query" and batch offset total_count :: nat
    and pages :: "(nat \<times> nat \<times> nat) list" and g g1 :: graph and y :: "nat \<times> nat"
    and created new_edges :: nat
  assume run: "(g1, y) = run_page q offset batch g" and y: "(created, new_edges) = y"
    and c: "created \<noteq> 0"
  from run y have "fst (snd (run_page q offset batch g)) = created"
    by (metis fst_conv snd_conv)
  with c have "offset < length (pq_rows q (nodes g)) \<and> batch \<noteq> 0"
    using run_page_rows [of q offset batch g] by simp
  moreover from run have "nodes g1 = nodes g"
    using nodes_run_page [of q offset batch g] by (metis fst_conv)
  ultimately show "((q, batch, offset + batch, total_count + created,
        pages @ [(offset, created, new_edges)], g1), (q, batch, offset, total_count, pages, g))
      \<in> measure (\<lambda>(q, batch, offset, total_count, pages, g).
            length (pq_rows q (nodes g)) - offset)"
    by (simp add: diff_less_mono2)
qed

declare paged_loop.simps [simp del]

text \<open>The five paged queries of \<open>sync_location\<close> and \<open>sync_budget_year\<close>.\<close>

definition city_barangay :: "(nat \<times> nat) paged_query" where
  "city_barangay =
     \<lparr>pq_type = ''HAS_BARANGAY'',
      pq_rows = (\<lambda>ns. [(c, b). c \<leftarrow> labelled ns ''CityMunicipality'',
                               b \<leftarrow> labelled ns ''Barangay'',
                               cy_eq (node_prop ns c ''psgc_code'')
                                 (cy_add (cy_add (node_prop ns b ''region_code'')
                                            (node_prop ns b ''province_code''))
                                    (node_prop ns b ''city_code''))]),
      pq_pairs = (\<lambda>ns r. [r])\<rparr>"

definition budget_rows :: "pyval \<Rightarrow> pyval \<Rightarrow> string \<Rightarrow> node list \<Rightarrow> nat list" where
  "budget_rows year budget_type k ns =
     [br. br \<leftarrow> labelled ns ''BudgetRecord'',
          cy_eq (node_prop ns br ''fiscal_year'') (Some year),
          cy_eq (node_prop ns br ''budget_type'') (Some budget_type),
          node_prop ns br k \<noteq> None]"

definition budget_pairs :: "string \<Rightarrow> string \<Rightarrow> string \<Rightarrow> node list \<Rightarrow> nat \<Rightarrow> (nat \<times> nat) list" where
  "budget_pairs lbl target_key k ns br =
     [(br, t). t \<leftarrow> labelled ns lbl, cy_eq (node_prop ns t target_key) (node_prop ns br k)]"

definition budget_funding_source :: "pyval \<Rightarrow> pyval \<Rightarrow> nat paged_query" where
  "budget_funding_source year budget_type =
     \<lparr>pq_type = ''FUNDED_BY'',
      pq_rows = budget_rows year budget_type ''funding_uacs_code'',
      pq_pairs = budget_pairs ''FundingSource'' ''uacs_code'' ''funding_uacs_code''\<rparr>"




definition barangay_relationships :: "graph \<Rightarrow> nat \<times> (nat \<times> nat \<times> nat) list \<times> graph" where
  "barangay_relationships g = paged_loop city_barangay 50000 0 0 [] g"

definition budget_relationships ::
  "nat paged_query \<Rightarrow> graph \<Rightarrow> nat \<times> (nat \<times> nat \<times> nat) list \<times> graph" where
  "budget_relationships q g = paged_loop q 10000 0 0 [] g"

text \<open>
  An example: a city with two barangays, before and after their edges are derived.
\<close>

definition barangay_graph :: graph where
  "barangay_graph =
     \<lparr>nodes = [\<lparr>label = ''CityMunicipality'', props = [''psgc_code'' \<mapsto> PStr ''012801'']\<rparr>,
               \<lparr>label = ''Barangay'',
                props = [''region_code'' \<mapsto> PStr ''01'', ''province_code'' \<mapsto> PStr ''28'',
                         ''city_code'' \<mapsto> PStr ''01'', ''psgc_code'' \<mapsto> PStr ''012801001'']\<rparr>,
               \<lparr>label = ''Barangay'',
                props = [''region_code'' \<mapsto> PStr ''01'', ''province_code'' \<mapsto> PStr ''28'',
                         ''city_code'' \<mapsto> PStr ''01'', ''psgc_code'' \<mapsto> PStr ''012801002'']\<rparr>],
      edges = []\<rparr>"

definition linked_graph :: graph where
  "linked_graph = barangay_graph\<lparr>edges := [(0, ''HAS_BARANGAY'', 1), (0, ''HAS_BARANGAY'', 2)]\<rparr>"

text \<open>
  Two budget records of GAA 2025 and a funding source; the first record's funding code is
  the code of no funding source.
\<close>

definition budget_graph :: graph where
  "budget_graph =
     \<lparr>nodes = [\<lparr>label = ''BudgetRecord'',
                props = [''id'' \<mapsto> PStr ''GAA-2025-0000000001'', ''fiscal_year'' \<mapsto> PStr ''2025'',
                         ''budget_type'' \<mapsto> PStr ''GAA'',
                         ''funding_uacs_code'' \<mapsto> PStr ''09999999'']\<rparr>,
               \<lparr>label = ''BudgetRecord'',
                props = [''id'' \<mapsto> PStr ''GAA-2025-0000000002'', ''fiscal_year'' \<mapsto> PStr ''2025'',
                         ''budget_type'' \<mapsto> PStr ''GAA'',
                         ''funding_uacs_code'' \<mapsto> PStr ''01101101'']\<rparr>,
               \<lparr>label = ''FundingSource'', props = [''uacs_code'' \<mapsto> PStr ''01101101'']\<rparr>],
      edges = []\<rparr>"

section \<open>The other relationship queries of sync.py\<close>










section \<open>The run of sync.py\<close>

text \<open>
  The state of a run: the graph in the store, the lines printed, and the calls made to the
  store so far, each with the message of the error it raised, if it raised one. Of the
  printed lines the model keeps those that report a result, a warning or an error; banners
  and progress lines are left out, and the arrow of the descriptions is written \<open>->\<close>.
\<close>

datatype call_kind = Constraint string | Upsert string | Derive string | Page string

datatype log_entry =
    Succeeded string nat
  | Failed string string
  | Warning string
  | Info string
  | Fatal string
  | Complete

record sync_state =
  db :: graph
  printed :: "log_entry list"
  history :: "(call_kind \<times> string option) list"

type_synonym step = "sync_state \<Rightarrow> (string \<times> sync_state) + sync_state"











































section \<open>Properties of the string built-ins\<close>

lemma length_zfill: "length (zfill w s) = max w (length s)"
  by (auto simp: zfill_def split: list.splits)

lemma slice_append: "a \<le> b \<Longrightarrow> b \<le> c \<Longrightarrow> slice a b s @ slice b c s = slice a c s"
proof -
  assume ab: "a \<le> b" and bc: "b \<le> c"
  have "take (b - a) (drop a s) @ take (c - b) (drop (b - a) (drop a s))
          = take ((b - a) + (c - b)) (drop a s)"
    by (simp only: take_add)
  with ab bc show ?thesis by (simp add: slice_def)
qed

lemma slice_all: "length s \<le> b \<Longrightarrow> slice 0 b s = s"
  by (simp add: slice_def)

lemma length_slice: "b \<le> length s \<Longrightarrow> length (slice a b s) = b - a"
  by (simp add: slice_def)



lemma all_same_replicate: "set s \<subseteq> {c} \<Longrightarrow> s = replicate (length s) c"
  by (induction s) auto

lemma replicate_numeral_unfold: "replicate (numeral k) x = x # replicate (pred_numeral k) x"
  by (simp add: numeral_eq_Suc)

lemmas py_eval = strip_def is_space_def zfill_def slice_def str_int_def str_nat.simps
  digit_char_def zeros_def replicate_numeral_unfold

text \<open>
  Padding gives the all-zero code of width \<open>w\<close> exactly for the strings of at most \<open>w\<close>
  characters that consist of zeros only.
\<close>

lemma zfill_zeros_iff:
  "zfill w s = zeros w \<longleftrightarrow> length s \<le> w \<and> set s \<subseteq> {CHR ''0''}"
proof (cases "w \<le> length s")
  case True
  then show ?thesis
    by (auto simp: zfill_def zeros_def dest: arg_cong [where f = length] all_same_replicate)
next
  case False
  show ?thesis
  proof (cases s)
    case Nil
    then show ?thesis by (simp add: zfill_def zeros_def)
  next
    case (Cons c r)
    have rep: "replicate (w - length s) CHR ''0'' @ s = replicate w CHR ''0''
                 \<longleftrightarrow> set s \<subseteq> {CHR ''0''}"
    proof
      assume "replicate (w - length s) CHR ''0'' @ s = replicate w CHR ''0''"
      then have "set (replicate (w - length s) CHR ''0'' @ s) = set (replicate w CHR ''0'')"
        by simp
      then show "set s \<subseteq> {CHR ''0''}" by (auto split: if_splits)
    next
      assume "set s \<subseteq> {CHR ''0''}"
      then have "s = replicate (length s) CHR ''0''"
        by (rule all_same_replicate)
      then have "replicate (w - length s) CHR ''0'' @ s
                   = replicate (w - length s + length s) CHR ''0''"
        by (metis replicate_add)
      with False show "replicate (w - length s) CHR ''0'' @ s = replicate w CHR ''0''" by simp
    qed
    show ?thesis
    proof (cases "c = CHR ''+'' \<or> c = CHR ''-''")
      case True
      with Cons False have "zfill w s = c # replicate (w - length s) CHR ''0'' @ r"
        by (simp add: zfill_def)
      moreover from False obtain w' where "w = Suc w'" by (cases w) auto
      ultimately show ?thesis using True Cons by (auto simp: zeros_def)
    next
      case nosign: False
      with Cons False have "zfill w s = replicate (w - length s) CHR ''0'' @ s"
        by (simp add: zfill_def)
      with rep False show ?thesis by (simp add: zeros_def)
    qed
  qed
qed
section \<open>Conversion of a budget record\<close>

text \<open>
  C7. With \<open>float("1500.00") = 1500.0\<close>, the record
  \<open>{"AMT": "1,500.00", "DEPARTMENT": "7", "AGENCY": "1", "OPERUNIT": "1", "FUNDCD": "01101101"}\<close>
  converts to amount 1500.0, organization code \<open>"070010000001"\<close> and funding code
  \<open>"01101101"\<close> of conversion type \<open>"native"\<close>, whatever the fund-category lookup, budget
  type, year and record number. Commas in an amount do not change the result, and an amount
  that is \<open>None\<close>, empty or rejected by \<open>float()\<close> gives 0.0; \<open>clean_amount\<close> raises nothing.
\<close>

theorem convert_record_example:
  assumes "to_float ''1500.00'' = Some 1500"
  shows "convert_record to_float lookup
           [''AMT'' \<mapsto> PStr ''1,500.00'', ''DEPARTMENT'' \<mapsto> PStr ''7'', ''AGENCY'' \<mapsto> PStr ''1'',
            ''OPERUNIT'' \<mapsto> PStr ''1'', ''FUNDCD'' \<mapsto> PStr ''01101101'']
           budget_type year n ''amount'' = Some (OFloat 1500)
       \<and> convert_record to_float lookup
           [''AMT'' \<mapsto> PStr ''1,500.00'', ''DEPARTMENT'' \<mapsto> PStr ''7'', ''AGENCY'' \<mapsto> PStr ''1'',
            ''OPERUNIT'' \<mapsto> PStr ''1'', ''FUNDCD'' \<mapsto> PStr ''01101101'']
           budget_type year n ''org_uacs_code'' = Some (OStr ''070010000001'')
       \<and> convert_record to_float lookup
           [''AMT'' \<mapsto> PStr ''1,500.00'', ''DEPARTMENT'' \<mapsto> PStr ''7'', ''AGENCY'' \<mapsto> PStr ''1'',
            ''OPERUNIT'' \<mapsto> PStr ''1'', ''FUNDCD'' \<mapsto> PStr ''01101101'']
           budget_type year n ''funding_uacs_code'' = Some (OStr ''01101101'')
       \<and> convert_record to_float lookup
           [''AMT'' \<mapsto> PStr ''1,500.00'', ''DEPARTMENT'' \<mapsto> PStr ''7'', ''AGENCY'' \<mapsto> PStr ''1'',
            ''OPERUNIT'' \<mapsto> PStr ''1'', ''FUNDCD'' \<mapsto> PStr ''01101101'']
           budget_type year n ''funding_conversion_type'' = Some (OStr ''native'')
       \<and> (\<forall>a b. a @ b \<noteq> [] \<longrightarrow>
             clean_amount to_float (PStr (a @ '','' @ b)) = clean_amount to_float (PStr (a @ b)))
       \<and> (\<forall>amount. amount = PNone \<or> amount = PStr []
               \<or> to_float (filter (\<lambda>c. c \<noteq> CHR '','') (py_str amount)) = None
             \<longrightarrow> clean_amount to_float amount = 0)"
proof -
  let ?r = "[''AMT'' \<mapsto> PStr ''1,500.00'', ''DEPARTMENT'' \<mapsto> PStr ''7'', ''AGENCY'' \<mapsto> PStr ''1'',
            ''OPERUNIT'' \<mapsto> PStr ''1'', ''FUNDCD'' \<mapsto> PStr ''01101101'']"
  have org: "parse_organization_code (get ?r ''DEPARTMENT'') (get ?r ''AGENCY'') (get ?r ''OPERUNIT'')
               = Some ''070010000001''"
    by (simp add: get_def parse_organization_code_def py_eval)
  have reg: "parse_region_code (get ?r ''UACS_REG_ID'') = None"
    by (simp add: get_def parse_region_code_def)
  have fund: "parse_funding_code lookup (get ?r ''FUNDCD'')
                = Some \<lparr>uacs_code = ''01101101'', conversion_type = ''native'', original_code = None\<rparr>"
    by (simp add: get_def parse_funding_code_def py_eval)
  have obj: "parse_object_code ?r = None"
    by (simp add: get_def parse_object_code_def py_or_def)
  have amt: "clean_amount to_float (get ?r ''AMT'') = 1500"
    using assms by (simp add: get_def clean_amount_def)
  have c1: "convert_record to_float lookup ?r budget_type year n ''amount'' = Some (OFloat 1500)"
    by (simp add: convert_record_def org reg fund obj amt)
  have c2: "convert_record to_float lookup ?r budget_type year n ''org_uacs_code''
              = Some (OStr ''070010000001'')"
    by (simp add: convert_record_def org reg fund obj)
  have c3: "convert_record to_float lookup ?r budget_type year n ''funding_uacs_code''
              = Some (OStr ''01101101'')"
    by (simp add: convert_record_def org reg fund obj)
  have c4: "convert_record to_float lookup ?r budget_type year n ''funding_conversion_type''
              = Some (OStr ''native'')"
    by (simp add: convert_record_def org reg fund obj)
  have c5: "\<forall>a b. a @ b \<noteq> [] \<longrightarrow>
             clean_amount to_float (PStr (a @ '','' @ b)) = clean_amount to_float (PStr (a @ b))"
    by (simp add: clean_amount_def)
  have c6: "\<forall>amount. amount = PNone \<or> amount = PStr []
               \<or> to_float (filter (\<lambda>c. c \<noteq> CHR '','') (py_str amount)) = None
             \<longrightarrow> clean_amount to_float amount = 0"
    by (auto simp: clean_amount_def)
  from c1 c2 c3 c4 c5 c6 show ?thesis by blast
qed

theorem convert_record_example_witness:
  "float_decimal ''1500.00'' = Some 1500
   \<and> convert_record float_decimal Map.empty
        [''AMT'' \<mapsto> PStr ''1,500.00'', ''DEPARTMENT'' \<mapsto> PStr ''7'', ''AGENCY'' \<mapsto> PStr ''1'',
         ''OPERUNIT'' \<mapsto> PStr ''1'', ''FUNDCD'' \<mapsto> PStr ''01101101'']
        ''GAA'' ''2024'' 1 ''amount'' = Some (OFloat 1500)
   \<and> clean_amount float_decimal (PStr ''abc'') = 0"
proof -
  have h: "float_decimal ''1500.00'' = Some 1500"
    by (simp add: float_decimal_def py_eval is_digit_def digits_value_def digit_value_def)
  have n: "float_decimal (filter (\<lambda>c. c \<noteq> CHR '','') (py_str (PStr ''abc''))) = None"
    by (simp add: float_decimal_def py_eval is_digit_def)
  note ex = convert_record_example [where to_float = float_decimal and lookup = Map.empty
      and budget_type = "''GAA''" and year = "''2024''" and n = 1, OF h]
  from ex have a: "convert_record float_decimal Map.empty
        [''AMT'' \<mapsto> PStr ''1,500.00'', ''DEPARTMENT'' \<mapsto> PStr ''7'', ''AGENCY'' \<mapsto> PStr ''1'',
         ''OPERUNIT'' \<mapsto> PStr ''1'', ''FUNDCD'' \<mapsto> PStr ''01101101'']
        ''GAA'' ''2024'' 1 ''amount'' = Some (OFloat 1500)"
    by (elim conjE)
  from ex have "\<forall>amount. amount = PNone \<or> amount = PStr []
               \<or> float_decimal (filter (\<lambda>c. c \<noteq> CHR '','') (py_str amount)) = None
             \<longrightarrow> clean_amount float_decimal amount = 0"
    by (elim conjE)
  with n have b: "clean_amount float_decimal (PStr ''abc'') = 0" by blast
  from h a b show ?thesis by blast
qed

section \<open>Segmentation of padded codes\<close>

text \<open>
  C8. A code of at most the declared width, padded to that width, is cut by the converters
  into segments of the declared lengths whose concatenation is the padded code again: the
  12-digit organization code is department (2), agency (3), class (2) and lower operating
  unit (5); the 5-digit agency code and the 15-digit PREXC code are cut likewise. Building
  an organization code from its components pads each to its width:
  \<open>parse_organization_code("27", "001", "00001")\<close> is \<open>"270010000001"\<close>, and a \<open>None\<close>
  component gives no code.
\<close>

theorem segmentation_roundtrip:
  assumes "length (strip (py_str v)) \<le> 12"
    and "length (strip (py_str a)) \<le> 5"
    and "length (py_str p) \<le> 15"
  shows "(\<exists>dept agency cls lower_ou.
            convert_operating_unit_row v name region tag status ''uacs_code''
              = Some (zfill 12 (strip (py_str v)))
          \<and> convert_operating_unit_row v name region tag status ''department_code'' = Some dept
          \<and> convert_operating_unit_row v name region tag status ''agency_code'' = Some agency
          \<and> convert_operating_unit_row v name region tag status ''class_code'' = Some cls
          \<and> convert_operating_unit_row v name region tag status ''lower_ou_code'' = Some lower_ou
          \<and> convert_operating_unit_row v name region tag status ''code'' = Some (cls @ lower_ou)
          \<and> length dept = 2 \<and> length agency = 3 \<and> length cls = 2 \<and> length lower_ou = 5
          \<and> dept @ agency @ cls @ lower_ou = zfill 12 (strip (py_str v)))
       \<and> (\<exists>dept agency.
            convert_agency_row a name tag status ''uacs_code'' = Some (zfill 5 (strip (py_str a)))
          \<and> convert_agency_row a name tag status ''department_code'' = Some dept
          \<and> convert_agency_row a name tag status ''code'' = Some agency
          \<and> length dept = 2 \<and> length agency = 3
          \<and> dept @ agency = zfill 5 (strip (py_str a)))
       \<and> (full_code (parse_prexc_code p) = zfill 15 (py_str p)
          \<and> map length [sector_horizontal (parse_prexc_code p), cost_structure (parse_prexc_code p),
                org_outcome (parse_prexc_code p), program (parse_prexc_code p),
                sub_program (parse_prexc_code p), identifier_digit (parse_prexc_code p),
                activity_project (parse_prexc_code p), reserved (parse_prexc_code p)]
              = [1, 1, 2, 2, 2, 1, 5, 1]
          \<and> sector_horizontal (parse_prexc_code p) @ cost_structure (parse_prexc_code p)
              @ org_outcome (parse_prexc_code p) @ program (parse_prexc_code p)
              @ sub_program (parse_prexc_code p) @ identifier_digit (parse_prexc_code p)
              @ activity_project (parse_prexc_code p) @ reserved (parse_prexc_code p)
              = zfill 15 (py_str p))
       \<and> parse_organization_code (PStr ''27'') (PStr ''001'') (PStr ''00001'')
            = Some ''270010000001''
       \<and> parse_organization_code PNone (PStr ''001'') (PStr ''00001'') = None
       \<and> (\<forall>d g ou c. parse_organization_code d g ou = Some c \<longrightarrow>
            c = zfill 2 (strip (py_str d)) @ zfill 3 (strip (py_str g)) @ zfill 7 (strip (py_str ou)))"
proof -
  let ?u = "zfill 12 (strip (py_str v))"
  let ?a = "zfill 5 (strip (py_str a))"
  let ?p = "zfill 15 (py_str p)"
  from assms have len: "length ?u = 12" "length ?a = 5" "length ?p = 15"
    by (simp_all add: length_zfill)
  have "slice 0 2 ?u @ slice 2 5 ?u @ slice 5 7 ?u @ slice 7 12 ?u = slice 0 12 ?u"
    by (simp add: slice_append)
  also have "\<dots> = ?u" using len by (simp add: slice_all)
  finally have ou: "slice 0 2 ?u @ slice 2 5 ?u @ slice 5 7 ?u @ slice 7 12 ?u = ?u" .
  have "slice 0 2 ?a @ slice 2 5 ?a = slice 0 5 ?a"
    by (simp add: slice_append)
  also have "\<dots> = ?a" using len by (simp add: slice_all)
  finally have ag: "slice 0 2 ?a @ slice 2 5 ?a = ?a" .
  have "slice 0 1 ?p @ slice 1 2 ?p @ slice 2 4 ?p @ slice 4 6 ?p @ slice 6 8 ?p
          @ slice 8 9 ?p @ slice 9 14 ?p @ slice 14 15 ?p = slice 0 15 ?p"
    by (simp add: slice_append)
  also have "\<dots> = ?p" using len by (simp add: slice_all)
  finally have px: "slice 0 1 ?p @ slice 1 2 ?p @ slice 2 4 ?p @ slice 4 6 ?p @ slice 6 8 ?p
          @ slice 8 9 ?p @ slice 9 14 ?p @ slice 14 15 ?p = ?p" .
  have c1: "\<exists>dept agency cls lower_ou.
            convert_operating_unit_row v name region tag status ''uacs_code'' = Some ?u
          \<and> convert_operating_unit_row v name region tag status ''department_code'' = Some dept
          \<and> convert_operating_unit_row v name region tag status ''agency_code'' = Some agency
          \<and> convert_operating_unit_row v name region tag status ''class_code'' = Some cls
          \<and> convert_operating_unit_row v name region tag status ''lower_ou_code'' = Some lower_ou
          \<and> convert_operating_unit_row v name region tag status ''code'' = Some (cls @ lower_ou)
          \<and> length dept = 2 \<and> length agency = 3 \<and> length cls = 2 \<and> length lower_ou = 5
          \<and> dept @ agency @ cls @ lower_ou = ?u"
    using ou len(1) by (simp add: convert_operating_unit_row_def Let_def length_slice)
  have c2: "\<exists>dept agency.
            convert_agency_row a name tag status ''uacs_code'' = Some ?a
          \<and> convert_agency_row a name tag status ''department_code'' = Some dept
          \<and> convert_agency_row a name tag status ''code'' = Some agency
          \<and> length dept = 2 \<and> length agency = 3
          \<and> dept @ agency = ?a"
    using ag len(2) by (simp add: convert_agency_row_def Let_def length_slice)
  have c3: "full_code (parse_prexc_code p) = ?p
          \<and> map length [sector_horizontal (parse_prexc_code p), cost_structure (parse_prexc_code p),
                org_outcome (parse_prexc_code p), program (parse_prexc_code p),
                sub_program (parse_prexc_code p), identifier_digit (parse_prexc_code p),
                activity_project (parse_prexc_code p), reserved (parse_prexc_code p)]
              = [1, 1, 2, 2, 2, 1, 5, 1]
          \<and> sector_horizontal (parse_prexc_code p) @ cost_structure (parse_prexc_code p)
              @ org_outcome (parse_prexc_code p) @ program (parse_prexc_code p)
              @ sub_program (parse_prexc_code p) @ identifier_digit (parse_prexc_code p)
              @ activity_project (parse_prexc_code p) @ reserved (parse_prexc_code p)
              = ?p"
    using px len(3) by (simp add: parse_prexc_code_def Let_def length_slice)
  have c4: "parse_organization_code (PStr ''27'') (PStr ''001'') (PStr ''00001'')
            = Some ''270010000001''"
    by (simp add: parse_organization_code_def py_eval)
  have c5: "parse_organization_code PNone (PStr ''001'') (PStr ''00001'') = None"
    by (simp add: parse_organization_code_def)
  have c6: "\<forall>d g ou c. parse_organization_code d g ou = Some c \<longrightarrow>
            c = zfill 2 (strip (py_str d)) @ zfill 3 (strip (py_str g)) @ zfill 7 (strip (py_str ou))"
    by (auto simp: parse_organization_code_def Let_def split: if_splits)
  from c1 c2 c3 c4 c5 c6 show ?thesis by blast
qed

theorem segmentation_roundtrip_witness:
  "length (strip (py_str (PStr ''270012200001''))) \<le> 12
   \<and> length (strip (py_str (PInt 7001))) \<le> 5
   \<and> length (py_str (PStr ''310400100002000'')) \<le> 15
   \<and> convert_operating_unit_row (PStr ''270012200001'') (PStr ''Office'') [] (PStr ''IU'')
        (PStr ''Active'') ''uacs_code'' = Some ''270012200001''
   \<and> convert_agency_row (PInt 7001) (PStr ''Office'') (PStr ''IU'') (PStr ''Active'') ''uacs_code''
        = Some ''07001''
   \<and> full_code (parse_prexc_code (PStr ''310400100002000'')) = ''310400100002000''"
proof -
  have h1: "length (strip (py_str (PStr ''270012200001''))) \<le> 12" by (simp add: py_eval)
  have h2: "length (strip (py_str (PInt 7001))) \<le> 5" by (simp add: py_eval)
  have h3: "length (py_str (PStr ''310400100002000'')) \<le> 15" by simp
  have z1: "zfill 12 (strip (py_str (PStr ''270012200001''))) = ''270012200001''"
    by (simp add: py_eval)
  have z2: "zfill 5 (strip (py_str (PInt 7001))) = ''07001''" by (simp add: py_eval)
  have z3: "zfill 15 (py_str (PStr ''310400100002000'')) = ''310400100002000''"
    by (simp add: py_eval)
  note rt = segmentation_roundtrip [OF h1 h2 h3, where name = "PStr ''Office''" and region = "[]"
      and tag = "PStr ''IU''" and status = "PStr ''Active''"]
  from rt have a: "convert_operating_unit_row (PStr ''270012200001'') (PStr ''Office'') []
       (PStr ''IU'') (PStr ''Active'') ''uacs_code'' = Some ''270012200001''"
    unfolding z1 by (elim conjE exE)
  from rt have b: "convert_agency_row (PInt 7001) (PStr ''Office'') (PStr ''IU'') (PStr ''Active'')
       ''uacs_code'' = Some ''07001''"
    unfolding z2 by (elim conjE exE)
  from rt have c: "full_code (parse_prexc_code (PStr ''310400100002000''))
       = ''310400100002000''"
    unfolding z3 by (elim conjE exE)
  from h1 h2 h3 a b c show ?thesis by blast
qed

section \<open>The funding code and the fund-category lookup\<close>

lemma load_loop_append:
  "load_loop l (xs @ ys) = (case load_loop l xs of Inl e \<Rightarrow> Inl e | Inr l1 \<Rightarrow> load_loop l1 ys)"
  by (induction xs arbitrary: l) (auto split: pyval.splits)

lemma load_loop_keep:
  assumes "load_loop l cats = Inr l'"
    and "\<forall>c \<in> set cats. \<forall>u. get_default c ''uacs_code'' (PStr []) = PStr u \<and> length u = 8
           \<longrightarrow> slice 2 8 u \<noteq> k"
  shows "l' k = l k"
  using assms
proof (induction cats arbitrary: l)
  case Nil
  then show ?case by simp
next
  case (Cons c cats)
  from Cons.prems(1) obtain u where u: "get_default c ''uacs_code'' (PStr []) = PStr u"
    by (auto split: pyval.splits)
  let ?l1 = "if length u = 8 then l(slice 2 8 u \<mapsto> u) else l"
  from Cons.prems(1) u have "load_loop ?l1 cats = Inr l'" by simp
  moreover from Cons.prems(2) have "\<forall>c \<in> set cats. \<forall>u.
      get_default c ''uacs_code'' (PStr []) = PStr u \<and> length u = 8 \<longrightarrow> slice 2 8 u \<noteq> k"
    by simp
  ultimately have "l' k = ?l1 k" by (rule Cons.IH)
  moreover from Cons.prems(2) u have "length u = 8 \<longrightarrow> slice 2 8 u \<noteq> k" by simp
  ultimately show ?case by auto
qed

lemma load_loop_values:
  assumes "load_loop l cats = Inr l'" and "l' k = Some u"
  shows "l k = Some u \<or> (length u = 8 \<and> slice 2 8 u = k
           \<and> (\<exists>c \<in> set cats. get_default c ''uacs_code'' (PStr []) = PStr u))"
  using assms
proof (induction cats arbitrary: l)
  case Nil
  then show ?case by simp
next
  case (Cons c cats)
  from Cons.prems(1) obtain w where w: "get_default c ''uacs_code'' (PStr []) = PStr w"
    by (auto split: pyval.splits)
  let ?l1 = "if length w = 8 then l(slice 2 8 w \<mapsto> w) else l"
  from Cons.prems(1) w have "load_loop ?l1 cats = Inr l'" by simp
  from Cons.IH [OF this Cons.prems(2)]
  have "?l1 k = Some u \<or> (length u = 8 \<and> slice 2 8 u = k
           \<and> (\<exists>c \<in> set cats. get_default c ''uacs_code'' (PStr []) = PStr u))" .
  then show ?case
  proof
    assume "?l1 k = Some u"
    with w show ?thesis by (auto split: if_splits)
  next
    assume "length u = 8 \<and> slice 2 8 u = k
           \<and> (\<exists>c \<in> set cats. get_default c ''uacs_code'' (PStr []) = PStr u)"
    then show ?thesis by auto
  qed
qed

lemma load_loop_last:
  assumes "load_loop l (pre @ c # post) = Inr l'"
    and "get_default c ''uacs_code'' (PStr []) = PStr u" and "length u = 8"
    and "\<forall>c' \<in> set post. \<forall>u'. get_default c' ''uacs_code'' (PStr []) = PStr u' \<and> length u' = 8
           \<longrightarrow> slice 2 8 u' \<noteq> slice 2 8 u"
  shows "l' (slice 2 8 u) = Some u"
proof -
  from assms(1) obtain l1 where l1: "load_loop l pre = Inr l1"
    and rest: "load_loop l1 (c # post) = Inr l'"
    by (auto simp: load_loop_append split: sum.splits)
  from rest assms(2,3) have "load_loop (l1(slice 2 8 u \<mapsto> u)) post = Inr l'" by simp
  from load_loop_keep [OF this assms(4)] show ?thesis by simp
qed

text \<open>
  C10, as the code has it. For a lookup built by \<open>load_fund_categories\<close>: a valid funding
  code of six characters that is a key of the lookup gives the 8-character code stored
  for it, conversion type \<open>"6-digit-lookup"\<close> and the original code; one that is no key,
  and any valid code of a length other than 6 and 8, gives \<open>None\<close>. The lookup maps
  characters 3 to 8 of an 8-character fund-category code to that code when no later
  category has an 8-character code with the same characters 3 to 8 (a later one
  overwrites it), and every entry of the lookup is such a code under its characters 3 to 8.
\<close>

theorem parse_funding_code_lookup:
  assumes "load_fund_categories cat_file = Inr lookup"
  shows "(\<forall>v u. is_valid_value v \<and> length (strip (py_str v)) = 6
             \<and> lookup (strip (py_str v)) = Some u \<longrightarrow>
           parse_funding_code lookup v
             = Some \<lparr>uacs_code = u, conversion_type = ''6-digit-lookup'',
                     original_code = Some (strip (py_str v))\<rparr>
           \<and> length u = 8 \<and> slice 2 8 u = strip (py_str v))
       \<and> (\<forall>v. is_valid_value v \<and> length (strip (py_str v)) = 6
             \<and> lookup (strip (py_str v)) = None \<longrightarrow> parse_funding_code lookup v = None)
       \<and> (\<forall>v. is_valid_value v \<and> length (strip (py_str v)) \<noteq> 6
             \<and> length (strip (py_str v)) \<noteq> 8 \<longrightarrow> parse_funding_code lookup v = None)
       \<and> (\<forall>pre c post u. cat_file = Some (pre @ c # post)
             \<and> get_default c ''uacs_code'' (PStr []) = PStr u \<and> length u = 8
             \<and> (\<forall>c' \<in> set post. \<forall>u'. get_default c' ''uacs_code'' (PStr []) = PStr u'
                    \<and> length u' = 8 \<longrightarrow> slice 2 8 u' \<noteq> slice 2 8 u)
             \<longrightarrow> lookup (slice 2 8 u) = Some u)
       \<and> (\<forall>k u. lookup k = Some u \<longrightarrow>
             length u = 8 \<and> slice 2 8 u = k
             \<and> (\<exists>cats. cat_file = Some cats
                  \<and> (\<exists>c \<in> set cats. get_default c ''uacs_code'' (PStr []) = PStr u)))"
proof -
  have vals: "length u = 8 \<and> slice 2 8 u = k
             \<and> (\<exists>cats. cat_file = Some cats
                  \<and> (\<exists>c \<in> set cats. get_default c ''uacs_code'' (PStr []) = PStr u))"
    if "lookup k = Some u" for k u
  proof (cases cat_file)
    case None
    with assms that show ?thesis by (auto simp: load_fund_categories_def)
  next
    case (Some cats)
    with assms have "load_loop Map.empty cats = Inr lookup"
      by (simp add: load_fund_categories_def)
    from load_loop_values [OF this that] Some show ?thesis by simp
  qed
  have a: "parse_funding_code lookup v
             = Some \<lparr>uacs_code = u, conversion_type = ''6-digit-lookup'',
                     original_code = Some (strip (py_str v))\<rparr>
           \<and> length u = 8 \<and> slice 2 8 u = strip (py_str v)"
    if "is_valid_value v \<and> length (strip (py_str v)) = 6 \<and> lookup (strip (py_str v)) = Some u"
    for v u
    using that vals [of "strip (py_str v)" u] by (auto simp: parse_funding_code_def Let_def)
  have b: "parse_funding_code lookup v = None"
    if "is_valid_value v \<and> length (strip (py_str v)) = 6 \<and> lookup (strip (py_str v)) = None"
    for v
    using that by (auto simp: parse_funding_code_def Let_def)
  have c: "parse_funding_code lookup v = None"
    if "is_valid_value v \<and> length (strip (py_str v)) \<noteq> 6 \<and> length (strip (py_str v)) \<noteq> 8"
    for v
    using that by (auto simp: parse_funding_code_def Let_def)
  have d: "lookup (slice 2 8 u) = Some u"
    if "cat_file = Some (pre @ c # post) \<and> get_default c ''uacs_code'' (PStr []) = PStr u
          \<and> length u = 8
          \<and> (\<forall>c' \<in> set post. \<forall>u'. get_default c' ''uacs_code'' (PStr []) = PStr u'
                    \<and> length u' = 8 \<longrightarrow> slice 2 8 u' \<noteq> slice 2 8 u)"
    for pre c post u
  proof -
    from that assms have "load_loop Map.empty (pre @ c # post) = Inr lookup"
      by (simp add: load_fund_categories_def)
    from load_loop_last [OF this] that show ?thesis by blast
  qed
  from a b c d vals show ?thesis by blast
qed

theorem parse_funding_code_lookup_witness:
  "load_fund_categories (Some [[''uacs_code'' \<mapsto> PStr ''01101101'']])
     = Inr [''101101'' \<mapsto> ''01101101'']
   \<and> parse_funding_code [''101101'' \<mapsto> ''01101101''] (PInt 101101)
       = Some \<lparr>uacs_code = ''01101101'', conversion_type = ''6-digit-lookup'',
               original_code = Some ''101101''\<rparr>
   \<and> parse_funding_code [''101101'' \<mapsto> ''01101101''] (PStr ''123'') = None"
proof -
  have h: "load_fund_categories (Some [[''uacs_code'' \<mapsto> PStr ''01101101'']])
     = Inr [''101101'' \<mapsto> ''01101101'']"
    by (simp add: load_fund_categories_def get_default_def py_eval)
  have s: "strip (py_str (PInt 101101)) = ''101101''" by (simp add: py_eval)
  have t: "strip (py_str (PStr ''123'')) = ''123''" by (simp add: py_eval)
  note th = parse_funding_code_lookup [OF h]
  from th have "\<forall>v u. is_valid_value v \<and> length (strip (py_str v)) = 6
             \<and> [''101101'' \<mapsto> ''01101101''] (strip (py_str v)) = Some u \<longrightarrow>
           parse_funding_code [''101101'' \<mapsto> ''01101101''] v
             = Some \<lparr>uacs_code = u, conversion_type = ''6-digit-lookup'',
                     original_code = Some (strip (py_str v))\<rparr>
           \<and> length u = 8 \<and> slice 2 8 u = strip (py_str v)"
    by (elim conjE)
  from this [rule_format, of "PInt 101101" "''01101101''"] s
  have a: "parse_funding_code [''101101'' \<mapsto> ''01101101''] (PInt 101101)
       = Some \<lparr>uacs_code = ''01101101'', conversion_type = ''6-digit-lookup'',
               original_code = Some ''101101''\<rparr>"
    by simp
  from th have "\<forall>v. is_valid_value v \<and> length (strip (py_str v)) \<noteq> 6
             \<and> length (strip (py_str v)) \<noteq> 8
             \<longrightarrow> parse_funding_code [''101101'' \<mapsto> ''01101101''] v = None"
    by (elim conjE)
  from this [rule_format, of "PStr ''123''"] t
  have b: "parse_funding_code [''101101'' \<mapsto> ''01101101''] (PStr ''123'') = None"
    by simp
  from h a b show ?thesis by blast
qed

text \<open>
  The claim as stated fails where two categories share their last six digits: of
  \<open>"01101101"\<close> and \<open>"02101101"\<close> the lookup keeps the later one under \<open>"101101"\<close>.
\<close>

theorem fund_lookup_collision:
  "load_fund_categories
     (Some [[''uacs_code'' \<mapsto> PStr ''01101101''], [''uacs_code'' \<mapsto> PStr ''02101101'']])
     = Inr [''101101'' \<mapsto> ''02101101'']
   \<and> slice 2 8 ''01101101'' = ''101101''
   \<and> [''101101'' \<mapsto> ''02101101''] (slice 2 8 ''01101101'') \<noteq> Some ''01101101''"
  by (simp add: load_fund_categories_def get_default_def py_eval)

section \<open>Presence of the code fields of a converted record\<close>

lemma org_code_zero_iff:
  "zfill 2 a @ zfill 3 b @ zfill 7 c = zeros 12
     \<longleftrightarrow> zfill 2 a = zeros 2 \<and> zfill 3 b = zeros 3 \<and> zfill 7 c = zeros 7"
proof
  assume eq: "zfill 2 a @ zfill 3 b @ zfill 7 c = zeros 12"
  then have "length (zfill 2 a @ zfill 3 b @ zfill 7 c) = 12" by (simp add: zeros_def)
  then have la: "length (zfill 2 a) = 2" and lb: "length (zfill 3 b) = 3"
    and lc: "length (zfill 7 c) = 7"
    by (auto simp: length_zfill)
  have "zeros 12 = zeros 2 @ zeros 3 @ zeros 7"
    by (simp add: zeros_def replicate_add [symmetric])
  with eq have "zfill 2 a @ zfill 3 b @ zfill 7 c = zeros 2 @ zeros 3 @ zeros 7" by simp
  with la lb show "zfill 2 a = zeros 2 \<and> zfill 3 b = zeros 3 \<and> zfill 7 c = zeros 7"
    by (simp add: zeros_def)
next
  assume "zfill 2 a = zeros 2 \<and> zfill 3 b = zeros 3 \<and> zfill 7 c = zeros 7"
  then show "zfill 2 a @ zfill 3 b @ zfill 7 c = zeros 12"
    by (simp add: zeros_def replicate_add [symmetric])
qed

lemma zfill_nonempty: "0 < w \<Longrightarrow> zfill w s \<noteq> []"
  using length_zfill [of w s] by auto

lemma parse_organization_code_eq:
  "parse_organization_code d a ou =
     (if is_valid_value d \<and> is_valid_value a \<and> is_valid_value ou
         \<and> \<not> (zfill 2 (strip (py_str d)) = zeros 2 \<and> zfill 3 (strip (py_str a)) = zeros 3
               \<and> zfill 7 (strip (py_str ou)) = zeros 7)
      then Some (zfill 2 (strip (py_str d)) @ zfill 3 (strip (py_str a)) @ zfill 7 (strip (py_str ou)))
      else None)"
  using org_code_zero_iff [of "strip (py_str d)" "strip (py_str a)" "strip (py_str ou)"]
  by (simp add: parse_organization_code_def Let_def zeros_def replicate_numeral_unfold)

lemma parse_region_code_eq:
  "parse_region_code v =
     (if is_valid_value v \<and> zfill 2 (strip (py_str v)) \<noteq> zeros 2
      then Some (zfill 2 (strip (py_str v))) else None)"
  by (simp add: parse_region_code_def Let_def zeros_def replicate_numeral_unfold)

lemma parse_object_code_eq:
  "parse_object_code r =
     (if is_valid_value (py_or (get r ''UACS_SOBJ_CD'') (get r ''UACS_OBJ_CD''))
         \<and> zfill 10 (strip (py_str (py_or (get r ''UACS_SOBJ_CD'') (get r ''UACS_OBJ_CD'')))) \<noteq> zeros 10
      then Some (zfill 10 (strip (py_str (py_or (get r ''UACS_SOBJ_CD'') (get r ''UACS_OBJ_CD'')))))
      else None)"
  by (simp add: parse_object_code_def Let_def zeros_def replicate_numeral_unfold)

lemma convert_record_org:
  "convert_record tf lookup r bt yr n ''org_uacs_code''
     = map_option OStr (parse_organization_code (get r ''DEPARTMENT'') (get r ''AGENCY'')
         (get r ''OPERUNIT''))"
proof -
  have "c \<noteq> []" if "parse_organization_code (get r ''DEPARTMENT'') (get r ''AGENCY'')
         (get r ''OPERUNIT'') = Some c" for c
    using that by (auto simp: parse_organization_code_eq zfill_nonempty split: if_splits)
  then show ?thesis
    by (auto simp: convert_record_def Let_def split: option.splits)
qed

lemma convert_record_region:
  "convert_record tf lookup r bt yr n ''region_code''
     = map_option OStr (parse_region_code (get r ''UACS_REG_ID''))"
proof -
  have "c \<noteq> []" if "parse_region_code (get r ''UACS_REG_ID'') = Some c" for c
    using that by (auto simp: parse_region_code_eq zfill_nonempty split: if_splits)
  then show ?thesis
    by (auto simp: convert_record_def Let_def split: option.splits)
qed

lemma convert_record_object:
  "convert_record tf lookup r bt yr n ''object_uacs_code'' = map_option OStr (parse_object_code r)"
  by (auto simp: convert_record_def Let_def split: option.splits)

lemma convert_record_funding:
  "convert_record tf lookup r bt yr n ''funding_uacs_code''
     = map_option (\<lambda>f. OStr (uacs_code f)) (parse_funding_code lookup (get r ''FUNDCD''))"
  "convert_record tf lookup r bt yr n ''funding_conversion_type''
     = map_option (\<lambda>f. OStr (conversion_type f)) (parse_funding_code lookup (get r ''FUNDCD''))"
  by (auto simp: convert_record_def Let_def split: option.splits)

text \<open>
  C6, as the code has it, for every source record, whether a field is there, \<open>null\<close>, blank
  or of any length. The organization code is in the converted record exactly when all three
  components are non-blank and their padded concatenation is not the twelve zeros, which is
  the case unless every component consists of zeros only and is no longer than its width
  (2, 3 and 7); the region and the object code (of \<open>UACS_SOBJ_CD or UACS_OBJ_CD\<close>) exactly
  when the field is non-blank and is not a string of zeros of at most 2 and 10 characters.
  The funding code is in the record exactly when \<open>FUNDCD\<close> is non-blank and either has 8
  characters other than \<open>"00000000"\<close> or has 6 characters and is a key of the fund-category
  lookup. A field that is not stored is missing from the record, and a stored
  organization, region or object code is neither empty nor all zeros of its width.
\<close>

theorem code_fields_present:
  fixes r :: pyrecord
  defines "dx \<equiv> strip (py_str (get r ''DEPARTMENT''))"
    and "ax \<equiv> strip (py_str (get r ''AGENCY''))"
    and "ox \<equiv> strip (py_str (get r ''OPERUNIT''))"
    and "rx \<equiv> strip (py_str (get r ''UACS_REG_ID''))"
    and "bx \<equiv> strip (py_str (py_or (get r ''UACS_SOBJ_CD'') (get r ''UACS_OBJ_CD'')))"
    and "fx \<equiv> strip (py_str (get r ''FUNDCD''))"
  shows "convert_record tf lookup r bt yr n ''org_uacs_code''
           = (if is_valid_value (get r ''DEPARTMENT'') \<and> is_valid_value (get r ''AGENCY'')
                 \<and> is_valid_value (get r ''OPERUNIT'')
                 \<and> \<not> (set (dx @ ax @ ox) \<subseteq> {CHR ''0''}
                       \<and> length dx \<le> 2 \<and> length ax \<le> 3 \<and> length ox \<le> 7)
              then Some (OStr (zfill 2 dx @ zfill 3 ax @ zfill 7 ox)) else None)
       \<and> convert_record tf lookup r bt yr n ''region_code''
           = (if is_valid_value (get r ''UACS_REG_ID'')
                 \<and> \<not> (set rx \<subseteq> {CHR ''0''} \<and> length rx \<le> 2)
              then Some (OStr (zfill 2 rx)) else None)
       \<and> convert_record tf lookup r bt yr n ''object_uacs_code''
           = (if is_valid_value (py_or (get r ''UACS_SOBJ_CD'') (get r ''UACS_OBJ_CD''))
                 \<and> \<not> (set bx \<subseteq> {CHR ''0''} \<and> length bx \<le> 10)
              then Some (OStr (zfill 10 bx)) else None)
       \<and> convert_record tf lookup r bt yr n ''funding_uacs_code''
           = (if is_valid_value (get r ''FUNDCD'') \<and> length fx = 8 \<and> fx \<noteq> zeros 8
              then Some (OStr fx)
              else if is_valid_value (get r ''FUNDCD'') \<and> length fx = 6
              then map_option OStr (lookup fx) else None)
       \<and> convert_record tf lookup r bt yr n ''org_uacs_code''
           \<notin> {Some (OStr []), Some (OStr (zeros 12))}
       \<and> convert_record tf lookup r bt yr n ''region_code''
           \<notin> {Some (OStr []), Some (OStr (zeros 2))}
       \<and> convert_record tf lookup r bt yr n ''object_uacs_code''
           \<notin> {Some (OStr []), Some (OStr (zeros 10))}"
proof -
  have org: "convert_record tf lookup r bt yr n ''org_uacs_code''
           = (if is_valid_value (get r ''DEPARTMENT'') \<and> is_valid_value (get r ''AGENCY'')
                 \<and> is_valid_value (get r ''OPERUNIT'')
                 \<and> \<not> (set (dx @ ax @ ox) \<subseteq> {CHR ''0''}
                       \<and> length dx \<le> 2 \<and> length ax \<le> 3 \<and> length ox \<le> 7)
              then Some (OStr (zfill 2 dx @ zfill 3 ax @ zfill 7 ox)) else None)"
  proof -
    have "(zfill 2 dx = zeros 2 \<and> zfill 3 ax = zeros 3 \<and> zfill 7 ox = zeros 7)
        \<longleftrightarrow> (set (dx @ ax @ ox) \<subseteq> {CHR ''0''}
             \<and> length dx \<le> 2 \<and> length ax \<le> 3 \<and> length ox \<le> 7)"
      unfolding zfill_zeros_iff by auto
    then show ?thesis
      unfolding convert_record_org parse_organization_code_eq dx_def ax_def ox_def
      by simp
  qed
  have reg: "convert_record tf lookup r bt yr n ''region_code''
           = (if is_valid_value (get r ''UACS_REG_ID'')
                 \<and> \<not> (set rx \<subseteq> {CHR ''0''} \<and> length rx \<le> 2)
              then Some (OStr (zfill 2 rx)) else None)"
  proof -
    have "zfill 2 rx = zeros 2 \<longleftrightarrow> set rx \<subseteq> {CHR ''0''} \<and> length rx \<le> 2"
      unfolding zfill_zeros_iff by auto
    then show ?thesis
      unfolding convert_record_region parse_region_code_eq rx_def by simp
  qed
  have obj: "convert_record tf lookup r bt yr n ''object_uacs_code''
           = (if is_valid_value (py_or (get r ''UACS_SOBJ_CD'') (get r ''UACS_OBJ_CD''))
                 \<and> \<not> (set bx \<subseteq> {CHR ''0''} \<and> length bx \<le> 10)
              then Some (OStr (zfill 10 bx)) else None)"
  proof -
    have "zfill 10 bx = zeros 10 \<longleftrightarrow> set bx \<subseteq> {CHR ''0''} \<and> length bx \<le> 10"
      unfolding zfill_zeros_iff by auto
    then show ?thesis
      unfolding convert_record_object parse_object_code_eq bx_def by simp
  qed
  have fund: "convert_record tf lookup r bt yr n ''funding_uacs_code''
           = (if is_valid_value (get r ''FUNDCD'') \<and> length fx = 8 \<and> fx \<noteq> zeros 8
              then Some (OStr fx)
              else if is_valid_value (get r ''FUNDCD'') \<and> length fx = 6
              then map_option OStr (lookup fx) else None)"
    by (auto simp: convert_record_funding parse_funding_code_def Let_def fx_def zeros_def
        replicate_numeral_unfold)
  have org_ne: "convert_record tf lookup r bt yr n ''org_uacs_code''
           \<notin> {Some (OStr []), Some (OStr (zeros 12))}"
    by (auto simp: convert_record_org parse_organization_code_eq zfill_nonempty
        org_code_zero_iff)
  have reg_ne: "convert_record tf lookup r bt yr n ''region_code''
           \<notin> {Some (OStr []), Some (OStr (zeros 2))}"
    by (auto simp: convert_record_region parse_region_code_eq zfill_nonempty)
  have obj_ne: "convert_record tf lookup r bt yr n ''object_uacs_code''
           \<notin> {Some (OStr []), Some (OStr (zeros 10))}"
    by (auto simp: convert_record_object parse_object_code_eq zfill_nonempty)
  from org reg obj fund org_ne reg_ne obj_ne show ?thesis by blast
qed

theorem code_fields_present_witness:
  "convert_record float_decimal [''101101'' \<mapsto> ''01101101''] code_fields_example
        ''GAA'' ''2024'' 1 ''org_uacs_code'' = Some (OStr ''070010000001'')
   \<and> convert_record float_decimal [''101101'' \<mapsto> ''01101101''] code_fields_example
        ''GAA'' ''2024'' 1 ''region_code'' = None
   \<and> convert_record float_decimal [''101101'' \<mapsto> ''01101101''] code_fields_example
        ''GAA'' ''2024'' 1 ''object_uacs_code'' = Some (OStr ''5020101000'')
   \<and> convert_record float_decimal [''101101'' \<mapsto> ''01101101''] code_fields_example
        ''GAA'' ''2024'' 1 ''funding_uacs_code'' = Some (OStr ''01101101'')"
proof -
  let ?r = code_fields_example
  have d: "get ?r ''DEPARTMENT'' = PStr ''7''" by (simp add: get_def code_fields_example_def)
  have a: "get ?r ''AGENCY'' = PStr ''1''" by (simp add: get_def code_fields_example_def)
  have ou: "get ?r ''OPERUNIT'' = PStr ''1''" by (simp add: get_def code_fields_example_def)
  have rg: "get ?r ''UACS_REG_ID'' = PNone" by (simp add: get_def code_fields_example_def)
  have ob: "py_or (get ?r ''UACS_SOBJ_CD'') (get ?r ''UACS_OBJ_CD'') = PStr ''5020101000''"
    by (simp add: get_def py_or_def code_fields_example_def)
  have fd: "get ?r ''FUNDCD'' = PInt 101101" by (simp add: get_def code_fields_example_def)
  have s1: "strip (py_str (PStr ''7'')) = ''7''" by (simp add: py_eval)
  have s2: "strip (py_str (PStr ''1'')) = ''1''" by (simp add: py_eval)
  have s3: "strip (py_str (PStr ''5020101000'')) = ''5020101000''" by (simp add: py_eval)
  have s4: "strip (py_str (PInt 101101)) = ''101101''" by (simp add: py_eval)
  note th = code_fields_present [where r = ?r and tf = float_decimal
      and lookup = "[''101101'' \<mapsto> ''01101101'']" and bt = "''GAA''" and yr = "''2024''"
      and n = 1, unfolded d a ou rg ob fd s1 s2 s3 s4]
  from th show ?thesis by (simp add: py_eval)
qed

text \<open>
  The claim as stated fails for the funding code: \<open>FUNDCD = "123"\<close> is non-blank and not
  zero-filled at width 8, and the converted record has no funding code.
\<close>

theorem funding_code_absent:
  "is_valid_value (get [''FUNDCD'' \<mapsto> PStr ''123''] ''FUNDCD'')
   \<and> zfill 8 (strip (py_str (get [''FUNDCD'' \<mapsto> PStr ''123''] ''FUNDCD''))) \<noteq> zeros 8
   \<and> convert_record float_decimal Map.empty [''FUNDCD'' \<mapsto> PStr ''123''] ''GAA'' ''2024'' 1
        ''funding_uacs_code'' = None"
  by (simp add: convert_record_funding parse_funding_code_def get_def py_eval)

text \<open>
  A region of three zeros is longer than its width, is not padded, is not \<open>"00"\<close>, and is
  stored as it is.
\<close>

lemma region_of_three_zeros_stored:
  "convert_record float_decimal Map.empty [''UACS_REG_ID'' \<mapsto> PStr ''000''] ''GAA'' ''2024'' 1
     ''region_code'' = Some (OStr ''000'')"
  by (simp add: convert_record_region parse_region_code_def get_def py_eval Let_def)

section \<open>Deduplication of the PREXC hierarchy\<close>

lemma dict_set_absent: "\<not> has_key d k \<Longrightarrow> dict_set k v d = d @ [(k, v)]"
  by (induction d) (auto simp: has_key_def)

lemma has_key_Nil [simp]: "\<not> has_key [] k"
  by (simp add: has_key_def)

lemma has_key_append: "has_key (d @ d') k \<longleftrightarrow> has_key d k \<or> has_key d' k"
  by (auto simp: has_key_def)

lemma has_key_iff: "has_key d k \<longleftrightarrow> (\<exists>v. (k, v) \<in> set d)"
  by (force simp: has_key_def)

lemma has_key_filter_absent:
  "has_key (filter (\<lambda>(k', e). \<not> has_key d k') xs) k \<longleftrightarrow> has_key xs k \<and> \<not> has_key d k"
  by (auto simp: has_key_iff)

text \<open>
  What a record adds to a level is what it would add to the empty dictionaries, unless
  the key is there already.
\<close>

lemma prexc_step_sectors:
  "sectors (prexc_step st r)
     = sectors st @ filter (\<lambda>(k, e). \<not> has_key (sectors st) k) (sectors (prexc_step prexc_init r))"
  "length (sectors (prexc_step prexc_init r)) \<le> 1"
  by (simp_all add: prexc_step_def prexc_init_def Let_def dict_set_absent)

lemma prexc_step_org_outcomes:
  "org_outcomes (prexc_step st r)
     = org_outcomes st @ filter (\<lambda>(k, e). \<not> has_key (org_outcomes st) k)
         (org_outcomes (prexc_step prexc_init r))"
  "length (org_outcomes (prexc_step prexc_init r)) \<le> 1"
  by (simp_all add: prexc_step_def prexc_init_def Let_def dict_set_absent)

lemma prexc_step_programs:
  "programs (prexc_step st r)
     = programs st @ filter (\<lambda>(k, e). \<not> has_key (programs st) k)
         (programs (prexc_step prexc_init r))"
  "length (programs (prexc_step prexc_init r)) \<le> 1"
  by (simp_all add: prexc_step_def prexc_init_def Let_def dict_set_absent)

lemma prexc_step_sub_programs:
  "sub_programs (prexc_step st r)
     = sub_programs st @ filter (\<lambda>(k, e). \<not> has_key (sub_programs st) k)
         (sub_programs (prexc_step prexc_init r))"
  "length (sub_programs (prexc_step prexc_init r)) \<le> 1"
  by (simp_all add: prexc_step_def prexc_init_def Let_def dict_set_absent)

lemma prexc_step_activities:
  "activities (prexc_step st r)
     = activities st @ filter (\<lambda>(k, e). \<not> has_key (activities st) k)
         (activities (prexc_step prexc_init r))"
  "length (activities (prexc_step prexc_init r)) \<le> 1"
  by (simp_all add: prexc_step_def prexc_init_def Let_def dict_set_absent)

text \<open>
  First occurrence wins, for any of the five dictionaries \<open>proj\<close>: keys stay distinct,
  every stored entry is the one offered by the first record that offers its key, and every
  offered key is stored.
\<close>

lemma offer_cases:
  assumes "length (offer :: (string \<times> entity) list) \<le> 1"
  obtains "offer = []" | k e where "offer = [(k, e)]"
proof (cases offer)
  case Nil
  then show ?thesis by (rule that(1))
next
  case (Cons p ps)
  with assms have "ps = []" by simp
  with Cons have "offer = [(fst p, snd p)]" by simp
  then show ?thesis by (rule that(2))
qed

lemma first_wins_distinct:
  fixes proj :: "prexc_state \<Rightarrow> (string \<times> entity) list"
  assumes step: "\<And>st r. proj (prexc_step st r)
        = proj st @ filter (\<lambda>(k, e). \<not> has_key (proj st) k) (proj (prexc_step prexc_init r))"
    and single: "\<And>r. length (proj (prexc_step prexc_init r)) \<le> 1"
    and "distinct (map fst (proj st))"
  shows "distinct (map fst (proj (prexc_loop st recs)))"
  using assms(3)
proof (induction recs arbitrary: st)
  case Nil
  then show ?case by simp
next
  case (Cons r recs)
  have "distinct (map fst (proj (prexc_step st r)))"
  proof (rule offer_cases [OF single [of r]])
    assume "proj (prexc_step prexc_init r) = []"
    with Cons.prems show ?thesis by (simp add: step [of st r])
  next
    fix k e
    assume "proj (prexc_step prexc_init r) = [(k, e)]"
    with Cons.prems show ?thesis by (auto simp: step [of st r] has_key_def)
  qed
  then have "distinct (map fst (proj (prexc_loop (prexc_step st r) recs)))"
    by (rule Cons.IH)
  then show ?case by simp
qed

lemma first_wins_origin:
  fixes proj :: "prexc_state \<Rightarrow> (string \<times> entity) list"
  assumes step: "\<And>st r. proj (prexc_step st r)
        = proj st @ filter (\<lambda>(k, e). \<not> has_key (proj st) k) (proj (prexc_step prexc_init r))"
    and single: "\<And>r. length (proj (prexc_step prexc_init r)) \<le> 1"
    and "(k, e) \<in> set (proj (prexc_loop st recs))"
  shows "(k, e) \<in> set (proj st)
       \<or> (\<not> has_key (proj st) k
          \<and> (\<exists>pre r post. recs = pre @ r # post \<and> proj (prexc_step prexc_init r) = [(k, e)]
                \<and> (\<forall>r' \<in> set pre. \<not> has_key (proj (prexc_step prexc_init r')) k)))"
  using assms(3)
proof (induction recs arbitrary: st)
  case Nil
  then show ?case by simp
next
  case (Cons r recs)
  let ?st = "prexc_step st r"
  let ?offer = "proj (prexc_step prexc_init r)"
  from Cons.prems have "(k, e) \<in> set (proj (prexc_loop ?st recs))" by simp
  from Cons.IH [OF this]
  consider (stored) "(k, e) \<in> set (proj ?st)"
    | (later) pre r2 post where "\<not> has_key (proj ?st) k" "recs = pre @ r2 # post"
        "proj (prexc_step prexc_init r2) = [(k, e)]"
        "\<forall>r' \<in> set pre. \<not> has_key (proj (prexc_step prexc_init r')) k"
    by blast
  then show ?case
  proof cases
    case stored
    then consider "(k, e) \<in> set (proj st)"
      | "\<not> has_key (proj st) k" "(k, e) \<in> set ?offer"
      by (auto simp: step [of st r])
    then show ?thesis
    proof cases
      case 1
      then show ?thesis by simp
    next
      case 2
      from single [of r] 2(2) have "?offer = [(k, e)]"
        by (cases ?offer) auto
      then have "r # recs = [] @ r # recs \<and> ?offer = [(k, e)]
          \<and> (\<forall>r' \<in> set []. \<not> has_key (proj (prexc_step prexc_init r')) k)"
        by simp
      with 2(1) show ?thesis by blast
    qed
  next
    case later
    from later(1) have nst: "\<not> has_key (proj st) k"
      by (simp add: step [of st r] has_key_append)
    from later(1) nst have "\<not> has_key ?offer k"
      by (simp add: step [of st r] has_key_append has_key_filter_absent)
    with later(4) have "\<forall>r' \<in> set (r # pre). \<not> has_key (proj (prexc_step prexc_init r')) k"
      by simp
    moreover from later(2) have "r # recs = (r # pre) @ r2 # post" by simp
    ultimately show ?thesis using nst later(3) by blast
  qed
qed

lemma first_wins_complete:
  fixes proj :: "prexc_state \<Rightarrow> (string \<times> entity) list"
  assumes step: "\<And>st r. proj (prexc_step st r)
        = proj st @ filter (\<lambda>(k, e). \<not> has_key (proj st) k) (proj (prexc_step prexc_init r))"
    and "has_key (proj st) k \<or> (\<exists>r \<in> set recs. has_key (proj (prexc_step prexc_init r)) k)"
  shows "has_key (proj (prexc_loop st recs)) k"
  using assms(2)
proof (induction recs arbitrary: st)
  case Nil
  then show ?case by simp
next
  case (Cons r recs)
  have "has_key (proj (prexc_step st r)) k
      \<or> (\<exists>r \<in> set recs. has_key (proj (prexc_step prexc_init r)) k)"
    using Cons.prems by (auto simp: step [of st r] has_key_append has_key_filter_absent)
  then have "has_key (proj (prexc_loop (prexc_step st r) recs)) k"
    by (rule Cons.IH)
  then show ?case by simp
qed

text \<open>The entry a record offers to a level carries the parts of its key as attributes.\<close>

lemma offer_sectors:
  "sectors (prexc_step prexc_init r) = [(k, e)] \<Longrightarrow> e ''code'' = Some (PStr k)"
  by (auto simp: prexc_step_def prexc_init_def Let_def split: if_splits)

lemma offer_org_outcomes:
  "org_outcomes (prexc_step prexc_init r) = [(k, e)] \<Longrightarrow> e ''code'' = Some (PStr k)"
  by (auto simp: prexc_step_def prexc_init_def Let_def split: if_splits)

lemma offer_programs:
  "programs (prexc_step prexc_init r) = [(k, e)] \<Longrightarrow>
     \<exists>oo c. e ''org_outcome_code'' = Some (PStr oo) \<and> e ''code'' = Some (PStr c)
       \<and> k = oo @ ''-'' @ c"
  by (auto simp: prexc_step_def prexc_init_def Let_def split: if_splits)

lemma offer_sub_programs:
  "sub_programs (prexc_step prexc_init r) = [(k, e)] \<Longrightarrow>
     \<exists>oo p c. e ''org_outcome_code'' = Some (PStr oo) \<and> e ''program_code'' = Some (PStr p)
       \<and> e ''code'' = Some (PStr c) \<and> k = (oo @ ''-'' @ p) @ ''-'' @ c"
  by (auto simp: prexc_step_def prexc_init_def Let_def split: if_splits)

lemma offer_activities:
  "activities (prexc_step prexc_init r) = [(k, e)] \<Longrightarrow>
     (\<exists>oo p s c. e ''org_outcome_code'' = Some (PStr oo) \<and> e ''program_code'' = Some (PStr p)
       \<and> e ''sub_program_code'' = Some (PStr s) \<and> e ''code'' = Some (PStr c)
       \<and> k = ((oo @ ''-'' @ p) @ ''-'' @ s) @ ''-'' @ c)
     \<and> e ''description'' = Some (get_default r ''DSC'' (PStr []))
     \<and> e ''level'' = Some (get_default r ''PREXC_LEVEL'' (PInt 0))"
  by (auto simp: prexc_step_def prexc_init_def Let_def split: if_splits)

text \<open>
  A list of entries with distinct keys, each key a function of some attributes of its
  entity, has entities that differ in these attributes.
\<close>

lemma distinct_by_key_parts:
  assumes "distinct (map fst d)" and "\<And>k e. (k, e) \<in> set d \<Longrightarrow> k = g (f e)"
  shows "distinct (map f (dict_values d))"
proof -
  from assms(2) have "map fst d = map g (map f (dict_values d))"
    by (induction d) (auto simp: dict_values_def)
  with assms(1) show ?thesis by (metis distinct_map)
qed

text \<open>
  C9, as the code has it. For every input list and each of the five levels: the keys of
  the level's dictionary are distinct (one entity per key); the entity stored for a key is
  the one built from the first record, in input order, that offers this key, with all its
  attributes, so that a later record with the same key changes nothing (for an activity
  the description and the level are those of that first record); every key some record
  offers is stored; and the output sequences, the values of the dictionaries in insertion
  order, have no two entities with the same key attributes.
\<close>

theorem prexc_first_occurrence_wins:
  "(\<forall>proj \<in> {sectors, org_outcomes, programs, sub_programs, activities}.
       distinct (map fst (proj (prexc_loop prexc_init recs)))
     \<and> (\<forall>k e. (k, e) \<in> set (proj (prexc_loop prexc_init recs)) \<longrightarrow>
          (\<exists>pre r post. recs = pre @ r # post \<and> proj (prexc_step prexc_init r) = [(k, e)]
              \<and> (\<forall>r' \<in> set pre. \<not> has_key (proj (prexc_step prexc_init r')) k)))
     \<and> (\<forall>r \<in> set recs. \<forall>k. has_key (proj (prexc_step prexc_init r)) k
            \<longrightarrow> has_key (proj (prexc_loop prexc_init recs)) k))
   \<and> (\<forall>r k e. activities (prexc_step prexc_init r) = [(k, e)] \<longrightarrow>
          e ''description'' = Some (get_default r ''DSC'' (PStr []))
        \<and> e ''level'' = Some (get_default r ''PREXC_LEVEL'' (PInt 0)))
   \<and> convert_prexc_records recs
        = [''sectors'' \<mapsto> dict_values (sectors (prexc_loop prexc_init recs)),
           ''organizational_outcomes'' \<mapsto> dict_values (org_outcomes (prexc_loop prexc_init recs)),
           ''programs'' \<mapsto> dict_values (programs (prexc_loop prexc_init recs)),
           ''sub_programs'' \<mapsto> dict_values (sub_programs (prexc_loop prexc_init recs)),
           ''activities'' \<mapsto> dict_values (activities (prexc_loop prexc_init recs))]
   \<and> distinct (map (\<lambda>e. e ''code'') (dict_values (sectors (prexc_loop prexc_init recs))))
   \<and> distinct (map (\<lambda>e. e ''code'') (dict_values (org_outcomes (prexc_loop prexc_init recs))))
   \<and> distinct (map (\<lambda>e. (e ''org_outcome_code'', e ''code''))
        (dict_values (programs (prexc_loop prexc_init recs))))
   \<and> distinct (map (\<lambda>e. (e ''org_outcome_code'', e ''program_code'', e ''code''))
        (dict_values (sub_programs (prexc_loop prexc_init recs))))
   \<and> distinct (map (\<lambda>e. (e ''org_outcome_code'', e ''program_code'', e ''sub_program_code'',
                         e ''code''))
        (dict_values (activities (prexc_loop prexc_init recs))))"
proof -
  let ?st = "prexc_loop prexc_init recs"
  have level: "distinct (map fst (proj ?st))
     \<and> (\<forall>k e. (k, e) \<in> set (proj ?st) \<longrightarrow>
          (\<exists>pre r post. recs = pre @ r # post \<and> proj (prexc_step prexc_init r) = [(k, e)]
              \<and> (\<forall>r' \<in> set pre. \<not> has_key (proj (prexc_step prexc_init r')) k)))
     \<and> (\<forall>r \<in> set recs. \<forall>k. has_key (proj (prexc_step prexc_init r)) k
            \<longrightarrow> has_key (proj ?st) k)"
    if step: "\<And>st r. proj (prexc_step st r)
        = proj st @ filter (\<lambda>(k, e). \<not> has_key (proj st) k) (proj (prexc_step prexc_init r))"
      and single: "\<And>r. length (proj (prexc_step prexc_init r)) \<le> 1"
      and init: "proj prexc_init = []"
    for proj :: "prexc_state \<Rightarrow> (string \<times> entity) list"
  proof (intro conjI allI impI ballI)
    show "distinct (map fst (proj ?st))"
      by (rule first_wins_distinct [OF step single]) (simp add: init)
  next
    fix k e
    assume "(k, e) \<in> set (proj ?st)"
    from first_wins_origin [of proj, OF step single this] init
    show "\<exists>pre r post. recs = pre @ r # post \<and> proj (prexc_step prexc_init r) = [(k, e)]
              \<and> (\<forall>r' \<in> set pre. \<not> has_key (proj (prexc_step prexc_init r')) k)"
      by simp
  next
    fix r k
    assume "r \<in> set recs" and "has_key (proj (prexc_step prexc_init r)) k"
    then have "has_key (proj prexc_init) k
        \<or> (\<exists>r \<in> set recs. has_key (proj (prexc_step prexc_init r)) k)"
      by blast
    then show "has_key (proj ?st) k"
      by (rule first_wins_complete [of proj, OF step])
  qed
  note l1 = level [of sectors, OF prexc_step_sectors]
    and l2 = level [of org_outcomes, OF prexc_step_org_outcomes]
    and l3 = level [of programs, OF prexc_step_programs]
    and l4 = level [of sub_programs, OF prexc_step_sub_programs]
    and l5 = level [of activities, OF prexc_step_activities]
  have inits: "sectors prexc_init = []" "org_outcomes prexc_init = []" "programs prexc_init = []"
    "sub_programs prexc_init = []" "activities prexc_init = []"
    by (simp_all add: prexc_init_def)
  have a: "\<forall>proj \<in> {sectors, org_outcomes, programs, sub_programs, activities}.
       distinct (map fst (proj ?st))
     \<and> (\<forall>k e. (k, e) \<in> set (proj ?st) \<longrightarrow>
          (\<exists>pre r post. recs = pre @ r # post \<and> proj (prexc_step prexc_init r) = [(k, e)]
              \<and> (\<forall>r' \<in> set pre. \<not> has_key (proj (prexc_step prexc_init r')) k)))
     \<and> (\<forall>r \<in> set recs. \<forall>k. has_key (proj (prexc_step prexc_init r)) k
            \<longrightarrow> has_key (proj ?st) k)"
  proof
    fix proj :: "prexc_state \<Rightarrow> (string \<times> entity) list"
    assume "proj \<in> {sectors, org_outcomes, programs, sub_programs, activities}"
    then consider "proj = sectors" | "proj = org_outcomes" | "proj = programs"
      | "proj = sub_programs" | "proj = activities"
      by blast
    then show "distinct (map fst (proj ?st))
     \<and> (\<forall>k e. (k, e) \<in> set (proj ?st) \<longrightarrow>
          (\<exists>pre r post. recs = pre @ r # post \<and> proj (prexc_step prexc_init r) = [(k, e)]
              \<and> (\<forall>r' \<in> set pre. \<not> has_key (proj (prexc_step prexc_init r')) k)))
     \<and> (\<forall>r \<in> set recs. \<forall>k. has_key (proj (prexc_step prexc_init r)) k
            \<longrightarrow> has_key (proj ?st) k)"
    proof cases
      case 1
      show ?thesis unfolding 1 by (rule l1 [OF inits(1)])
    next
      case 2
      show ?thesis unfolding 2 by (rule l2 [OF inits(2)])
    next
      case 3
      show ?thesis unfolding 3 by (rule l3 [OF inits(3)])
    next
      case 4
      show ?thesis unfolding 4 by (rule l4 [OF inits(4)])
    next
      case 5
      show ?thesis unfolding 5 by (rule l5 [OF inits(5)])
    qed
  qed
  have b: "\<forall>r k e. activities (prexc_step prexc_init r) = [(k, e)] \<longrightarrow>
          e ''description'' = Some (get_default r ''DSC'' (PStr []))
        \<and> e ''level'' = Some (get_default r ''PREXC_LEVEL'' (PInt 0))"
    using offer_activities by blast
  have c: "convert_prexc_records recs
        = [''sectors'' \<mapsto> dict_values (sectors ?st),
           ''organizational_outcomes'' \<mapsto> dict_values (org_outcomes ?st),
           ''programs'' \<mapsto> dict_values (programs ?st),
           ''sub_programs'' \<mapsto> dict_values (sub_programs ?st),
           ''activities'' \<mapsto> dict_values (activities ?st)]"
    by (simp add: convert_prexc_records_def Let_def)
  have d1: "distinct (map (\<lambda>e. e ''code'')
        (dict_values (sectors ?st)))"
  proof (rule distinct_by_key_parts [where g = "\<lambda>t. case t of
                   Some (PStr k) \<Rightarrow> k | _ \<Rightarrow> []"])
    show "distinct (map fst (sectors ?st))" using l1 [OF inits(1)] by blast
  next
    fix k e
    assume "(k, e) \<in> set (sectors ?st)"
    with l1 [OF inits(1)] obtain r where "sectors (prexc_step prexc_init r) = [(k, e)]"
      by blast
    from offer_sectors [OF this]
    show "k = (case e ''code'' of
                   Some (PStr k) \<Rightarrow> k | _ \<Rightarrow> [])"
      by simp
  qed
  have d2: "distinct (map (\<lambda>e. e ''code'')
        (dict_values (org_outcomes ?st)))"
  proof (rule distinct_by_key_parts [where g = "\<lambda>t. case t of
                   Some (PStr k) \<Rightarrow> k | _ \<Rightarrow> []"])
    show "distinct (map fst (org_outcomes ?st))" using l2 [OF inits(2)] by blast
  next
    fix k e
    assume "(k, e) \<in> set (org_outcomes ?st)"
    with l2 [OF inits(2)] obtain r where "org_outcomes (prexc_step prexc_init r) = [(k, e)]"
      by blast
    from offer_org_outcomes [OF this]
    show "k = (case e ''code'' of
                   Some (PStr k) \<Rightarrow> k | _ \<Rightarrow> [])"
      by simp
  qed
  have d3: "distinct (map (\<lambda>e. (e ''org_outcome_code'', e ''code''))
        (dict_values (programs ?st)))"
  proof (rule distinct_by_key_parts [where g = "\<lambda>t. case t of
                   (Some (PStr oo), Some (PStr c)) \<Rightarrow> oo @ ''-'' @ c | _ \<Rightarrow> []"])
    show "distinct (map fst (programs ?st))" using l3 [OF inits(3)] by blast
  next
    fix k e
    assume "(k, e) \<in> set (programs ?st)"
    with l3 [OF inits(3)] obtain r where "programs (prexc_step prexc_init r) = [(k, e)]"
      by blast
    from offer_programs [OF this]
    show "k = (case (e ''org_outcome_code'', e ''code'') of
                   (Some (PStr oo), Some (PStr c)) \<Rightarrow> oo @ ''-'' @ c | _ \<Rightarrow> [])"
      by auto
  qed
  have d4: "distinct (map (\<lambda>e. (e ''org_outcome_code'', e ''program_code'', e ''code''))
        (dict_values (sub_programs ?st)))"
  proof (rule distinct_by_key_parts [where g = "\<lambda>t. case t of
                   (Some (PStr oo), Some (PStr p), Some (PStr c)) \<Rightarrow> (oo @ ''-'' @ p) @ ''-'' @ c
                 | _ \<Rightarrow> []"])
    show "distinct (map fst (sub_programs ?st))" using l4 [OF inits(4)] by blast
  next
    fix k e
    assume "(k, e) \<in> set (sub_programs ?st)"
    with l4 [OF inits(4)] obtain r where "sub_programs (prexc_step prexc_init r) = [(k, e)]"
      by blast
    from offer_sub_programs [OF this]
    show "k = (case (e ''org_outcome_code'', e ''program_code'', e ''code'') of
                   (Some (PStr oo), Some (PStr p), Some (PStr c)) \<Rightarrow> (oo @ ''-'' @ p) @ ''-'' @ c
                 | _ \<Rightarrow> [])"
      by auto
  qed
  have d5: "distinct (map (\<lambda>e. (e ''org_outcome_code'', e ''program_code'', e ''sub_program_code'',
                         e ''code''))
        (dict_values (activities ?st)))"
  proof (rule distinct_by_key_parts [where g = "\<lambda>t. case t of
                   (Some (PStr oo), Some (PStr p), Some (PStr s), Some (PStr c)) \<Rightarrow>
                      ((oo @ ''-'' @ p) @ ''-'' @ s) @ ''-'' @ c
                 | _ \<Rightarrow> []"])
    show "distinct (map fst (activities ?st))" using l5 [OF inits(5)] by blast
  next
    fix k e
    assume "(k, e) \<in> set (activities ?st)"
    with l5 [OF inits(5)] obtain r where "activities (prexc_step prexc_init r) = [(k, e)]"
      by blast
    from offer_activities [OF this]
    show "k = (case (e ''org_outcome_code'', e ''program_code'', e ''sub_program_code'',
                       e ''code'') of
                   (Some (PStr oo), Some (PStr p), Some (PStr s), Some (PStr c)) \<Rightarrow>
                      ((oo @ ''-'' @ p) @ ''-'' @ s) @ ''-'' @ c
                 | _ \<Rightarrow> [])"
      by auto
  qed
  from a b c d1 d2 d3 d4 d5 show ?thesis by (intro conjI)
qed

lemma activity_offer_first:
  "activities (prexc_step prexc_init prexc_first) = [(''01-02-03-00004'', first_activity)]"
  by (simp add: prexc_step_def prexc_init_def Let_def get_default_def parse_prexc_code_def
      get_identifier_type_def py_eval prexc_first_def first_activity_def)

lemma activity_offer_second:
  "has_key (activities (prexc_step prexc_init prexc_second)) k \<longleftrightarrow> k = ''01-02-03-00004''"
  by (simp add: prexc_step_def prexc_init_def Let_def get_default_def parse_prexc_code_def
      get_identifier_type_def py_eval has_key_def prexc_second_def)

lemma activities_two_records:
  "activities (prexc_loop prexc_init [prexc_first, prexc_second])
     = [(''01-02-03-00004'', first_activity)]"
proof -
  have "filter (\<lambda>(k, e). \<not> has_key (activities (prexc_step prexc_init prexc_first)) k)
          (activities (prexc_step prexc_init prexc_second)) = []"
    using activity_offer_second
    by (auto simp: filter_empty_conv has_key_iff activity_offer_first)
  then show ?thesis
    by (simp add: prexc_step_activities(1) [of "prexc_step prexc_init prexc_first" prexc_second]
        activity_offer_first)
qed

theorem prexc_first_occurrence_wins_witness:
  "(''01-02-03-00004'', first_activity)
     \<in> set (activities (prexc_loop prexc_init [prexc_first, prexc_second]))
   \<and> (\<exists>pre r post. [prexc_first, prexc_second] = pre @ r # post
        \<and> activities (prexc_step prexc_init r) = [(''01-02-03-00004'', first_activity)])
   \<and> first_activity ''description'' = Some (PStr ''First'')
   \<and> distinct (map fst (activities (prexc_loop prexc_init [prexc_first, prexc_second])))"
proof -
  let ?recs = "[prexc_first, prexc_second]"
  have m: "(''01-02-03-00004'', first_activity) \<in> set (activities (prexc_loop prexc_init ?recs))"
    by (simp only: activities_two_records list.set insertI1)
  have mem: "activities \<in> {sectors, org_outcomes, programs, sub_programs, activities}"
    by simp
  note th = prexc_first_occurrence_wins [of ?recs]
  from th have "\<forall>proj \<in> {sectors, org_outcomes, programs, sub_programs, activities}.
       distinct (map fst (proj (prexc_loop prexc_init ?recs)))
     \<and> (\<forall>k e. (k, e) \<in> set (proj (prexc_loop prexc_init ?recs)) \<longrightarrow>
          (\<exists>pre r post. ?recs = pre @ r # post \<and> proj (prexc_step prexc_init r) = [(k, e)]
              \<and> (\<forall>r' \<in> set pre. \<not> has_key (proj (prexc_step prexc_init r')) k)))
     \<and> (\<forall>r \<in> set ?recs. \<forall>k. has_key (proj (prexc_step prexc_init r)) k
            \<longrightarrow> has_key (proj (prexc_loop prexc_init ?recs)) k)"
    by (rule conjunct1)
  note lv = bspec [OF this mem]
  from lv have lvl: "distinct (map fst (activities (prexc_loop prexc_init ?recs)))"
    by (rule conjunct1)
  from lv have orig: "\<forall>k e. (k, e) \<in> set (activities (prexc_loop prexc_init ?recs)) \<longrightarrow>
          (\<exists>pre r post. ?recs = pre @ r # post \<and> activities (prexc_step prexc_init r) = [(k, e)]
              \<and> (\<forall>r' \<in> set pre. \<not> has_key (activities (prexc_step prexc_init r')) k))"
    by (elim conjE)
  from orig [rule_format, OF m]
  have ex: "\<exists>pre r post. ?recs = pre @ r # post
      \<and> activities (prexc_step prexc_init r) = [(''01-02-03-00004'', first_activity)]"
    by (elim exE conjE) (intro exI conjI, assumption+)
  have d: "first_activity ''description'' = Some (PStr ''First'')"
    by (simp add: first_activity_def)
  from m ex d lvl show ?thesis by (intro conjI)
qed

text \<open>
  The claim as stated fails where it says that a later occurrence refreshes the
  attributes: of two records with the same activity key, the second with another
  description and level, the stored activity is the first one, unchanged.
\<close>

theorem prexc_later_occurrence_ignored:
  "convert_prexc_records [prexc_first, prexc_second] ''activities'' = Some [first_activity]
   \<and> get_default prexc_second ''PREXC_LEVEL'' (PInt 0) = PInt 7
   \<and> first_activity ''level'' = Some (PInt 6)
   \<and> get_default prexc_second ''DSC'' (PStr []) = PStr ''Second''
   \<and> first_activity ''description'' = Some (PStr ''First'')"
proof -
  have "convert_prexc_records recs ''activities''
          = Some (dict_values (activities (prexc_loop prexc_init recs)))" for recs
    by (simp add: convert_prexc_records_def Let_def)
  then have "convert_prexc_records [prexc_first, prexc_second] ''activities''
               = Some [first_activity]"
    by (simp only: activities_two_records dict_values_def list.map snd_conv)
  then show ?thesis
    by (simp add: get_default_def prexc_second_def first_activity_def)
qed

section \<open>The paginated fetcher\<close>

lemma fold_handle_result:
  "fold (handle_result api) ps (records, failed)
     = (records @ concat (map (page_records api) ps), failed @ filter (page_failed api) ps)"
  by (induction ps arbitrary: records failed)
     (auto simp: handle_result_def page_records_def page_failed_def split: page_result.splits)

lemma fetch_batch_eq:
  "fetch_batch api as_completed pages w
     = ((concat (map (page_records api) (as_completed pages)),
         filter (page_failed api) (as_completed pages)),
        w\<lparr>requested := requested w @ pages\<rparr>)"
  by (simp add: fetch_batch_def fold_handle_result)

lemma page_failed_records: "page_failed api p \<Longrightarrow> page_records api p = []"
  by (auto simp: page_failed_def page_records_def split: page_result.splits)

lemma mset_concat_map_perm:
  "mset xs = mset ys \<Longrightarrow> mset (concat (map f xs)) = mset (concat (map f ys))"
proof -
  assume "mset xs = mset ys"
  then have "image_mset (\<lambda>x. mset (f x)) (mset xs) = image_mset (\<lambda>x. mset (f x)) (mset ys)"
    by simp
  then have "sum_mset (mset (map (\<lambda>x. mset (f x)) xs))
               = sum_mset (mset (map (\<lambda>x. mset (f x)) ys))"
    by simp
  then have "sum_list (map (\<lambda>x. mset (f x)) xs) = sum_list (map (\<lambda>x. mset (f x)) ys)"
    by (simp only: sum_mset_sum_list)
  then show ?thesis by (simp add: mset_concat comp_def)
qed

lemma mset_concat_failed:
  "mset (concat (map (page_records api) ps))
     = mset (concat (map (page_records api) (filter (\<lambda>p. \<not> page_failed api p) ps)))"
  by (induction ps) (auto simp: page_failed_records)

lemma filter_perm:
  "mset xs = mset ys \<Longrightarrow> mset (filter P xs) = mset (filter P ys)"
  by simp

lemma sort_perm: "mset xs = mset ys \<Longrightarrow> sort xs = sort ys"
  by (metis mset_sort properties_for_sort sorted_sort)

text \<open>One turn of the batch loop, and its end.\<close>

lemma fetch_batches_step:
  assumes "0 < batch_size" and "batch_start \<le> end_page"
  shows "fetch_batches api as_completed now batch_start end_page batch_size
           (all_barangays, all_failed_pages, w)
         = fetch_batches api as_completed now (batch_start + int batch_size) end_page batch_size
             (all_barangays
                @ concat (map (page_records api)
                    (as_completed [batch_start..min (batch_start + int batch_size - 1) end_page])),
              all_failed_pages
                @ filter (page_failed api)
                    (as_completed [batch_start..min (batch_start + int batch_size - 1) end_page]),
              w\<lparr>requested := requested w
                     @ [batch_start..min (batch_start + int batch_size - 1) end_page],
                 files := (files w)
                   (''barangays_batch_'' @ str_int batch_start @ ''_''
                      @ str_int (min (batch_start + int batch_size - 1) end_page) @ ''.json''
                    \<mapsto> Checkpoint
                        (str_int batch_start @ ''-''
                           @ str_int (min (batch_start + int batch_size - 1) end_page))
                        (length (concat (map (page_records api)
                           (as_completed
                              [batch_start..min (batch_start + int batch_size - 1) end_page]))))
                        (filter (page_failed api)
                           (as_completed
                              [batch_start..min (batch_start + int batch_size - 1) end_page]))
                        (now (ticks w))
                        (concat (map (page_records api)
                           (as_completed
                              [batch_start..min (batch_start + int batch_size - 1) end_page])))),
                 ticks := ticks w + 1\<rparr>)"
  using assms
  by (subst fetch_batches.simps) (simp add: fetch_batch_eq Let_def)

lemma fetch_batches_stop:
  "end_page < batch_start \<Longrightarrow>
     fetch_batches api as_completed now batch_start end_page batch_size acc = acc"
  by (subst fetch_batches.simps) simp

text \<open>
  C4. Pages 1 to 20 are fetched in batches of 5; page 7 fails and every other page
  delivers records, whatever the order in which the requests of a batch complete. Then
  every page is requested once, the result is made of the records of the 19 other pages
  (batch by batch), one checkpoint file is written for each of the four batches, with
  its range, the number of its records, its failed pages, the time and the records, and
  one retry manifest is written whose failed pages are exactly \<open>[7]\<close>.
\<close>

theorem fetch_pages_1_to_20:
  fixes api :: "int \<Rightarrow> 'r page_result" and w :: "'r world"
  assumes perm: "\<And>ps. mset (as_completed ps) = mset ps"
    and fail7: "page_failed api 7"
    and ok: "\<And>p. 1 \<le> p \<Longrightarrow> p \<le> 20 \<Longrightarrow> p \<noteq> 7 \<Longrightarrow> \<not> page_failed api p"
  shows "\<exists>d1 d2 d3 d4 w'.
      fetch_barangays_from_api api as_completed now 1 20 5 w = Inr (d1 @ d2 @ d3 @ d4, w')
    \<and> mset d1 = mset (concat (map (page_records api) [1, 2, 3, 4, 5]))
    \<and> mset d2 = mset (concat (map (page_records api) [6, 8, 9, 10]))
    \<and> mset d3 = mset (concat (map (page_records api) [11, 12, 13, 14, 15]))
    \<and> mset d4 = mset (concat (map (page_records api) [16, 17, 18, 19, 20]))
    \<and> files w' = (files w)
         (''barangays_batch_1_5.json'' \<mapsto> Checkpoint ''1-5'' (length d1) [] (now (ticks w)) d1,
          ''barangays_batch_6_10.json'' \<mapsto>
             Checkpoint ''6-10'' (length d2) [7] (now (ticks w + 1)) d2,
          ''barangays_batch_11_15.json'' \<mapsto>
             Checkpoint ''11-15'' (length d3) [] (now (ticks w + 2)) d3,
          ''barangays_batch_16_20.json'' \<mapsto>
             Checkpoint ''16-20'' (length d4) [] (now (ticks w + 3)) d4,
          ''failed_pages.json'' \<mapsto> Manifest (Some [7]) 1 (now (ticks w + 4)) None)
    \<and> requested w' = requested w @ [1..20]
    \<and> ticks w' = ticks w + 5"
proof -
  define b1 b2 b3 b4 where "b1 = as_completed [1, 2, 3, 4, 5]"
    and "b2 = as_completed [6, 7, 8, 9, 10]" and "b3 = as_completed [11, 12, 13, 14, 15]"
    and "b4 = as_completed [16, 17, 18, 19, 20]"
  define d1 d2 d3 d4 where "d1 = concat (map (page_records api) b1)"
    and "d2 = concat (map (page_records api) b2)" and "d3 = concat (map (page_records api) b3)"
    and "d4 = concat (map (page_records api) b4)"
  have p1: "mset b1 = mset [1, 2, 3, 4, 5]" and p2: "mset b2 = mset [6, 7, 8, 9, 10]"
    and p3: "mset b3 = mset [11, 12, 13, 14, 15]" and p4: "mset b4 = mset [16, 17, 18, 19, 20]"
    by (simp_all only: b1_def b2_def b3_def b4_def perm)
  have oks: "\<not> page_failed api 1" "\<not> page_failed api 2" "\<not> page_failed api 3"
    "\<not> page_failed api 4" "\<not> page_failed api 5" "\<not> page_failed api 6" "\<not> page_failed api 8"
    "\<not> page_failed api 9" "\<not> page_failed api 10" "\<not> page_failed api 11"
    "\<not> page_failed api 12" "\<not> page_failed api 13" "\<not> page_failed api 14"
    "\<not> page_failed api 15" "\<not> page_failed api 16" "\<not> page_failed api 17"
    "\<not> page_failed api 18" "\<not> page_failed api 19" "\<not> page_failed api 20"
    by (simp_all add: ok)
  have f1: "filter (page_failed api) b1 = []"
  proof -
    from filter_perm [OF p1] have "mset (filter (page_failed api) b1) = {#}"
      by (simp add: oks)
    then show ?thesis by simp
  qed
  have f2: "filter (page_failed api) b2 = [7]"
  proof -
    from filter_perm [OF p2] have "mset (filter (page_failed api) b2) = {#7#}"
      by (simp add: oks fail7)
    then show ?thesis by (simp only: mset_single_iff)
  qed
  have f3: "filter (page_failed api) b3 = []"
  proof -
    from filter_perm [OF p3] have "mset (filter (page_failed api) b3) = {#}"
      by (simp add: oks)
    then show ?thesis by simp
  qed
  have f4: "filter (page_failed api) b4 = []"
  proof -
    from filter_perm [OF p4] have "mset (filter (page_failed api) b4) = {#}"
      by (simp add: oks)
    then show ?thesis by simp
  qed
  have m1: "mset d1 = mset (concat (map (page_records api) [1, 2, 3, 4, 5]))"
    unfolding d1_def by (rule mset_concat_map_perm [OF p1])
  have "mset d2 = mset (concat (map (page_records api) [6, 7, 8, 9, 10]))"
    unfolding d2_def by (rule mset_concat_map_perm [OF p2])
  then have m2: "mset d2 = mset (concat (map (page_records api) [6, 8, 9, 10]))"
    by (simp add: page_failed_records [OF fail7])
  have m3: "mset d3 = mset (concat (map (page_records api) [11, 12, 13, 14, 15]))"
    unfolding d3_def by (rule mset_concat_map_perm [OF p3])
  have m4: "mset d4 = mset (concat (map (page_records api) [16, 17, 18, 19, 20]))"
    unfolding d4_def by (rule mset_concat_map_perm [OF p4])
  have ranges: "[1..5] = [1, 2, 3, 4, 5]" "[6..10] = [6, 7, 8, 9, 10]"
    "[11..15] = [11, 12, 13, 14, 15]" "[16..20] = [16, 17, 18, 19, 20]"
    by (simp_all add: upto_rec1)
  have names: "str_int 1 = ''1''" "str_int 5 = ''5''" "str_int 6 = ''6''" "str_int 10 = ''10''"
    "str_int 11 = ''11''" "str_int 15 = ''15''" "str_int 16 = ''16''" "str_int 20 = ''20''"
    by (simp_all add: py_eval)
  define w1 where "w1 = w\<lparr>requested := requested w @ [1..20],
      files := (files w)
         (''barangays_batch_1_5.json'' \<mapsto> Checkpoint ''1-5'' (length d1) [] (now (ticks w)) d1,
          ''barangays_batch_6_10.json'' \<mapsto>
             Checkpoint ''6-10'' (length d2) [7] (now (ticks w + 1)) d2,
          ''barangays_batch_11_15.json'' \<mapsto>
             Checkpoint ''11-15'' (length d3) [] (now (ticks w + 2)) d3,
          ''barangays_batch_16_20.json'' \<mapsto>
             Checkpoint ''16-20'' (length d4) [] (now (ticks w + 3)) d4),
      ticks := ticks w + 4\<rparr>"
  have files1: "files w1 = (files w)
         (''barangays_batch_1_5.json'' \<mapsto> Checkpoint ''1-5'' (length d1) [] (now (ticks w)) d1,
          ''barangays_batch_6_10.json'' \<mapsto>
             Checkpoint ''6-10'' (length d2) [7] (now (ticks w + 1)) d2,
          ''barangays_batch_11_15.json'' \<mapsto>
             Checkpoint ''11-15'' (length d3) [] (now (ticks w + 2)) d3,
          ''barangays_batch_16_20.json'' \<mapsto>
             Checkpoint ''16-20'' (length d4) [] (now (ticks w + 3)) d4)"
    and req1: "requested w1 = requested w @ [1..20]"
    and ticks1: "ticks w1 = ticks w + 4"
    by (simp_all add: w1_def)
  have s1: "fetch_batches api as_completed now 1 20 5 ([], [], w)
      = fetch_batches api as_completed now 6 20 5 (d1, [],
          w\<lparr>requested := requested w @ [1, 2, 3, 4, 5],
            files := (files w)(''barangays_batch_1_5.json'' \<mapsto>
               Checkpoint ''1-5'' (length d1) [] (now (ticks w)) d1),
            ticks := ticks w + 1\<rparr>)"
    by (subst fetch_batches_step)
       (simp_all add: ranges names d1_def [symmetric] b1_def [symmetric] f1)
  have s2: "fetch_batches api as_completed now 6 20 5 (d1, [], w')
      = fetch_batches api as_completed now 11 20 5 (d1 @ d2, [7],
          w'\<lparr>requested := requested w' @ [6, 7, 8, 9, 10],
            files := (files w')(''barangays_batch_6_10.json'' \<mapsto>
               Checkpoint ''6-10'' (length d2) [7] (now (ticks w')) d2),
            ticks := ticks w' + 1\<rparr>)" for w' :: "'r world"
    by (subst fetch_batches_step)
       (simp_all add: ranges names d2_def [symmetric] b2_def [symmetric] f2)
  have s3: "fetch_batches api as_completed now 11 20 5 (d1 @ d2, [7], w')
      = fetch_batches api as_completed now 16 20 5 ((d1 @ d2) @ d3, [7],
          w'\<lparr>requested := requested w' @ [11, 12, 13, 14, 15],
            files := (files w')(''barangays_batch_11_15.json'' \<mapsto>
               Checkpoint ''11-15'' (length d3) [] (now (ticks w')) d3),
            ticks := ticks w' + 1\<rparr>)" for w' :: "'r world"
    by (subst fetch_batches_step)
       (simp_all add: ranges names d3_def [symmetric] b3_def [symmetric] f3)
  have s4: "fetch_batches api as_completed now 16 20 5 ((d1 @ d2) @ d3, [7], w')
      = (((d1 @ d2) @ d3) @ d4, [7],
          w'\<lparr>requested := requested w' @ [16, 17, 18, 19, 20],
            files := (files w')(''barangays_batch_16_20.json'' \<mapsto>
               Checkpoint ''16-20'' (length d4) [] (now (ticks w')) d4),
            ticks := ticks w' + 1\<rparr>)" for w' :: "'r world"
    by (subst fetch_batches_step)
       (simp_all add: ranges names d4_def [symmetric] b4_def [symmetric] f4
          fetch_batches_stop)
  have all: "[1..20] = [1, 2, 3, 4, 5] @ [6, 7, 8, 9, 10] @ [11, 12, 13, 14, 15]
               @ [16, 17, 18, 19, 20]"
    by (simp add: upto_rec1)
  have run: "fetch_batches api as_completed now 1 20 5 ([], [], w)
      = (d1 @ d2 @ d3 @ d4, [7], w1)"
    by (simp only: s1 s2 s3 s4) (simp add: w1_def all eval_nat_numeral)
  have "fetch_barangays_from_api api as_completed now 1 20 5 w
      = Inr (d1 @ d2 @ d3 @ d4,
             w1\<lparr>files := (files w1)(''failed_pages.json'' \<mapsto>
                    Manifest (Some [7]) 1 (now (ticks w1)) None),
                ticks := ticks w1 + 1\<rparr>)"
    by (simp add: fetch_barangays_from_api_def run)
  with m1 m2 m3 m4 files1 req1 ticks1 show ?thesis
    by (intro exI [of _ d1] exI [of _ d2] exI [of _ d3] exI [of _ d4]
        exI [of _ "w1\<lparr>files := (files w1)(''failed_pages.json'' \<mapsto>
                    Manifest (Some [7]) 1 (now (ticks w1)) None),
                ticks := ticks w1 + 1\<rparr>"]) simp
qed

theorem fetch_pages_1_to_20_witness:
  "page_failed example_api 7
   \<and> (\<exists>result w'.
         fetch_barangays_from_api example_api rev example_clock 1 20 5 empty_world
           = Inr (result, w')
       \<and> mset result
           = mset [1, 2, 3, 4, 5, 6, 8, 9, 10, 11, 12, 13, 14, 15, 16, 17, 18, 19, 20]
       \<and> files w' ''failed_pages.json'' = Some (Manifest (Some [7]) 1 ''T4'' None)
       \<and> requested w' = [1..20])"
proof -
  have perm: "\<And>ps :: int list. mset (rev ps) = mset ps" by simp
  have fail7: "page_failed example_api 7"
    by (simp add: page_failed_def example_api_def)
  have ok: "\<And>p. 1 \<le> p \<Longrightarrow> p \<le> 20 \<Longrightarrow> p \<noteq> 7 \<Longrightarrow> \<not> page_failed example_api p"
    by (simp add: page_failed_def example_api_def)
  have recs: "page_records example_api p = (if p = 7 then [] else [p])" for p
    by (simp add: page_records_def example_api_def)
  have t4: "example_clock (ticks empty_world + 4) = ''T4''"
    by (simp add: example_clock_def empty_world_def str_nat.simps digit_char_def)
  from fetch_pages_1_to_20 [of rev example_api example_clock empty_world, OF perm fail7 ok]
  obtain d1 d2 d3 d4 w' where
    run: "fetch_barangays_from_api example_api rev example_clock 1 20 5 empty_world
            = Inr (d1 @ d2 @ d3 @ d4, w')"
    and m1: "mset d1 = mset (concat (map (page_records example_api) [1, 2, 3, 4, 5]))"
    and m2: "mset d2 = mset (concat (map (page_records example_api) [6, 8, 9, 10]))"
    and m3: "mset d3 = mset (concat (map (page_records example_api) [11, 12, 13, 14, 15]))"
    and m4: "mset d4 = mset (concat (map (page_records example_api) [16, 17, 18, 19, 20]))"
    and fs: "files w' = (files empty_world)
         (''barangays_batch_1_5.json'' \<mapsto>
             Checkpoint ''1-5'' (length d1) [] (example_clock (ticks empty_world)) d1,
          ''barangays_batch_6_10.json'' \<mapsto>
             Checkpoint ''6-10'' (length d2) [7] (example_clock (ticks empty_world + 1)) d2,
          ''barangays_batch_11_15.json'' \<mapsto>
             Checkpoint ''11-15'' (length d3) [] (example_clock (ticks empty_world + 2)) d3,
          ''barangays_batch_16_20.json'' \<mapsto>
             Checkpoint ''16-20'' (length d4) [] (example_clock (ticks empty_world + 3)) d4,
          ''failed_pages.json'' \<mapsto>
             Manifest (Some [7]) 1 (example_clock (ticks empty_world + 4)) None)"
    and rq: "requested w' = requested empty_world @ [1..20]"
    by blast
  have a: "mset (d1 @ d2 @ d3 @ d4)
      = mset [1, 2, 3, 4, 5, 6, 8, 9, 10, 11, 12, 13, 14, 15, 16, 17, 18, 19, 20]"
    by (simp add: m1 m2 m3 m4 recs)
  have b: "files w' ''failed_pages.json'' = Some (Manifest (Some [7]) 1 ''T4'' None)"
    by (simp add: fs t4)
  have c: "requested w' = [1..20]"
    by (simp add: rq empty_world_def)
  from fail7 run a b c show ?thesis by blast
qed

text \<open>
  C5, as the code has it. Without a file at the manifest's path, and with a manifest whose
  list of failed pages is empty or missing, \<open>retry_failed_pages\<close> returns no record and
  changes nothing (the manifest stays). With a manifest that lists pages, exactly the
  listed pages are requested, the records of those that succeed are returned, and the
  manifest is deleted if all of them succeed; otherwise it is rewritten with the sorted
  pages that still fail, their number, the time, and a \<open>retry_attempt\<close> one greater than
  the old one, a missing counter counting as 0.
\<close>

theorem retry_failed_pages_cases:
  fixes api :: "int \<Rightarrow> 'r page_result" and w :: "'r world"
  assumes perm: "\<And>ps. mset (as_completed ps) = mset ps"
  shows "(files w (case failed_pages_file of None \<Rightarrow> ''failed_pages.json'' | Some p \<Rightarrow> p) = None
            \<longrightarrow> retry_failed_pages api as_completed now failed_pages_file w = ([], w))
       \<and> (\<forall>m. files w (case failed_pages_file of None \<Rightarrow> ''failed_pages.json'' | Some p \<Rightarrow> p)
                 = Some m \<and> get_failed_pages m = []
            \<longrightarrow> retry_failed_pages api as_completed now failed_pages_file w = ([], w))
       \<and> (\<forall>m. files w (case failed_pages_file of None \<Rightarrow> ''failed_pages.json'' | Some p \<Rightarrow> p)
                 = Some m \<and> get_failed_pages m \<noteq> []
            \<longrightarrow> (\<exists>records w'.
                  retry_failed_pages api as_completed now failed_pages_file w = (records, w')
                \<and> requested w' = requested w @ get_failed_pages m
                \<and> mset records
                    = mset (concat (map (page_records api)
                        (filter (\<lambda>p. \<not> page_failed api p) (get_failed_pages m))))
                \<and> files w'
                    = (if \<forall>p \<in> set (get_failed_pages m). \<not> page_failed api p
                       then (files w)
                         ((case failed_pages_file of None \<Rightarrow> ''failed_pages.json'' | Some p \<Rightarrow> p)
                            := None)
                       else (files w)
                         ((case failed_pages_file of None \<Rightarrow> ''failed_pages.json'' | Some p \<Rightarrow> p)
                            \<mapsto> Manifest
                                (Some (sort (filter (page_failed api) (get_failed_pages m))))
                                (length (filter (page_failed api) (get_failed_pages m)))
                                (now (ticks w))
                                (Some (get_retry_attempt m + 1))))))
       \<and> (\<forall>ps n t. get_retry_attempt (Manifest ps n t None :: 'r file_content) = 0)
       \<and> (\<forall>ps n t k. get_retry_attempt (Manifest ps n t (Some k) :: 'r file_content) = k)"
proof -
  let ?path = "case failed_pages_file of None \<Rightarrow> ''failed_pages.json'' | Some p \<Rightarrow> p"
  have a: "files w ?path = None
            \<longrightarrow> retry_failed_pages api as_completed now failed_pages_file w = ([], w)"
    by (simp add: retry_failed_pages_def)
  have b: "\<forall>m. files w ?path = Some m \<and> get_failed_pages m = []
            \<longrightarrow> retry_failed_pages api as_completed now failed_pages_file w = ([], w)"
    by (simp add: retry_failed_pages_def)
  have c: "\<exists>records w'.
                  retry_failed_pages api as_completed now failed_pages_file w = (records, w')
                \<and> requested w' = requested w @ get_failed_pages m
                \<and> mset records
                    = mset (concat (map (page_records api)
                        (filter (\<lambda>p. \<not> page_failed api p) (get_failed_pages m))))
                \<and> files w'
                    = (if \<forall>p \<in> set (get_failed_pages m). \<not> page_failed api p
                       then (files w)(?path := None)
                       else (files w)
                         (?path \<mapsto> Manifest
                                (Some (sort (filter (page_failed api) (get_failed_pages m))))
                                (length (filter (page_failed api) (get_failed_pages m)))
                                (now (ticks w))
                                (Some (get_retry_attempt m + 1))))"
    if m: "files w ?path = Some m" and ne: "get_failed_pages m \<noteq> []" for m
  proof -
    let ?ps = "get_failed_pages m"
    let ?done = "as_completed ?ps"
    have p: "mset ?done = mset ?ps" by (rule perm)
    have recs: "mset (concat (map (page_records api) ?done))
        = mset (concat (map (page_records api) (filter (\<lambda>p. \<not> page_failed api p) ?ps)))"
      using mset_concat_map_perm [OF p, of "page_records api"] mset_concat_failed [of api ?ps]
      by simp
    have srt: "sort (filter (page_failed api) ?done) = sort (filter (page_failed api) ?ps)"
      by (rule sort_perm [OF filter_perm [OF p]])
    have len: "length (filter (page_failed api) ?done) = length (filter (page_failed api) ?ps)"
      using filter_perm [OF p, of "page_failed api"] by (rule mset_eq_length)
    have none: "filter (page_failed api) ?done = [] \<longleftrightarrow> (\<forall>p \<in> set ?ps. \<not> page_failed api p)"
      using mset_eq_setD [OF p] by (auto simp: filter_empty_conv)
    show ?thesis
    proof (cases "\<forall>p \<in> set ?ps. \<not> page_failed api p")
      case True
      with none have "filter (page_failed api) ?done = []" by simp
      with m ne recs show ?thesis
        by (simp add: retry_failed_pages_def fetch_batch_eq Let_def True)
    next
      case False
      with none have "filter (page_failed api) ?done \<noteq> []" by simp
      with m ne recs srt len show ?thesis
        by (simp add: retry_failed_pages_def fetch_batch_eq Let_def False)
    qed
  qed
  have d: "\<forall>ps n t. get_retry_attempt (Manifest ps n t None :: 'r file_content) = 0"
    by simp
  have e: "\<forall>ps n t k. get_retry_attempt (Manifest ps n t (Some k) :: 'r file_content) = k"
    by simp
  from a b c d e show ?thesis by blast
qed

theorem retry_failed_pages_cases_witness:
  "files (manifest_world [7, 9] None) ''failed_pages.json''
      = Some (Manifest (Some [7, 9]) 2 ''T0'' None)
   \<and> (\<exists>records w'.
        retry_failed_pages example_api rev example_clock None (manifest_world [7, 9] None)
          = (records, w')
      \<and> requested w' = [7, 9]
      \<and> mset records = mset [9]
      \<and> files w' = [''failed_pages.json'' \<mapsto> Manifest (Some [7]) 1 ''T1'' (Some 1)])
   \<and> (\<exists>records w'.
        retry_failed_pages example_api rev example_clock None (manifest_world [8, 9] (Some 2))
          = (records, w')
      \<and> files w' = Map.empty)"
proof -
  have perm: "\<And>ps :: int list. mset (rev ps) = mset ps" by simp
  have f: "files (manifest_world ps k) (case None of None \<Rightarrow> ''failed_pages.json'' | Some p \<Rightarrow> p)
      = Some (Manifest (Some ps) (length ps) ''T0'' k)" for ps k
    by (simp add: manifest_world_def)
  have f79: "files (manifest_world [7, 9] None) ''failed_pages.json''
      = Some (Manifest (Some [7, 9]) 2 ''T0'' None)"
    by (simp add: manifest_world_def)
  have t1: "example_clock (ticks (manifest_world ps k)) = ''T1''" for ps k
    by (simp add: example_clock_def manifest_world_def str_nat.simps digit_char_def)
  have pf: "page_failed example_api p \<longleftrightarrow> p = 7" for p
    by (simp add: page_failed_def example_api_def)
  have pr: "page_records example_api p = (if p = 7 then [] else [p])" for p
    by (simp add: page_records_def example_api_def)
  note th = retry_failed_pages_cases [where as_completed = rev and api = example_api
      and now = example_clock and failed_pages_file = None, OF perm]
  from th [where w = "manifest_world [7, 9] None"]
  have "\<forall>m. files (manifest_world [7, 9] None)
               (case None of None \<Rightarrow> ''failed_pages.json'' | Some p \<Rightarrow> p) = Some m
             \<and> get_failed_pages m \<noteq> []
            \<longrightarrow> (\<exists>records w'.
                  retry_failed_pages example_api rev example_clock None
                    (manifest_world [7, 9] None) = (records, w')
                \<and> requested w' = requested (manifest_world [7, 9] None) @ get_failed_pages m
                \<and> mset records
                    = mset (concat (map (page_records example_api)
                        (filter (\<lambda>p. \<not> page_failed example_api p) (get_failed_pages m))))
                \<and> files w'
                    = (if \<forall>p \<in> set (get_failed_pages m). \<not> page_failed example_api p
                       then (files (manifest_world [7, 9] None))
                         ((case None of None \<Rightarrow> ''failed_pages.json'' | Some p \<Rightarrow> p) := None)
                       else (files (manifest_world [7, 9] None))
                         ((case None of None \<Rightarrow> ''failed_pages.json'' | Some p \<Rightarrow> p)
                            \<mapsto> Manifest
                                (Some (sort (filter (page_failed example_api)
                                   (get_failed_pages m))))
                                (length (filter (page_failed example_api) (get_failed_pages m)))
                                (example_clock (ticks (manifest_world [7, 9] None)))
                                (Some (get_retry_attempt m + 1)))))"
    by (elim conjE)
  from this [rule_format, of "Manifest (Some [7, 9]) 2 ''T0'' None"] f [of "[7, 9]" None]
  have a: "\<exists>records w'.
        retry_failed_pages example_api rev example_clock None (manifest_world [7, 9] None)
          = (records, w')
      \<and> requested w' = [7, 9]
      \<and> mset records = mset [9]
      \<and> files w' = [''failed_pages.json'' \<mapsto> Manifest (Some [7]) 1 ''T1'' (Some 1)]"
    by (simp add: pf pr t1) (simp add: manifest_world_def)
  from th [where w = "manifest_world [8, 9] (Some 2)"]
  have "\<forall>m. files (manifest_world [8, 9] (Some 2))
               (case None of None \<Rightarrow> ''failed_pages.json'' | Some p \<Rightarrow> p) = Some m
             \<and> get_failed_pages m \<noteq> []
            \<longrightarrow> (\<exists>records w'.
                  retry_failed_pages example_api rev example_clock None
                    (manifest_world [8, 9] (Some 2)) = (records, w')
                \<and> requested w' = requested (manifest_world [8, 9] (Some 2)) @ get_failed_pages m
                \<and> mset records
                    = mset (concat (map (page_records example_api)
                        (filter (\<lambda>p. \<not> page_failed example_api p) (get_failed_pages m))))
                \<and> files w'
                    = (if \<forall>p \<in> set (get_failed_pages m). \<not> page_failed example_api p
                       then (files (manifest_world [8, 9] (Some 2)))
                         ((case None of None \<Rightarrow> ''failed_pages.json'' | Some p \<Rightarrow> p) := None)
                       else (files (manifest_world [8, 9] (Some 2)))
                         ((case None of None \<Rightarrow> ''failed_pages.json'' | Some p \<Rightarrow> p)
                            \<mapsto> Manifest
                                (Some (sort (filter (page_failed example_api)
                                   (get_failed_pages m))))
                                (length (filter (page_failed example_api) (get_failed_pages m)))
                                (example_clock (ticks (manifest_world [8, 9] (Some 2))))
                                (Some (get_retry_attempt m + 1)))))"
    by (elim conjE)
  from this [rule_format, of "Manifest (Some [8, 9]) 2 ''T0'' (Some 2)"] f [of "[8, 9]" "Some 2"]
  have b: "\<exists>records w'.
        retry_failed_pages example_api rev example_clock None (manifest_world [8, 9] (Some 2))
          = (records, w')
      \<and> files w' = Map.empty"
    by (simp add: pf pr t1) (auto simp: manifest_world_def)
  from f79 a b show ?thesis by (intro conjI)
qed

text \<open>
  The claim as stated fails for a manifest that lists no page: every listed page succeeds,
  and the manifest is not deleted.
\<close>

theorem retry_keeps_empty_manifest:
  "retry_failed_pages example_api rev example_clock None (manifest_world [] None)
     = ([], manifest_world [] None)
   \<and> files (manifest_world [] None) ''failed_pages.json'' = Some (Manifest (Some []) 0 ''T0'' None)"
  by (simp add: retry_failed_pages_def manifest_world_def)

section \<open>Idempotence of loading\<close>

subsection \<open>Node upsert\<close>

lemma set_props_twice: "set_props (set_props p r1) r2 = set_props p (r1 ++ r2)"
  by (rule ext) (simp add: set_props_def map_add_def split: option.splits pyval.splits)

lemma set_props_empty [simp]: "set_props p Map.empty = p"
  by (simp add: set_props_def)

lemma set_props_key:
  "row k = Some v \<Longrightarrow> v \<noteq> PNone \<Longrightarrow> set_props p row k = Some v"
  by (cases v) (simp_all add: set_props_def)

lemma matches_upd_node [simp]:
  "valid_row unique_key row \<Longrightarrow>
     matches lbl unique_key v (upd_node lbl unique_key row n) = matches lbl unique_key v n"
  by (auto simp: upd_node_def matches_def valid_row_def set_props_key split: option.splits)

lemma matches_fold_upd_node [simp]:
  "\<forall>row \<in> set rows. valid_row unique_key row \<Longrightarrow>
     matches lbl unique_key v (fold (upd_node lbl unique_key) rows n) = matches lbl unique_key v n"
  by (induction rows arbitrary: n) simp_all

lemma upd_node_fresh:
  "row unique_key = Some v \<Longrightarrow>
     upd_node lbl unique_key row (fresh_node lbl unique_key v)
       = \<lparr>label = lbl, props = set_props [unique_key \<mapsto> v] row\<rparr>"
  by (simp add: upd_node_def fresh_node_def matches_def)

lemma upd_node_other:
  "row unique_key = Some v \<Longrightarrow> \<not> matches lbl unique_key v n \<Longrightarrow>
     upd_node lbl unique_key row n = n"
  by (simp add: upd_node_def)

text \<open>One row: perhaps a fresh node is added, then the row is written to all nodes.\<close>

lemma merge_row_eq:
  assumes "row unique_key = Some v" and "v \<noteq> PNone"
  shows "\<exists>c'. merge_row lbl unique_key row (g, c)
     = Inr (g\<lparr>nodes := map (upd_node lbl unique_key row)
                 (nodes g @ (if \<exists>n \<in> set (nodes g). matches lbl unique_key v n then []
                             else [fresh_node lbl unique_key v]))\<rparr>, c')"
proof (cases "\<exists>n \<in> set (nodes g). matches lbl unique_key v n")
  case True
  have "map (\<lambda>n. if matches lbl unique_key v n then n\<lparr>props := set_props (props n) row\<rparr> else n)
          (nodes g) = map (upd_node lbl unique_key row) (nodes g)"
    using assms by (simp add: upd_node_def)
  with True assms show ?thesis
    by (cases v) (simp_all add: merge_row_def)
next
  case False
  then have "map (upd_node lbl unique_key row) (nodes g) = nodes g"
    using assms by (simp add: upd_node_other map_idI)
  with False assms show ?thesis
    by (cases v) (simp_all add: merge_row_def upd_node_fresh)
qed

lemma merge_row_error:
  "\<not> valid_row unique_key row \<Longrightarrow> merge_row lbl unique_key row acc = Inl (NullMergeKey unique_key)"
  by (cases acc) (auto simp: merge_row_def valid_row_def)

lemma merge_rows_valid:
  "merge_rows lbl unique_key rows acc = Inr res \<Longrightarrow> \<forall>row \<in> set rows. valid_row unique_key row"
proof (induction rows arbitrary: acc)
  case Nil
  then show ?case by simp
next
  case (Cons row rows)
  show ?case
  proof (cases "valid_row unique_key row")
    case True
    with Cons show ?thesis by (auto split: sum.splits)
  next
    case False
    with Cons.prems show ?thesis by (simp add: merge_row_error)
  qed
qed

text \<open>All rows written to one node amount to one write of the rows that match it.\<close>

lemma fold_upd_node_eq:
  assumes "\<forall>row \<in> set rows. valid_row unique_key row"
  shows "fold (upd_node lbl unique_key) rows n
     = n\<lparr>props := set_props (props n)
           (rows_map (filter (\<lambda>row. matches lbl unique_key (the (row unique_key)) n) rows))\<rparr>"
  using assms
proof (induction rows arbitrary: n)
  case Nil
  then show ?case by simp
next
  case (Cons row rows)
  from Cons.prems have v: "valid_row unique_key row"
    and vs: "\<forall>row \<in> set rows. valid_row unique_key row"
    by simp_all
  from v obtain x where x: "row unique_key = Some x" by (auto simp: valid_row_def)
  let ?n = "upd_node lbl unique_key row n"
  have same: "filter (\<lambda>r. matches lbl unique_key (the (r unique_key)) ?n) rows
      = filter (\<lambda>r. matches lbl unique_key (the (r unique_key)) n) rows"
    using v by simp
  have "fold (upd_node lbl unique_key) (row # rows) n = fold (upd_node lbl unique_key) rows ?n"
    by simp
  also have "\<dots> = ?n\<lparr>props := set_props (props ?n)
           (rows_map (filter (\<lambda>r. matches lbl unique_key (the (r unique_key)) n) rows))\<rparr>"
    using Cons.IH [OF vs, of ?n] by (simp only: same)
  also have "\<dots> = n\<lparr>props := set_props (props n)
           (rows_map (filter (\<lambda>r. matches lbl unique_key (the (r unique_key)) n) (row # rows)))\<rparr>"
    using x by (simp add: upd_node_def set_props_twice)
  finally show ?case .
qed

lemma fold_upd_node_idem:
  assumes "\<forall>row \<in> set rows. valid_row unique_key row"
  shows "fold (upd_node lbl unique_key) rows (fold (upd_node lbl unique_key) rows n)
           = fold (upd_node lbl unique_key) rows n"
proof -
  let ?n = "fold (upd_node lbl unique_key) rows n"
  let ?m = "rows_map (filter (\<lambda>row. matches lbl unique_key (the (row unique_key)) n) rows)"
  have same: "filter (\<lambda>row. matches lbl unique_key (the (row unique_key)) ?n) rows
      = filter (\<lambda>row. matches lbl unique_key (the (row unique_key)) n) rows"
    using assms by simp
  have n: "?n = n\<lparr>props := set_props (props n) ?m\<rparr>"
    by (rule fold_upd_node_eq [OF assms])
  have "fold (upd_node lbl unique_key) rows ?n = ?n\<lparr>props := set_props (props ?n) ?m\<rparr>"
    using fold_upd_node_eq [OF assms, of lbl ?n] by (simp only: same)
  also have "\<dots> = n\<lparr>props := set_props (props n) (?m ++ ?m)\<rparr>"
    by (subst (1 2) n) (simp add: set_props_twice)
  also have "?m ++ ?m = ?m"
    by (rule ext) (simp add: map_add_def split: option.splits)
  finally show ?thesis using n by simp
qed

text \<open>Where every row finds a node, no node is created.\<close>

lemma merge_rows_matched:
  assumes "\<forall>row \<in> set rows. valid_row unique_key row"
    and "\<forall>row \<in> set rows. \<exists>n \<in> set (nodes g). matches lbl unique_key (the (row unique_key)) n"
  shows "\<exists>c'. merge_rows lbl unique_key rows (g, c)
           = Inr (g\<lparr>nodes := map (fold (upd_node lbl unique_key) rows) (nodes g)\<rparr>, c')"
  using assms
proof (induction rows arbitrary: g c)
  case Nil
  then show ?case by simp
next
  case (Cons row rows)
  from Cons.prems(1) have v: "valid_row unique_key row"
    and vs: "\<forall>row \<in> set rows. valid_row unique_key row"
    by simp_all
  from v obtain x where x: "row unique_key = Some x" "x \<noteq> PNone"
    by (auto simp: valid_row_def)
  from Cons.prems(2) x have found: "\<exists>n \<in> set (nodes g). matches lbl unique_key x n" by simp
  let ?g = "g\<lparr>nodes := map (upd_node lbl unique_key row) (nodes g)\<rparr>"
  from merge_row_eq [where row = row and unique_key = unique_key and v = x and lbl = lbl
      and g = g and c = c, OF x] found obtain c1 where
    step: "merge_row lbl unique_key row (g, c) = Inr (?g, c1)"
    by auto
  have "\<forall>r \<in> set rows. \<exists>n \<in> set (nodes ?g). matches lbl unique_key (the (r unique_key)) n"
    using Cons.prems(2) v by simp
  from Cons.IH [OF vs this, of c1] obtain c' where
    "merge_rows lbl unique_key rows (?g, c1)
       = Inr (?g\<lparr>nodes := map (fold (upd_node lbl unique_key) rows) (nodes ?g)\<rparr>, c')"
    by blast
  with step show ?case by (simp add: comp_def)
qed

text \<open>
  After an upsert, every node is an old or a fresh node to which all rows have been
  written, and every row finds a node.
\<close>

lemma merge_rows_result:
  assumes "merge_rows lbl unique_key rows (g, c) = Inr (g1, c1)"
  shows "\<exists>vs. nodes g1 = map (fold (upd_node lbl unique_key) rows)
                  (nodes g @ map (fresh_node lbl unique_key) vs)
           \<and> (\<forall>v \<in> set vs. \<not> (\<exists>n \<in> set (nodes g). matches lbl unique_key v n))
           \<and> (\<forall>row \<in> set rows. \<exists>n \<in> set (nodes g1).
                 matches lbl unique_key (the (row unique_key)) n)
           \<and> edges g1 = edges g"
  using assms
proof (induction rows arbitrary: g c)
  case Nil
  then have "nodes g1 = map (fold (upd_node lbl unique_key) [])
                  (nodes g @ map (fresh_node lbl unique_key) [])"
    by simp
  with Nil show ?case by (intro exI [of _ "[]"]) simp
next
  case (Cons row rows)
  from merge_rows_valid [OF Cons.prems] have v: "valid_row unique_key row"
    and vs: "\<forall>row \<in> set rows. valid_row unique_key row"
    by simp_all
  from v obtain x where x: "row unique_key = Some x" "x \<noteq> PNone"
    by (auto simp: valid_row_def)
  let ?found = "\<exists>n \<in> set (nodes g). matches lbl unique_key x n"
  let ?new = "if ?found then [] else [x]"
  let ?g = "g\<lparr>nodes := map (upd_node lbl unique_key row)
              (nodes g @ map (fresh_node lbl unique_key) ?new)\<rparr>"
  from merge_row_eq [where row = row and unique_key = unique_key and v = x and lbl = lbl
      and g = g and c = c, OF x] obtain c' where
    step: "merge_row lbl unique_key row (g, c) = Inr (?g, c')"
    by auto
  with Cons.prems have rest: "merge_rows lbl unique_key rows (?g, c') = Inr (g1, c1)" by simp
  from Cons.IH [OF rest] obtain ws where
    n1: "nodes g1 = map (fold (upd_node lbl unique_key) rows)
                  (nodes ?g @ map (fresh_node lbl unique_key) ws)"
    and un: "\<forall>w \<in> set ws. \<not> (\<exists>n \<in> set (nodes ?g). matches lbl unique_key w n)"
    and found1: "\<forall>r \<in> set rows. \<exists>n \<in> set (nodes g1).
                 matches lbl unique_key (the (r unique_key)) n"
    and e1: "edges g1 = edges ?g"
    by blast
  have here: "\<exists>n \<in> set (nodes ?g). matches lbl unique_key x n"
  proof (cases ?found)
    case True
    then obtain n where "n \<in> set (nodes g)" "matches lbl unique_key x n" by blast
    then have "upd_node lbl unique_key row n \<in> set (nodes ?g)"
      and "matches lbl unique_key x (upd_node lbl unique_key row n)"
      using v by simp_all
    then show ?thesis by blast
  next
    case False
    then have "upd_node lbl unique_key row (fresh_node lbl unique_key x) \<in> set (nodes ?g)"
      by simp
    moreover have "matches lbl unique_key x (fresh_node lbl unique_key x)"
      by (simp add: fresh_node_def matches_def)
    then have "matches lbl unique_key x (upd_node lbl unique_key row (fresh_node lbl unique_key x))"
      using v by simp
    ultimately show ?thesis by blast
  qed
  have other: "w \<noteq> x" if "w \<in> set ws" for w
    using un that here by blast
  have fresh: "map (upd_node lbl unique_key row) (map (fresh_node lbl unique_key) ws)
      = map (fresh_node lbl unique_key) ws"
    using other x by (auto simp: upd_node_def fresh_node_def matches_def)
  have "nodes ?g @ map (fresh_node lbl unique_key) ws
      = map (upd_node lbl unique_key row)
          (nodes g @ map (fresh_node lbl unique_key) (?new @ ws))"
    using fresh by simp
  with n1 have a: "nodes g1 = map (fold (upd_node lbl unique_key) (row # rows))
      (nodes g @ map (fresh_node lbl unique_key) (?new @ ws))"
    by (simp add: comp_def)
  have b: "\<forall>w \<in> set (?new @ ws). \<not> (\<exists>n \<in> set (nodes g). matches lbl unique_key w n)"
  proof
    fix w assume "w \<in> set (?new @ ws)"
    then consider "w \<in> set ?new" | "w \<in> set ws" by auto
    then show "\<not> (\<exists>n \<in> set (nodes g). matches lbl unique_key w n)"
    proof cases
      case 1
      then show ?thesis by (auto split: if_splits)
    next
      case 2
      show ?thesis
      proof
        assume "\<exists>n \<in> set (nodes g). matches lbl unique_key w n"
        then obtain n where "n \<in> set (nodes g)" "matches lbl unique_key w n" by blast
        then have "upd_node lbl unique_key row n \<in> set (nodes ?g)"
          and "matches lbl unique_key w (upd_node lbl unique_key row n)"
          using v by simp_all
        with un 2 show False by blast
      qed
    qed
  qed
  have c: "\<forall>r \<in> set (row # rows). \<exists>n \<in> set (nodes g1).
                 matches lbl unique_key (the (r unique_key)) n"
  proof -
    from here obtain n where n: "n \<in> set (nodes ?g)" "matches lbl unique_key x n" by blast
    from n(1) have "n \<in> set (nodes ?g @ map (fresh_node lbl unique_key) ws)"
      by (simp only: set_append UnI1)
    then have "fold (upd_node lbl unique_key) rows n \<in> set (nodes g1)"
      unfolding n1 set_map by (rule imageI)
    moreover from n(2) vs have "matches lbl unique_key x (fold (upd_node lbl unique_key) rows n)"
      by simp
    ultimately have "\<exists>n \<in> set (nodes g1). matches lbl unique_key (the (row unique_key)) n"
      using x by auto
    with found1 show ?thesis by simp
  qed
  from e1 have d: "edges g1 = edges g" by simp
  from a b c d show ?case by blast
qed

lemma batch_create_nodes_twice:
  assumes "batch_create_nodes g lbl rows unique_key = Inr (g1, c1)"
  shows "\<exists>c2. batch_create_nodes g1 lbl rows unique_key = Inr (g1, c2)"
proof -
  from assms have run: "merge_rows lbl unique_key rows (g, 0) = Inr (g1, c1)"
    by (simp add: batch_create_nodes_def)
  from merge_rows_valid [OF run] have valid: "\<forall>row \<in> set rows. valid_row unique_key row" .
  from merge_rows_result [OF run] obtain vs where
    n1: "nodes g1 = map (fold (upd_node lbl unique_key) rows)
                  (nodes g @ map (fresh_node lbl unique_key) vs)"
    and found: "\<forall>row \<in> set rows. \<exists>n \<in> set (nodes g1).
                 matches lbl unique_key (the (row unique_key)) n"
    by blast
  from merge_rows_matched [OF valid found, of 0] obtain c2 where
    "merge_rows lbl unique_key rows (g1, 0)
       = Inr (g1\<lparr>nodes := map (fold (upd_node lbl unique_key) rows) (nodes g1)\<rparr>, c2)"
    by blast
  moreover have "map (fold (upd_node lbl unique_key) rows) (nodes g1) = nodes g1"
    unfolding n1 by (simp add: fold_upd_node_idem [OF valid])
  ultimately show ?thesis by (simp add: batch_create_nodes_def)
qed

subsection \<open>Relationship derivation\<close>

lemma fold_merge_edge:
  assumes "fold (merge_edge t) ps (g, c) = (g1, c1)"
  shows "nodes g1 = nodes g
       \<and> set (edges g1) = set (edges g) \<union> (\<lambda>(a, b). (a, t, b)) ` set ps
       \<and> length (edges g1) + c = length (edges g) + c1
       \<and> (distinct (edges g) \<longrightarrow> distinct (edges g1))"
  using assms
proof (induction ps arbitrary: g c)
  case Nil
  then show ?case by simp
next
  case (Cons p ps)
  obtain a b where p: "p = (a, b)" by (cases p)
  show ?case
  proof (cases "(a, t, b) \<in> set (edges g)")
    case True
    then have "merge_edge t p (g, c) = (g, c)" by (simp add: merge_edge_def p)
    with Cons.prems have "fold (merge_edge t) ps (g, c) = (g1, c1)" by simp
    from Cons.IH [OF this] True show ?thesis by (auto simp: p)
  next
    case False
    let ?g = "g\<lparr>edges := edges g @ [(a, t, b)]\<rparr>"
    from False have "merge_edge t p (g, c) = (?g, c + 1)" by (simp add: merge_edge_def p)
    with Cons.prems have "fold (merge_edge t) ps (?g, c + 1) = (g1, c1)" by simp
    from Cons.IH [OF this] False show ?thesis by (auto simp: p)
  qed
qed

lemma fold_merge_edge_present:
  "\<forall>(a, b) \<in> set ps. (a, t, b) \<in> set (edges g) \<Longrightarrow> fold (merge_edge t) ps (g, c) = (g, c)"
  by (induction ps) (auto simp: merge_edge_def)

lemma run_rel_query_twice:
  assumes "run_rel_query q g = (g1, c1)"
  shows "run_rel_query q g1 = (g1, 0)"
    and "nodes g1 = nodes g"
    and "length (edges g1) = length (edges g) + c1"
    and "set (edges g1) = set (edges g) \<union> (\<lambda>(a, b). (a, rel_type q, b)) ` set (rel_match q (nodes g))"
    and "distinct (edges g) \<Longrightarrow> distinct (edges g1)"
proof -
  from assms have run: "fold (merge_edge (rel_type q)) (rel_match q (nodes g)) (g, 0) = (g1, c1)"
    by (simp add: run_rel_query_def merge_edges_def)
  note fm = fold_merge_edge [OF run]
  from fm show n: "nodes g1 = nodes g" by (elim conjE)
  show e: "set (edges g1)
      = set (edges g) \<union> (\<lambda>(a, b). (a, rel_type q, b)) ` set (rel_match q (nodes g))"
    using fm by (elim conjE)
  from fm show "length (edges g1) = length (edges g) + c1" by simp
  from fm show "distinct (edges g) \<Longrightarrow> distinct (edges g1)" by blast
  from e have "\<forall>(a, b) \<in> set (rel_match q (nodes g)). (a, rel_type q, b) \<in> set (edges g1)"
    by auto
  then have "fold (merge_edge (rel_type q)) (rel_match q (nodes g)) (g1, 0) = (g1, 0)"
    by (rule fold_merge_edge_present)
  then show "run_rel_query q g1 = (g1, 0)"
    by (simp add: run_rel_query_def merge_edges_def n)
qed

text \<open>
  C1. A node upsert that succeeds, run again on its own result with the same rows, succeeds
  and leaves the graph as it is: the same nodes with the same properties, and the same
  edges. A relationship derivation, run again on its own result, creates no edge and
  leaves the graph as it is; the first run leaves the nodes alone and adds exactly the
  matched edges that were missing, each once, so that the edges grow by the number it
  reports. This holds for every relationship query, and so for the four of
  \<open>sync_funding_source\<close>.
\<close>

theorem loading_idempotent:
  "(\<forall>g1 c1. batch_create_nodes g lbl rows unique_key = Inr (g1, c1) \<longrightarrow>
       (\<exists>c2. batch_create_nodes g1 lbl rows unique_key = Inr (g1, c2)) \<and> edges g1 = edges g)
   \<and> (\<forall>q g1 c1. run_rel_query q g = (g1, c1) \<longrightarrow>
         run_rel_query q g1 = (g1, 0) \<and> nodes g1 = nodes g
       \<and> length (edges g1) = length (edges g) + c1
       \<and> set (edges g1)
           = set (edges g) \<union> (\<lambda>(a, b). (a, rel_type q, b)) ` set (rel_match q (nodes g))
       \<and> (distinct (edges g) \<longrightarrow> distinct (edges g1)))
   \<and> (\<forall>q \<in> {fund_cluster_financing_source, financing_source_authorization,
              authorization_fund_category, fund_category_funding_source}.
         run_rel_query q (fst (run_rel_query q g)) = (fst (run_rel_query q g), 0))"
proof (intro conjI allI impI ballI)
  fix g1 c1
  assume run: "batch_create_nodes g lbl rows unique_key = Inr (g1, c1)"
  show "\<exists>c2. batch_create_nodes g1 lbl rows unique_key = Inr (g1, c2)"
    by (rule batch_create_nodes_twice [OF run])
  from run have "merge_rows lbl unique_key rows (g, 0) = Inr (g1, c1)"
    by (simp add: batch_create_nodes_def)
  from merge_rows_result [OF this] show "edges g1 = edges g" by blast
next
  fix q g1 c1
  assume run: "run_rel_query q g = (g1, c1)"
  show "run_rel_query q g1 = (g1, 0)" by (rule run_rel_query_twice(1) [OF run])
  show "nodes g1 = nodes g" by (rule run_rel_query_twice(2) [OF run])
  show "length (edges g1) = length (edges g) + c1" by (rule run_rel_query_twice(3) [OF run])
  show "set (edges g1)
      = set (edges g) \<union> (\<lambda>(a, b). (a, rel_type q, b)) ` set (rel_match q (nodes g))"
    by (rule run_rel_query_twice(4) [OF run])
  assume "distinct (edges g)"
  then show "distinct (edges g1)" by (rule run_rel_query_twice(5) [OF run])
next
  fix q :: rel_query
  have "run_rel_query q g = (fst (run_rel_query q g), snd (run_rel_query q g))" by simp
  then show "run_rel_query q (fst (run_rel_query q g)) = (fst (run_rel_query q g), 0)"
    by (rule run_rel_query_twice(1))
qed

lemma set_props_update:
  "v \<noteq> PNone \<Longrightarrow> set_props p (m(k \<mapsto> v)) = (set_props p m)(k \<mapsto> v)"
  by (rule ext) (cases v, simp_all add: set_props_def)

theorem loading_idempotent_witness:
  "batch_create_nodes empty_graph ''FundCluster'' example_rows ''code''
     = Inr (fund_cluster_graph, 2)
   \<and> (\<exists>c2. batch_create_nodes fund_cluster_graph ''FundCluster'' example_rows ''code''
         = Inr (fund_cluster_graph, c2))
   \<and> run_rel_query fund_category_funding_source funding_graph
       = (funding_graph\<lparr>edges := [(0, ''HAS_FUNDING_SOURCE'', 1)]\<rparr>, 1)
   \<and> run_rel_query fund_category_funding_source
         (funding_graph\<lparr>edges := [(0, ''HAS_FUNDING_SOURCE'', 1)]\<rparr>)
       = (funding_graph\<lparr>edges := [(0, ''HAS_FUNDING_SOURCE'', 1)]\<rparr>, 0)"
proof -
  have run: "batch_create_nodes empty_graph ''FundCluster'' example_rows ''code''
     = Inr (fund_cluster_graph, 2)"
    by (simp add: batch_create_nodes_def merge_row_def example_rows_def empty_graph_def
        matches_def fund_cluster_graph_def set_props_update)
  have rel: "run_rel_query fund_category_funding_source funding_graph
       = (funding_graph\<lparr>edges := [(0, ''HAS_FUNDING_SOURCE'', 1)]\<rparr>, 1)"
    by (simp add: run_rel_query_def fund_category_funding_source_def funding_graph_def
        merge_edges_def merge_edge_def labelled_def node_prop_def cy_eq_def)
  note th = loading_idempotent [of empty_graph "''FundCluster''" example_rows "''code''"]
  from th have "\<forall>g1 c1. batch_create_nodes empty_graph ''FundCluster'' example_rows ''code''
        = Inr (g1, c1) \<longrightarrow>
       (\<exists>c2. batch_create_nodes g1 ''FundCluster'' example_rows ''code'' = Inr (g1, c2))
       \<and> edges g1 = edges empty_graph"
    by (rule conjunct1)
  from this [rule_format, OF run]
  have a: "\<exists>c2. batch_create_nodes fund_cluster_graph ''FundCluster'' example_rows ''code''
         = Inr (fund_cluster_graph, c2)"
    by (rule conjunct1)
  note th2 = loading_idempotent [of funding_graph "''FundCluster''" example_rows "''code''"]
  from th2 have "\<forall>q g1 c1. run_rel_query q funding_graph = (g1, c1) \<longrightarrow>
         run_rel_query q g1 = (g1, 0) \<and> nodes g1 = nodes funding_graph
       \<and> length (edges g1) = length (edges funding_graph) + c1
       \<and> set (edges g1)
           = set (edges funding_graph)
               \<union> (\<lambda>(a, b). (a, rel_type q, b)) ` set (rel_match q (nodes funding_graph))
       \<and> (distinct (edges funding_graph) \<longrightarrow> distinct (edges g1))"
    by (elim conjE)
  from this [rule_format, OF rel]
  have b: "run_rel_query fund_category_funding_source
         (funding_graph\<lparr>edges := [(0, ''HAS_FUNDING_SOURCE'', 1)]\<rparr>)
       = (funding_graph\<lparr>edges := [(0, ''HAS_FUNDING_SOURCE'', 1)]\<rparr>, 0)"
    by (rule conjunct1)
  from run a rel b show ?thesis by (intro conjI)
qed

section \<open>Paged relationship derivation\<close>

lemma merge_edges_new: "snd (fold (merge_edge t) ps (g, c)) \<le> c + length ps"
proof (induction ps arbitrary: g c)
  case Nil
  show ?case by simp
next
  case (Cons p ps)
  obtain a b where p: "p = (a, b)" by (cases p)
  show ?case
  proof (cases "(a, t, b) \<in> set (edges g)")
    case True
    then have "merge_edge t p (g, c) = (g, c)" by (simp add: merge_edge_def p)
    then show ?thesis using Cons.IH [of g c] by simp
  next
    case False
    then have "merge_edge t p (g, c) = (g\<lparr>edges := edges g @ [(a, t, b)]\<rparr>, c + 1)"
      by (simp add: merge_edge_def p)
    then show ?thesis using Cons.IH [of "g\<lparr>edges := edges g @ [(a, t, b)]\<rparr>" "c + 1"] by simp
  qed
qed

lemma count_star_ge: "length ps \<le> count_star t ps g"
proof (induction ps)
  case Nil
  show ?case by (simp add: count_star_def)
next
  case (Cons p ps)
  obtain a b where "p = (a, b)" by (cases p)
  with Cons show ?case by (simp add: count_star_def)
qed

lemma run_page_new:
  assumes "run_page q offset batch g = (g1, created, new_edges)"
  shows "new_edges \<le> created"
proof -
  let ?ps = "page_pairs q offset batch g"
  from assms have "new_edges = snd (fold (merge_edge (pq_type q)) ?ps (g, 0))"
    and "created = count_star (pq_type q) ?ps g"
    by (auto simp add: run_page_def merge_edges_def Let_def split: prod.splits)
  then show ?thesis
    using merge_edges_new [of "pq_type q" ?ps g 0] count_star_ge [of ?ps "pq_type q" g] by simp
qed

lemma run_page_count_0:
  "fst (snd (run_page q offset batch g)) = 0 \<longleftrightarrow> page_pairs q offset batch g = []"
  by (simp add: run_page_def Let_def count_star_0 split: prod.splits)

lemma paged_loop_stop:
  assumes "run_page q offset batch g = (g1, 0, new_edges)"
  shows "paged_loop q batch offset total_count pages g
           = (total_count, pages @ [(offset, 0, new_edges)], g1)"
  by (subst paged_loop.simps) (simp add: assms)

lemma paged_loop_step:
  assumes "run_page q offset batch g = (g1, created, new_edges)" and "created \<noteq> 0"
  shows "paged_loop q batch offset total_count pages g
           = paged_loop q batch (offset + batch) (total_count + created)
               (pages @ [(offset, created, new_edges)]) g1"
  by (subst paged_loop.simps) (simp add: assms)

lemma paged_loop_pages:
  assumes "paged_loop q batch offset total_count pages g = (total_count1, pages1, g1)"
  shows "\<exists>new. pages1 = pages @ new \<and> new \<noteq> []
           \<and> (\<forall>i < length new. fst (new ! i) = offset + i * batch)
           \<and> (\<forall>i < length new. fst (snd (new ! i)) = 0 \<longleftrightarrow> Suc i = length new)
           \<and> total_count1 = total_count + sum_list (map (\<lambda>p. fst (snd p)) new)
           \<and> (\<forall>p \<in> set new. snd (snd p) \<le> fst (snd p))
           \<and> (\<forall>i. Suc i < length new \<longrightarrow> fst (new ! i) < length (pq_rows q (nodes g)))
           \<and> nodes g1 = nodes g"
  using assms
proof (induction q batch offset total_count pages g rule: paged_loop.induct)
  case (1 q batch offset total_count pages g)
  obtain g2 created new_edges where run: "run_page q offset batch g = (g2, created, new_edges)"
    by (cases "run_page q offset batch g") auto
  from run have le: "new_edges \<le> created" by (rule run_page_new)
  from run have n2: "nodes g2 = nodes g" using nodes_run_page [of q offset batch g] by simp
  show ?case
  proof (cases "created = 0")
    case True
    with run "1.prems" have "total_count1 = total_count"
      and "pages1 = pages @ [(offset, 0, new_edges)]" and "g1 = g2"
      by (simp_all add: paged_loop_stop)
    with le n2 True show ?thesis by (intro exI [of _ "[(offset, 0, new_edges)]"]) simp
  next
    case False
    from "1.prems" have rec: "paged_loop q batch (offset + batch) (total_count + created)
        (pages @ [(offset, created, new_edges)]) g2 = (total_count1, pages1, g1)"
      by (simp add: paged_loop_step [OF run False])
    from "1.IH" [OF run [symmetric] refl False rec]
    obtain new where new: "pages1 = (pages @ [(offset, created, new_edges)]) @ new" "new \<noteq> []"
      "\<forall>i < length new. fst (new ! i) = offset + batch + i * batch"
      "\<forall>i < length new. fst (snd (new ! i)) = 0 \<longleftrightarrow> Suc i = length new"
      "total_count1 = total_count + created + sum_list (map (\<lambda>p. fst (snd p)) new)"
      "\<forall>p \<in> set new. snd (snd p) \<le> fst (snd p)"
      "\<forall>i. Suc i < length new \<longrightarrow> fst (new ! i) < length (pq_rows q (nodes g2))"
      "nodes g1 = nodes g2"
      by blast
    let ?new = "(offset, created, new_edges) # new"
    have a: "\<forall>i < length ?new. fst (?new ! i) = offset + i * batch"
    proof (intro allI impI)
      fix i assume "i < length ?new"
      then show "fst (?new ! i) = offset + i * batch"
        using new(3) by (cases i) simp_all
    qed
    have b: "\<forall>i < length ?new. fst (snd (?new ! i)) = 0 \<longleftrightarrow> Suc i = length ?new"
    proof (intro allI impI)
      fix i assume "i < length ?new"
      then show "fst (snd (?new ! i)) = 0 \<longleftrightarrow> Suc i = length ?new"
        using new(2,4) False by (cases i) simp_all
    qed
    from new(1) have c: "pages1 = pages @ ?new" by simp
    from new(5) have d: "total_count1 = total_count + sum_list (map (\<lambda>p. fst (snd p)) ?new)"
      by simp
    from new(6) le have e: "\<forall>p \<in> set ?new. snd (snd p) \<le> fst (snd p)" by simp
    from new(8) n2 have f: "nodes g1 = nodes g" by simp
    from run False have "offset < length (pq_rows q (nodes g))"
      using run_page_rows [of q offset batch g] by simp
    have h: "\<forall>i. Suc i < length ?new \<longrightarrow> fst (?new ! i) < length (pq_rows q (nodes g))"
    proof (intro allI impI)
      fix i assume "Suc i < length ?new"
      then show "fst (?new ! i) < length (pq_rows q (nodes g))"
        using new(7) n2 \<open>offset < length (pq_rows q (nodes g))\<close> by (cases i) simp_all
    qed
    from a b c d e f h show ?thesis by (intro exI [of _ ?new]) simp
  qed
qed


text \<open>
  C3. The five paged loops are \<open>paged_loop\<close> from offset 0 at \<open>city_barangay\<close> with pages of
  50000 rows and at the four budget queries with pages of 10000 rows. For every paged query,
  page size and graph the loop returns, after at least one page; the offset of page \<open>i\<close> is
  \<open>i\<close> times the page size; the value of \<open>count(*)\<close> is zero on the last page and on no page
  before it, so the loop ends exactly at the first page that returns zero rows; the total
  that is reported is the sum of the values of \<open>count(*)\<close> of the pages. A page has at most
  as many new edges as rows, so the last page has no new edge, but a page before it may have
  none either. Every page but the last starts inside the rows of the query, and the nodes
  are left as they were.
\<close>

theorem paged_loop_ends_at_empty_page:
  "\<exists>total_count pages g1.
      paged_loop q batch 0 0 [] g = (total_count, pages, g1)
    \<and> pages \<noteq> []
    \<and> (\<forall>i < length pages. fst (pages ! i) = i * batch)
    \<and> (\<forall>i < length pages. fst (snd (pages ! i)) = 0 \<longleftrightarrow> Suc i = length pages)
    \<and> total_count = sum_list (map (\<lambda>p. fst (snd p)) pages)
    \<and> (\<forall>p \<in> set pages. snd (snd p) \<le> fst (snd p))
    \<and> (\<forall>i. Suc i < length pages \<longrightarrow> i * batch < length (pq_rows q (nodes g)))
    \<and> nodes g1 = nodes g"
proof -
  obtain total_count pages g1 where run: "paged_loop q batch 0 0 [] g = (total_count, pages, g1)"
    by (cases "paged_loop q batch 0 0 [] g") auto
  from paged_loop_pages [OF run] obtain new where new: "pages = [] @ new" "new \<noteq> []"
    "\<forall>i < length new. fst (new ! i) = 0 + i * batch"
    "\<forall>i < length new. fst (snd (new ! i)) = 0 \<longleftrightarrow> Suc i = length new"
    "total_count = 0 + sum_list (map (\<lambda>p. fst (snd p)) new)"
    "\<forall>p \<in> set new. snd (snd p) \<le> fst (snd p)"
    "\<forall>i. Suc i < length new \<longrightarrow> fst (new ! i) < length (pq_rows q (nodes g))"
    "nodes g1 = nodes g"
    by blast
  from new(1) have p: "new = pages" by simp
  have "\<forall>i. Suc i < length pages \<longrightarrow> i * batch < length (pq_rows q (nodes g))"
  proof (intro allI impI)
    fix i assume i: "Suc i < length pages"
    with new(3) p have "fst (pages ! i) = i * batch" by simp
    moreover from new(7) p i have "fst (pages ! i) < length (pq_rows q (nodes g))" by blast
    ultimately show "i * batch < length (pq_rows q (nodes g))" by simp
  qed
  with run new(2-6,8) show ?thesis
    unfolding p by (intro exI [of _ total_count] exI [of _ pages] exI [of _ g1]) simp
qed

lemma run_page_barangay:
  "run_page city_barangay 0 50000 barangay_graph = (linked_graph, 2, 2)"
  by (simp add: run_page_def page_pairs_def city_barangay_def barangay_graph_def
      linked_graph_def labelled_def node_prop_def cy_eq_def merge_edges_def merge_edge_def
      count_star_def Let_def)

lemma run_page_barangay_end:
  "run_page city_barangay 50000 50000 linked_graph = (linked_graph, 0, 0)"
  by (simp add: run_page_def page_pairs_def city_barangay_def barangay_graph_def
      linked_graph_def labelled_def node_prop_def cy_eq_def merge_edges_def merge_edge_def
      count_star_def Let_def)

lemma run_page_linked:
  "run_page city_barangay 0 50000 linked_graph = (linked_graph, 2, 0)"
  by (simp add: run_page_def page_pairs_def city_barangay_def barangay_graph_def
      linked_graph_def labelled_def node_prop_def cy_eq_def merge_edges_def merge_edge_def
      count_star_def Let_def)

lemma barangay_relationships_first:
  "barangay_relationships barangay_graph = (2, [(0, 2, 2), (50000, 0, 0)], linked_graph)"
  unfolding barangay_relationships_def
  using paged_loop_step [OF run_page_barangay, of 0 "[]"]
    paged_loop_stop [OF run_page_barangay_end, of 2 "[(0, 2, 2)]"]
  by (simp del: add_2_eq_Suc add_2_eq_Suc')

theorem paged_loop_ends_at_empty_page_witness:
  "barangay_relationships barangay_graph = (2, [(0, 2, 2), (50000, 0, 0)], linked_graph)
   \<and> (\<exists>pages g1. paged_loop city_barangay 50000 0 0 [] barangay_graph = (2, pages, g1)
        \<and> pages \<noteq> [] \<and> 2 = sum_list (map (\<lambda>p. fst (snd p)) pages)
        \<and> nodes g1 = nodes barangay_graph)"
proof -
  note run = barangay_relationships_first
  from paged_loop_ends_at_empty_page [of city_barangay 50000 barangay_graph]
  obtain total_count pages g1 where
    p: "paged_loop city_barangay 50000 0 0 [] barangay_graph = (total_count, pages, g1)"
      "pages \<noteq> []" "total_count = sum_list (map (\<lambda>p. fst (snd p)) pages)"
      "nodes g1 = nodes barangay_graph"
    by blast
  from p(1) run have "total_count = 2" by (simp add: barangay_relationships_def)
  with p have "paged_loop city_barangay 50000 0 0 [] barangay_graph = (2, pages, g1)
      \<and> pages \<noteq> [] \<and> 2 = sum_list (map (\<lambda>p. fst (snd p)) pages)
      \<and> nodes g1 = nodes barangay_graph"
    by simp
  then have "\<exists>pages g1. paged_loop city_barangay 50000 0 0 [] barangay_graph = (2, pages, g1)
      \<and> pages \<noteq> [] \<and> 2 = sum_list (map (\<lambda>p. fst (snd p)) pages)
      \<and> nodes g1 = nodes barangay_graph"
    by (intro exI)
  with run show ?thesis by (rule conjI)
qed

text \<open>
  On a graph that has the edges already, as on every run after the first, the first page
  returns two rows and creates no edge, and the loop goes on to the next page: it does not end
  at a page without new edges, and it reports 2 where no edge was created.
\<close>

theorem page_without_new_edges_continues:
  "barangay_relationships linked_graph = (2, [(0, 2, 0), (50000, 0, 0)], linked_graph)"
  unfolding barangay_relationships_def
  using paged_loop_step [OF run_page_linked, of 0 "[]"]
    paged_loop_stop [OF run_page_barangay_end, of 2 "[(0, 2, 0)]"]
  by (simp del: add_2_eq_Suc add_2_eq_Suc')

text \<open>
  The budget loops cut the window out of the budget records and match the other end of the
  edge afterwards. With pages of 10000 records both records of \<open>budget_graph\<close> are on the
  first page, and the second one gets its edge. With pages of one record the first page
  matches no funding source, returns zero, and ends the loop before the second record is
  looked at.
\<close>

lemma budget_relationships_example:
  "budget_relationships (budget_funding_source (PStr ''2025'') (PStr ''GAA'')) budget_graph
     = (1, [(0, 1, 1), (10000, 0, 0)], budget_graph\<lparr>edges := [(1, ''FUNDED_BY'', 2)]\<rparr>)"
proof -
  let ?q = "budget_funding_source (PStr ''2025'') (PStr ''GAA'')"
  let ?g = "budget_graph\<lparr>edges := [(1, ''FUNDED_BY'', 2)]\<rparr>"
  have a: "run_page ?q 0 10000 budget_graph = (?g, 1, 1)"
    by (simp add: run_page_def page_pairs_def budget_funding_source_def budget_rows_def
        budget_pairs_def budget_graph_def labelled_def node_prop_def cy_eq_def merge_edges_def
        merge_edge_def count_star_def Let_def)
  have b: "run_page ?q 10000 10000 ?g = (?g, 0, 0)"
    by (simp add: run_page_def page_pairs_def budget_funding_source_def budget_rows_def
        budget_pairs_def budget_graph_def labelled_def node_prop_def cy_eq_def merge_edges_def
        merge_edge_def count_star_def Let_def)
  show ?thesis
    unfolding budget_relationships_def
    using paged_loop_step [OF a, of 0 "[]"] paged_loop_stop [OF b, of 1 "[(0, 1, 1)]"]
    by simp
qed

lemma page_without_match_ends_loop:
  "paged_loop (budget_funding_source (PStr ''2025'') (PStr ''GAA'')) 1 0 0 [] budget_graph
     = (0, [(0, 0, 0)], budget_graph)"
proof -
  have "run_page (budget_funding_source (PStr ''2025'') (PStr ''GAA'')) 0 1 budget_graph
      = (budget_graph, 0, 0)"
    by (simp add: run_page_def page_pairs_def budget_funding_source_def budget_rows_def
        budget_pairs_def budget_graph_def labelled_def node_prop_def cy_eq_def merge_edges_def
        merge_edge_def count_star_def Let_def)
  from paged_loop_stop [OF this, of 0 "[]"] show ?thesis by simp
qed

section \<open>Errors of the store during a run\<close>





























































end
